theory Spec2Isabelle
  imports Complex_Main "HOL-Library.AList" "HOL-Library.Char_ord" "HOL-Library.List_Lexorder"
    "HOL-Library.Product_Lexorder"
begin

section \<open>Scalene: the sampling and attribution engine of \<open>scalene/scalene.py\<close>\<close>

text \<open>
  Conventions of the embedding.
  \<^item> A Python \<open>float\<close> is an exact rational (\<^typ>\<open>rat\<close>): rounding is outside the model,
    so a sum is the sum of its terms whatever the order. \<open>float("inf")\<close> is \<open>None\<close> in a
    \<^typ>\<open>rat option\<close>.
  \<^item> A raised exception is a value of \<open>error\<close>; a function that can raise returns
    \<open>error + 'a\<close>, or a pair with \<open>error option\<close> when it has changed the state before.
  \<^item> \<open>functools.lru_cache\<close> on \<open>should_trace\<close> and \<open>is_call_function\<close> is transparent:
    both are functions of their argument, of \<open>program_path\<close> and of the working directory,
    which are explicit arguments here.
\<close>

datatype error = IndexError | ValueError | AttributeError | FileNotFoundError | ZeroDivisionError

subsection \<open>Strings and paths\<close>

text \<open>Python's \<open>sub in s\<close> on strings: \<open>sub\<close> occurs in \<open>s\<close> as a contiguous run.\<close>

fun starts_with :: "string \<Rightarrow> string \<Rightarrow> bool" where
  "starts_with [] s = True"
| "starts_with (c # cs) [] = False"
| "starts_with (c # cs) (d # ds) = (c = d \<and> starts_with cs ds)"

fun py_in :: "string \<Rightarrow> string \<Rightarrow> bool" where
  "py_in sub [] = (sub = [])"
| "py_in sub (c # cs) = (starts_with sub (c # cs) \<or> py_in sub cs)"

text \<open>\<open>str.split('/')\<close> and \<open>'/'.join\<close>.\<close>

fun split_slash :: "string \<Rightarrow> string list" where
  "split_slash [] = [[]]"
| "split_slash (c # cs) =
     (if c = CHR ''/'' then [] # split_slash cs
      else (case split_slash cs of [] \<Rightarrow> [[c]] | w # ws \<Rightarrow> (c # w) # ws))"

fun join_slash :: "string list \<Rightarrow> string" where
  "join_slash [] = []"
| "join_slash [w] = w"
| "join_slash (w # v # ws) = w @ ''/'' @ join_slash (v # ws)"

text \<open>
  \<open>posixpath.normpath\<close>, \<open>posixpath.join\<close> (two arguments) and \<open>posixpath.abspath\<close> of the
  Python standard library; \<open>os.getcwd()\<close> is the argument \<open>cwd\<close>.
\<close>

definition norm_step :: "nat \<Rightarrow> string list \<Rightarrow> string \<Rightarrow> string list" where
  "norm_step initial_slashes new_comps part =
     (if part = [] \<or> part = ''.'' then new_comps
      else if part \<noteq> ''..'' \<or> (initial_slashes = 0 \<and> new_comps = [])
              \<or> (new_comps \<noteq> [] \<and> last new_comps = ''..'')
        then new_comps @ [part]
      else if new_comps \<noteq> [] then butlast new_comps
      else new_comps)"

definition normpath :: "string \<Rightarrow> string" where
  "normpath path =
     (if path = [] then ''.''
      else
        let initial_slashes =
              (if starts_with ''/'' path
               then (if starts_with ''//'' path \<and> \<not> starts_with ''///'' path then 2 else 1)
               else (0::nat));
            comps = foldl (norm_step initial_slashes) [] (split_slash path);
            path' = replicate initial_slashes CHR ''/'' @ join_slash comps
        in if path' = [] then ''.'' else path')"

definition path_join :: "string \<Rightarrow> string \<Rightarrow> string" where
  "path_join a b =
     (if starts_with ''/'' b then b
      else if a = [] \<or> last a = CHR ''/'' then a @ b
      else a @ ''/'' @ b)"

definition abspath :: "string \<Rightarrow> string \<Rightarrow> string" where
  "abspath cwd path =
     normpath (if starts_with ''/'' path then path else path_join cwd path)"

subsection \<open>FileFilter: \<open>should_trace\<close>\<close>

text \<open>
  \<open>filename[0]\<close> raises \<open>IndexError\<close> on the empty string. The last line is the substring
  test \<open>Scalene.program_path in filename\<close>.
\<close>

definition should_trace :: "string \<Rightarrow> string \<Rightarrow> string \<Rightarrow> error + bool" where
  "should_trace cwd program_path filename =
     (case filename of
        [] \<Rightarrow> Inl IndexError
      | c # _ \<Rightarrow>
          if c = CHR ''<'' \<or> py_in ''site-packages'' filename
             \<or> py_in ''/usr/lib/python'' filename
          then Inr False
          else if py_in ''scalene.py'' filename then Inr False
          else Inr (py_in program_path (abspath cwd filename)))"

text \<open>
  The specification's words, for comparison: a path is a descendant of a directory when
  it is the directory followed by a separator and a non-empty rest.
\<close>

definition descendant_of :: "string \<Rightarrow> string \<Rightarrow> bool" where
  "descendant_of dir p = (starts_with (dir @ ''/'') p \<and> length dir + 1 < length p)"

subsection \<open>Sparkline\<close>

text \<open>
  A Python string that holds the bar characters is a list of Unicode code points; the
  source's own comment lists those of \<open>bar\<close>: 9601 to 9608.
\<close>

type_synonym ustring = "nat list"

definition bar :: ustring where
  "bar = [9601, 9602, 9603, 9604, 9605, 9606, 9607, 9608]"

definition barcount :: int where
  "barcount = int (length bar)"

text \<open>\<open>int(x)\<close> on a float truncates towards zero.\<close>

definition py_int :: "rat \<Rightarrow> int" where
  "py_int x = (if 0 \<le> x then \<lfloor>x\<rfloor> else \<lceil>x\<rceil>)"

text \<open>\<open>Scalene.bar[i]\<close>: a negative index counts from the end, out of range raises.\<close>

definition bar_at :: "int \<Rightarrow> error + nat" where
  "bar_at i =
     (let j = (if i < 0 then barcount + i else i)
      in if 0 \<le> j \<and> j < barcount then Inr (bar ! nat j) else Inl IndexError)"

text \<open>\<open>min(numbers)\<close> and \<open>max(numbers)\<close> raise \<open>ValueError\<close> on an empty sequence.\<close>

fun py_min :: "rat list \<Rightarrow> error + rat" where
  "py_min [] = Inl ValueError"
| "py_min (x # xs) = Inr (fold min xs x)"

fun py_max :: "rat list \<Rightarrow> error + rat" where
  "py_max [] = Inl ValueError"
| "py_max (x # xs) = Inr (fold max xs x)"

text \<open>The generator inside \<open>''.join\<close>: one bar per number, the first failing index raises.\<close>

fun spark_chars :: "rat \<Rightarrow> rat \<Rightarrow> rat list \<Rightarrow> error + ustring" where
  "spark_chars mn extent [] = Inr []"
| "spark_chars mn extent (n # ns) =
     (case bar_at (min (barcount - 1) (py_int ((n - mn) / extent * of_int barcount))) of
        Inl e \<Rightarrow> Inl e
      | Inr c \<Rightarrow> (case spark_chars mn extent ns of Inl e \<Rightarrow> Inl e | Inr cs \<Rightarrow> Inr (c # cs)))"

definition sparkline :: "rat list \<Rightarrow> rat \<Rightarrow> rat \<Rightarrow> error + rat \<times> rat \<times> ustring" where
  "sparkline numbers fixed_min fixed_max =
     (case (if fixed_min = - 1 then py_min numbers else Inr fixed_min) of
        Inl e \<Rightarrow> Inl e
      | Inr mn \<Rightarrow>
     (case (if fixed_max = - 1 then py_max numbers else Inr fixed_max) of
        Inl e \<Rightarrow> Inl e
      | Inr mx \<Rightarrow>
          let extent = mx - mn;
              extent = (if extent = 0 then 1 else extent)
          in (case spark_chars mn extent numbers of
                Inl e \<Rightarrow> Inl e
              | Inr s \<Rightarrow> Inr (mn, mx, s))))"

text \<open>
  The specification's words, for comparison: index
  \<open>clamp(\<lfloor>(n - min)/extent \<cdot> 8\<rfloor>, 0, 7)\<close> with \<open>extent = max(max - min, 1)\<close>, a bound
  equal to \<open>-1\<close> derived from the data, the empty sequence giving the empty string with
  zero bounds.
\<close>

definition spec_bar_index :: "rat \<Rightarrow> rat \<Rightarrow> rat \<Rightarrow> int" where
  "spec_bar_index mn mx n = max 0 (min 7 \<lfloor>(n - mn) / max (mx - mn) 1 * 8\<rfloor>)"

definition spec_sparkline :: "rat list \<Rightarrow> rat \<Rightarrow> rat \<Rightarrow> rat \<times> rat \<times> ustring" where
  "spec_sparkline xs fixed_min fixed_max =
     (if xs = [] then (0, 0, [])
      else
        let mn = (if fixed_min = - 1 then fold min (tl xs) (hd xs) else fixed_min);
            mx = (if fixed_max = - 1 then fold max (tl xs) (hd xs) else fixed_max)
        in (mn, mx, map (\<lambda>n. bar ! nat (spec_bar_index mn mx n)) xs))"

subsection \<open>StatsStore: \<open>defaultdict\<close> tables\<close>

text \<open>
  A \<open>dict\<close> is an association list in insertion order. Indexing a \<open>defaultdict\<close> at a
  missing key stores the default there and returns it: \<open>dd_val\<close> is the value read,
  \<open>dd_upd\<close> the dictionary after \<open>d[k] = g(d[k])\<close>, and a plain read leaves
  \<open>dd_upd dflt k id d\<close> behind.
\<close>

type_synonym ('k, 'v) dict = "('k \<times> 'v) list"

definition dd_val :: "'v \<Rightarrow> ('k, 'v) dict \<Rightarrow> 'k \<Rightarrow> 'v" where
  "dd_val dflt d k = (case map_of d k of None \<Rightarrow> dflt | Some v \<Rightarrow> v)"

definition dd_upd :: "'v \<Rightarrow> 'k \<Rightarrow> ('v \<Rightarrow> 'v) \<Rightarrow> ('k, 'v) dict \<Rightarrow> ('k, 'v) dict" where
  "dd_upd dflt k g d = AList.update k (g (dd_val dflt d k)) d"

definition dict_keys :: "('k, 'v) dict \<Rightarrow> 'k list" where
  "dict_keys d = map fst d"

definition dict_values :: "('k, 'v) dict \<Rightarrow> 'v list" where
  "dict_values d = map snd d"

text \<open>Tables indexed \<open>[filename][line_no]\<close> and \<open>[filename][line_no][bytecode_index]\<close>.\<close>

type_synonym 'v table2 = "(string, (int, 'v) dict) dict"
type_synonym 'v table3 = "(string, (int, (int, 'v) dict) dict) dict"

definition t2_val :: "'v \<Rightarrow> 'v table2 \<Rightarrow> string \<Rightarrow> int \<Rightarrow> 'v" where
  "t2_val z t f l = dd_val z (dd_val [] t f) l"

definition t2_upd :: "'v \<Rightarrow> string \<Rightarrow> int \<Rightarrow> ('v \<Rightarrow> 'v) \<Rightarrow> 'v table2 \<Rightarrow> 'v table2" where
  "t2_upd z f l g t = dd_upd [] f (dd_upd z l g) t"

definition t3_val :: "'v \<Rightarrow> 'v table3 \<Rightarrow> string \<Rightarrow> int \<Rightarrow> int \<Rightarrow> 'v" where
  "t3_val z t f l b = dd_val z (dd_val [] (dd_val [] t f) l) b"

definition t3_upd :: "'v \<Rightarrow> string \<Rightarrow> int \<Rightarrow> int \<Rightarrow> ('v \<Rightarrow> 'v) \<Rightarrow> 'v table3 \<Rightarrow> 'v table3" where
  "t3_upd z f l b g t = dd_upd [] f (dd_upd [] l (dd_upd z b g)) t"

text \<open>The bytecode offsets that are keys of a three-level table at a file and line.\<close>

definition t3_offsets :: "'v table3 \<Rightarrow> string \<Rightarrow> int \<Rightarrow> int set" where
  "t3_offsets t f l = set (dict_keys (dd_val [] (dd_val [] t f) l))"

subsection \<open>Reservoir\<close>

text \<open>
  Modelled from the spec: the module \<open>reservoir\<close> that \<open>scalene.py\<close> imports is not among
  the sources. Section 4.1: a fixed capacity \<open>k\<close>; \<open>offer(item)\<close> stores the item while
  fewer than \<open>k\<close> have been offered, and otherwise, with probability \<open>k/n\<close> for the
  \<open>n\<close>-th offer, replaces a uniformly chosen stored item; \<open>snapshot()\<close> returns the
  current contents. The random draw is the argument \<open>r\<close>, and \<open>get\<close> hands out the stored
  list itself, so that sorting the result in place sorts the reservoir.
\<close>

record reservoir =
  capacity :: nat
  offered :: nat
  items :: "(rat \<times> rat) list"

definition new_reservoir :: "nat \<Rightarrow> reservoir" where
  "new_reservoir k = \<lparr>capacity = k, offered = 0, items = []\<rparr>"

definition reservoir_add :: "nat \<Rightarrow> rat \<times> rat \<Rightarrow> reservoir \<Rightarrow> reservoir" where
  "reservoir_add r x res =
     (let n = offered res + 1
      in if offered res < capacity res
         then res\<lparr>offered := n, items := items res @ [x]\<rparr>
         else let j = r mod n
              in if j < capacity res
                 then res\<lparr>offered := n, items := (items res)[j := x]\<rparr>
                 else res\<lparr>offered := n\<rparr>)"

definition reservoir_get :: "reservoir \<Rightarrow> (rat \<times> rat) list" where
  "reservoir_get res = items res"

subsection \<open>Frames and code objects\<close>

text \<open>
  A code object carries its file name and its instructions as \<open>dis.get_instructions\<close>
  lists them: offset and operation name (\<open>dis.opmap\<close> gives each name its own opcode, so
  \<open>ins.opcode in call_opcodes\<close> is \<open>ins.opname in call_functions\<close>). A frame has an
  identity, which is what \<open>frame == this_frame\<close> compares.
\<close>

record code =
  co_filename :: string
  co_instructions :: "(int \<times> string) list"

datatype frame =
  Frame (f_ident: nat) (f_code: code) (f_lineno: int) (f_lasti: int) (f_back: "frame option")

definition call_functions :: "string set" where
  "call_functions = {''CALL_FUNCTION'', ''CALL_FUNCTION_KW'', ''CALL_FUNCTION_EX''}"

fun is_call_function_loop :: "(int \<times> string) list \<Rightarrow> int \<Rightarrow> bool" where
  "is_call_function_loop [] bytei = False"
| "is_call_function_loop ((offset, opname) # inss) bytei =
     (if offset = bytei \<and> opname \<in> call_functions then True
      else is_call_function_loop inss bytei)"

definition is_call_function :: "code \<Rightarrow> int \<Rightarrow> bool" where
  "is_call_function c bytei = is_call_function_loop (co_instructions c) bytei"

subsection \<open>The profiler's state and its surroundings\<close>

text \<open>
  A line of a bridge file as \<open>float(count_str.rstrip())\<close> reads it: a number, or text that
  \<open>float\<close> rejects with \<open>ValueError\<close>.
\<close>

datatype bline = Count rat | Malformed

text \<open>
  What \<open>print\<close> writes, one value per line: literal text, or the format and its arguments
  (a cell is \<open>None\<close> where the source prints the empty string in its place).
\<close>

datatype outline =
    Text string
  | ExceptionText error
  | MemoryUsage ustring rat
  | FileHeader string rat rat
  | ColumnHeader1 bool
  | ColumnHeader2 bool string
  | MemRow int "rat option" "rat option" "rat option" ustring string
  | CpuRow int "rat option" "rat option" string
  | ExceptionReport error
  | Traceback error

text \<open>
  The class attributes of \<open>Scalene\<close>, followed by what the handlers reach outside the class:
  the bridge files under \<open>/tmp\<close>, the working directory, whether the signals are installed,
  the readings of \<open>time.process_time()\<close> and the random draws (each a sequence with the
  number of values consumed), the source files the report reads, standard output and the
  files written. \<open>memory_max_samples\<close> and \<open>total_max_samples\<close> are never used and are
  left out.
\<close>

record state =
  cpu_samples_python :: "rat table2"
  cpu_samples_c :: "rat table2"
  memory_malloc_samples :: "rat table3"
  memory_malloc_count :: "int table3"
  memory_free_samples :: "rat table3"
  memory_free_count :: "int table3"
  total_cpu_samples :: rat
  total_memory_malloc_samples :: rat
  total_memory_free_samples :: rat
  current_footprint :: rat
  max_footprint :: rat
  last_signal_interval :: rat
  last_signal_time :: rat
  memory_footprint_samples :: reservoir
  per_line_footprint_samples :: "reservoir table2"
  original_path :: string
  program_path :: string
  output_file :: "string option"
  output_profile_interval :: "rat option"
  next_output_time :: "rat option"
  elapsed_time :: rat
  bytei_map :: "(int list) table2"
  malloc_signal_filename :: string
  free_signal_filename :: string
  bridge_files :: "string \<Rightarrow> bline list option"
  cwd :: string
  signals_enabled :: bool
  time_source :: "nat \<Rightarrow> rat"
  time_reads :: nat
  random_source :: "nat \<Rightarrow> nat"
  random_reads :: nat
  source_files :: "string \<Rightarrow> string list option"
  stdout :: "outline list"
  written_files :: "string \<Rightarrow> outline list option"

subsection \<open>AllocationBridge and AllocationAttribution\<close>

text \<open>The body of the loop over the lines of a bridge file, once the line is parsed.\<close>

definition alloc_line :: "string \<Rightarrow> int \<Rightarrow> int \<Rightarrow> bool \<Rightarrow> rat \<Rightarrow> state \<Rightarrow> state" where
  "alloc_line fname line_no bytei is_malloc count st =
     (if is_malloc then
        let st1 = st\<lparr>memory_malloc_samples :=
                      t3_upd 0 fname line_no bytei (\<lambda>v. v + count) (memory_malloc_samples st)\<rparr>;
            st2 = st1\<lparr>total_memory_malloc_samples := total_memory_malloc_samples st1 + count\<rparr>;
            st3 = st2\<lparr>current_footprint := current_footprint st2 + count\<rparr>
        in if current_footprint st3 > max_footprint st3
           then st3\<lparr>max_footprint := current_footprint st3\<rparr>
           else st3
      else
        let st1 = st\<lparr>memory_free_samples :=
                      t3_upd 0 fname line_no bytei (\<lambda>v. v + count) (memory_free_samples st)\<rparr>;
            st2 = st1\<lparr>total_memory_free_samples := total_memory_free_samples st1 + count\<rparr>
        in st2\<lparr>current_footprint := current_footprint st2 - count\<rparr>)"

text \<open>
  The loop inside \<open>try\<close>: it ends at the end of the file, or at the first line \<open>float\<close>
  rejects, where the exception leaves the loop and the \<open>with\<close> block.
\<close>

fun drain_lines ::
  "string \<Rightarrow> int \<Rightarrow> int \<Rightarrow> bool \<Rightarrow> bline list \<Rightarrow> state \<Rightarrow> error option \<times> state" where
  "drain_lines fname line_no bytei is_malloc [] st = (None, st)"
| "drain_lines fname line_no bytei is_malloc (Malformed # ls) st = (Some ValueError, st)"
| "drain_lines fname line_no bytei is_malloc (Count v # ls) st =
     drain_lines fname line_no bytei is_malloc ls
       (alloc_line fname line_no bytei is_malloc (v / (1024 * 1024)) st)"

text \<open>
  \<open>samples = Scalene.memory_malloc_samples[fname][line_no]\<close> stores the defaults for the
  file and the line and names the inner dictionary, which nothing else writes during the
  call: \<open>samples[bytei] += count\<close> is the update at the full path. \<open>read_something\<close> is set
  before a line is parsed, so it holds exactly when the file has a line.
\<close>

definition alloc_handler_helper :: "string \<Rightarrow> int \<Rightarrow> int \<Rightarrow> bool \<Rightarrow> state \<Rightarrow> state" where
  "alloc_handler_helper fname line_no bytei is_malloc st =
     (let filename = (if is_malloc then malloc_signal_filename st else free_signal_filename st);
          st1 = (if is_malloc
                 then st\<lparr>memory_malloc_samples :=
                          t2_upd [] fname line_no id (memory_malloc_samples st)\<rparr>
                 else st\<lparr>memory_free_samples :=
                          t2_upd [] fname line_no id (memory_free_samples st)\<rparr>)
      in case bridge_files st1 filename of
           None \<Rightarrow> st1
         | Some ls \<Rightarrow>
             let (raised, st2) = drain_lines fname line_no bytei is_malloc ls st1;
                 st3 = (case raised of
                          None \<Rightarrow> st2\<lparr>bridge_files := (bridge_files st2)(filename := None)\<rparr>
                        | Some e \<Rightarrow> st2\<lparr>stdout := stdout st2 @ [ExceptionText e]\<rparr>);
                 read_something = (ls \<noteq> [])
             in if read_something then
                  (if is_malloc
                   then st3\<lparr>memory_malloc_count :=
                            t3_upd 0 fname line_no bytei (\<lambda>c. c + 1) (memory_malloc_count st3)\<rparr>
                   else st3\<lparr>memory_free_count :=
                            t3_upd 0 fname line_no bytei (\<lambda>c. c + 1) (memory_free_count st3)\<rparr>)
                else st3)"

definition allocation_handler :: "frame \<Rightarrow> state \<Rightarrow> error + state" where
  "allocation_handler frame st =
     (let fname = co_filename (f_code frame)
      in case should_trace (cwd st) (program_path st) fname of
           Inl e \<Rightarrow> Inl e
         | Inr False \<Rightarrow> Inr st
         | Inr True \<Rightarrow>
             let line_no = f_lineno frame;
                 bytei = f_lasti frame;
                 st1 = st\<lparr>bytei_map :=
                          t2_upd [] fname line_no
                            (\<lambda>s. if bytei \<in> set s then s else s @ [bytei]) (bytei_map st)\<rparr>;
                 st2 = alloc_handler_helper fname line_no bytei True st1
             in Inr (alloc_handler_helper fname line_no bytei False st2))"

definition malloc_event_signal_handler :: "frame \<Rightarrow> state \<Rightarrow> error + state" where
  "malloc_event_signal_handler frame st = allocation_handler frame st"

definition free_event_signal_handler :: "frame \<Rightarrow> state \<Rightarrow> error + state" where
  "free_event_signal_handler frame st = allocation_handler frame st"

subsection \<open>Timer, signals and working directory\<close>

definition gettime :: "state \<Rightarrow> rat \<times> state" where
  "gettime st = (time_source st (time_reads st), st\<lparr>time_reads := time_reads st + 1\<rparr>)"

text \<open>A value of \<open>random\<close> for the reservoir.\<close>

definition draw :: "state \<Rightarrow> nat \<times> state" where
  "draw st = (random_source st (random_reads st), st\<lparr>random_reads := random_reads st + 1\<rparr>)"

text \<open>\<open>os.chdir\<close> to a directory that exists.\<close>

definition chdir :: "string \<Rightarrow> state \<Rightarrow> state" where
  "chdir path st = st\<lparr>cwd := abspath (cwd st) path\<rparr>"

definition enable_signals :: "state \<Rightarrow> state" where
  "enable_signals st =
     (let st1 = st\<lparr>signals_enabled := True\<rparr>;
          (t, st2) = gettime st1
      in st2\<lparr>last_signal_time := t\<rparr>)"

definition disable_signals :: "state \<Rightarrow> state" where
  "disable_signals st = st\<lparr>signals_enabled := False\<rparr>"

definition start :: "state \<Rightarrow> state" where
  "start st =
     (let st1 = chdir (program_path st) st;
          st2 = enable_signals st1;
          (t, st3) = gettime st2
      in st3\<lparr>elapsed_time := t\<rparr>)"

definition stop :: "state \<Rightarrow> state" where
  "stop st =
     (let st1 = disable_signals st;
          (t, st2) = gettime st1;
          st3 = st2\<lparr>elapsed_time := t - elapsed_time st2\<rparr>
      in chdir (original_path st3) st3)"

subsection \<open>Reporter\<close>

text \<open>
  \<open>arr.sort()\<close> sorts the list it is given in place, so the sorted list is returned beside
  the result; the pairs \<open>[t, i]\<close> are ordered first by \<open>t\<close>, then by \<open>i\<close>.
\<close>

definition generate_sparkline ::
  "(rat \<times> rat) list \<Rightarrow> rat \<Rightarrow> rat \<Rightarrow> (rat \<times> rat) list \<times> (error + rat \<times> rat \<times> ustring)" where
  "generate_sparkline arr minimum maximum =
     (let iterations = length arr;
          arr' = sort arr;
          samples = map (\<lambda>(t, i). if i > 0 then i else 0) arr'
      in (arr', sparkline (take iterations samples) minimum maximum))"

text \<open>\<open>str.rstrip()\<close> on a line of ASCII text.\<close>

definition is_space :: "char \<Rightarrow> bool" where
  "is_space c = (c \<in> {CHR '' '', CHR 0x09, CHR 0x0A, CHR 0x0B, CHR 0x0C, CHR 0x0D,
                       CHR 0x1C, CHR 0x1D, CHR 0x1E, CHR 0x1F})"

definition rstrip :: "string \<Rightarrow> string" where
  "rstrip s = rev (dropWhile is_space (rev s))"

text \<open>The six accumulators of a source line, summed over the known offsets of the line.\<close>

record line_acc =
  n_malloc_mb :: rat
  n_free_mb :: rat
  n_avg_malloc_mb :: rat
  n_avg_free_mb :: rat
  n_malloc_count :: int
  n_free_count :: int

definition report_index :: "string \<Rightarrow> int \<Rightarrow> line_acc \<times> state \<Rightarrow> int \<Rightarrow> line_acc \<times> state" where
  "report_index fname line_no accst index =
     (let (acc, st) = accst;
          mallocs = t3_val 0 (memory_malloc_samples st) fname line_no index;
          st1 = st\<lparr>memory_malloc_samples :=
                    t3_upd 0 fname line_no index id (memory_malloc_samples st)\<rparr>;
          mcount = t3_val 0 (memory_malloc_count st1) fname line_no index;
          st2 = st1\<lparr>memory_malloc_count :=
                     t3_upd 0 fname line_no index id (memory_malloc_count st1)\<rparr>;
          acc1 = acc\<lparr>n_malloc_mb := n_malloc_mb acc + mallocs,
                     n_malloc_count := n_malloc_count acc + mcount,
                     n_avg_malloc_mb := (if mcount > 0
                                         then n_avg_malloc_mb acc + mallocs / of_int mcount
                                         else n_avg_malloc_mb acc)\<rparr>;
          frees = t3_val 0 (memory_free_samples st2) fname line_no index;
          st3 = st2\<lparr>memory_free_samples :=
                     t3_upd 0 fname line_no index id (memory_free_samples st2)\<rparr>;
          fcount = t3_val 0 (memory_free_count st3) fname line_no index;
          st4 = st3\<lparr>memory_free_count :=
                     t3_upd 0 fname line_no index id (memory_free_count st3)\<rparr>;
          acc2 = acc1\<lparr>n_free_mb := n_free_mb acc1 + frees,
                      n_free_count := n_free_count acc1 + fcount,
                      n_avg_free_mb := (if fcount > 0
                                        then n_avg_free_mb acc1 + frees / of_int fcount
                                        else n_avg_free_mb acc1)\<rparr>
      in (acc2, st4))"

text \<open>
  The body of the loop over the lines of a source file, in four parts: the CPU percentages
  of the line, its memory statistics, the sparkline of its footprint, and the printed row
  (or the exception that ends the report).
\<close>

definition line_cpu_percent :: "string \<Rightarrow> int \<Rightarrow> state \<Rightarrow> rat \<times> rat \<times> state" where
  "line_cpu_percent fname line_no st =
     (let n_cpu_samples_c = t2_val 0 (cpu_samples_c st) fname line_no;
          st1 = st\<lparr>cpu_samples_c := t2_upd 0 fname line_no id (cpu_samples_c st)\<rparr>;
          n_cpu_samples_c = (if n_cpu_samples_c < 0 then 0 else n_cpu_samples_c);
          n_cpu_samples_python = t2_val 0 (cpu_samples_python st1) fname line_no;
          st2 = st1\<lparr>cpu_samples_python := t2_upd 0 fname line_no id (cpu_samples_python st1)\<rparr>;
          n_cpu_percent_c = (if total_cpu_samples st2 \<noteq> 0
                             then n_cpu_samples_c * 100 / total_cpu_samples st2 else 0);
          n_cpu_percent_python = (if total_cpu_samples st2 \<noteq> 0
                                  then n_cpu_samples_python * 100 / total_cpu_samples st2 else 0)
      in (n_cpu_percent_python, n_cpu_percent_c, st2))"

definition line_memory_stats :: "string \<Rightarrow> int \<Rightarrow> state \<Rightarrow> line_acc \<times> state" where
  "line_memory_stats fname line_no st =
     (let indices = t2_val [] (bytei_map st) fname line_no;
          st1 = st\<lparr>bytei_map := t2_upd [] fname line_no id (bytei_map st)\<rparr>
      in foldl (report_index fname line_no)
           (\<lparr>n_malloc_mb = 0, n_free_mb = 0, n_avg_malloc_mb = 0,
             n_avg_free_mb = 0, n_malloc_count = 0, n_free_count = 0\<rparr>, st1) indices)"

definition line_spark_string :: "string \<Rightarrow> int \<Rightarrow> state \<Rightarrow> (error + ustring) \<times> state" where
  "line_spark_string fname line_no st =
     (let res = t2_val (new_reservoir 10) (per_line_footprint_samples st) fname line_no;
          st1 = st\<lparr>per_line_footprint_samples :=
                    t2_upd (new_reservoir 10) fname line_no id (per_line_footprint_samples st)\<rparr>
      in if length (reservoir_get res) > 0 then
           let (arr, r) = generate_sparkline (reservoir_get res) 0 (max_footprint st1);
               st2 = st1\<lparr>per_line_footprint_samples :=
                          t2_upd (new_reservoir 10) fname line_no (\<lambda>res. res\<lparr>items := arr\<rparr>)
                            (per_line_footprint_samples st1)\<rparr>
           in (case r of
                 Inl e \<Rightarrow> (Inl e, st2)
               | Inr (mn, mx, spark_string) \<Rightarrow> (Inr spark_string, st2))
         else (Inr [], st1))"

definition report_line ::
  "bool \<Rightarrow> string \<Rightarrow> int \<Rightarrow> string \<Rightarrow> state \<Rightarrow> error option \<times> outline list \<times> state" where
  "report_line did_sample_memory fname line_no line0 st =
     (let line = rstrip line0;
          (n_cpu_percent_python, n_cpu_percent_c, st1) = line_cpu_percent fname line_no st;
          (acc, st2) = line_memory_stats fname line_no st1;
          n_growth_mb = n_avg_malloc_mb acc - n_avg_free_mb acc;
          n_growth_mb = (if n_growth_mb < 0 \<and> n_growth_mb > - 1 then 0 else n_growth_mb);
          n_usage_mb = (if total_memory_malloc_samples st2 = 0 then 0
                        else n_malloc_mb acc / total_memory_malloc_samples st2);
          n_cpu_percent_c_str = (if n_cpu_percent_c = 0 then None else Some n_cpu_percent_c);
          n_cpu_percent_python_str =
            (if n_cpu_percent_python = 0 then None else Some n_cpu_percent_python);
          n_growth_mb_str = (if n_growth_mb = 0 \<and> n_usage_mb = 0 then None else Some n_growth_mb)
      in if did_sample_memory then
           (case line_spark_string fname line_no st2 of
              (Inl e, st3) \<Rightarrow> (Some e, [], st3)
            | (Inr spark_string, st3) \<Rightarrow>
                (None, [MemRow line_no n_cpu_percent_python_str n_cpu_percent_c_str
                          n_growth_mb_str spark_string line], st3))
         else (None, [CpuRow line_no n_cpu_percent_python_str n_cpu_percent_c_str line], st2))"

fun report_lines ::
  "bool \<Rightarrow> string \<Rightarrow> int \<Rightarrow> string list \<Rightarrow> state \<Rightarrow> error option \<times> outline list \<times> state" where
  "report_lines did fname line_no [] st = (None, [], st)"
| "report_lines did fname line_no (line # lines) st =
     (case report_line did fname line_no line st of
        (Some e, out, st') \<Rightarrow> (Some e, out, st')
      | (None, out, st') \<Rightarrow>
          (case report_lines did fname (line_no + 1) lines st' of
             (r, out', st'') \<Rightarrow> (r, out @ out', st'')))"

text \<open>The body of the loop over the instrumented files; \<open>open(fname, 'r')\<close> raises when the file is missing.\<close>

definition report_file ::
  "bool \<Rightarrow> string \<Rightarrow> state \<Rightarrow> error option \<times> outline list \<times> state" where
  "report_file did_sample_memory fname st =
     (let sum_c = sum_list (dict_values (dd_val [] (cpu_samples_c st) fname));
          st1 = st\<lparr>cpu_samples_c := dd_upd [] fname id (cpu_samples_c st)\<rparr>;
          sum_python = sum_list (dict_values (dd_val [] (cpu_samples_python st1) fname));
          st2 = st1\<lparr>cpu_samples_python := dd_upd [] fname id (cpu_samples_python st1)\<rparr>;
          this_cpu_samples = sum_c + sum_python;
          percent_cpu_time = (if total_cpu_samples st2 = 0 then 0
                              else 100 * this_cpu_samples / total_cpu_samples st2);
          header = [FileHeader fname percent_cpu_time (elapsed_time st2),
                    ColumnHeader1 did_sample_memory,
                    ColumnHeader2 did_sample_memory fname,
                    Text (replicate 80 CHR ''-'')]
      in case source_files st2 fname of
           None \<Rightarrow> (Some FileNotFoundError, header, st2)
         | Some lines \<Rightarrow>
             (case report_lines did_sample_memory fname 1 lines st2 of
                (Some e, out, st3) \<Rightarrow> (Some e, header @ out, st3)
              | (None, out, st3) \<Rightarrow> (None, header @ out @ [Text []], st3)))"

fun report_files ::
  "bool \<Rightarrow> string list \<Rightarrow> state \<Rightarrow> error option \<times> outline list \<times> state" where
  "report_files did [] st = (None, [], st)"
| "report_files did (fname # fnames) st =
     (case report_file did fname st of
        (Some e, out, st') \<Rightarrow> (Some e, out, st')
      | (None, out, st') \<Rightarrow>
          (case report_files did fnames st' of
             (r, out', st'') \<Rightarrow> (r, out @ out', st'')))"

text \<open>The summary line of the memory footprint, printed when memory was sampled.\<close>

definition report_memory_usage :: "bool \<Rightarrow> state \<Rightarrow> error option \<times> outline list \<times> state" where
  "report_memory_usage did_sample_memory st =
     (if did_sample_memory \<and> length (reservoir_get (memory_footprint_samples st)) > 0 then
        let (arr, r) = generate_sparkline (reservoir_get (memory_footprint_samples st)) 0
                         (max_footprint st);
            st1 = st\<lparr>memory_footprint_samples := (memory_footprint_samples st)\<lparr>items := arr\<rparr>\<rparr>
        in (case r of
              Inl e \<Rightarrow> (Some e, [], st1)
            | Inr (mn, mx, sp) \<Rightarrow> (None, [MemoryUsage sp mx], st1))
      else (None, [], st))"

text \<open>
  What \<open>output_profiles\<close> prints inside \<open>with Scalene.file_or_stdout(...) as out\<close>, with
  the exception that ends it if one is raised.
\<close>

definition all_instrumented_files :: "state \<Rightarrow> string list" where
  "all_instrumented_files st =
     remdups (dict_keys (cpu_samples_python st) @ dict_keys (cpu_samples_c st)
              @ dict_keys (memory_free_samples st) @ dict_keys (memory_malloc_samples st))"

definition report_body :: "state \<Rightarrow> error option \<times> outline list \<times> state" where
  "report_body st =
     (let did_sample_memory = (total_memory_free_samples st + total_memory_malloc_samples st > 0);
          files = all_instrumented_files st
      in case report_memory_usage did_sample_memory st of
           (Some e, out, st1) \<Rightarrow> (Some e, out, st1)
         | (None, out, st1) \<Rightarrow>
             (case report_files did_sample_memory (sort files) st1 of
                (r, out', st2) \<Rightarrow> (r, out @ out', st2)))"

text \<open>
  \<open>file_or_stdout\<close>: standard output when no file is named; otherwise the file is opened
  for writing, which empties it (and fails on the empty name), and holds what was printed
  when the block is left.
\<close>

definition output_profiles :: "state \<Rightarrow> (error + bool) \<times> state" where
  "output_profiles st =
     (if total_cpu_samples st = 0 \<and> total_memory_malloc_samples st = 0
         \<and> total_memory_free_samples st = 0
      then (Inr False, st)
      else
        (case output_file st of
           None \<Rightarrow>
             (case report_body st of
                (r, out, st1) \<Rightarrow>
                  (case r of Some e \<Rightarrow> Inl e | None \<Rightarrow> Inr True,
                   st1\<lparr>stdout := stdout st1 @ out\<rparr>))
         | Some file_name \<Rightarrow>
             if file_name = [] then (Inl FileNotFoundError, st)
             else
               (case report_body st of
                  (r, out, st1) \<Rightarrow>
                    (case r of Some e \<Rightarrow> Inl e | None \<Rightarrow> Inr True,
                     st1\<lparr>written_files := (written_files st1)(file_name := Some out)\<rparr>))))"

text \<open>
  The end of \<open>main\<close>, from \<open>profiler.stop()\<close> on, after the profiled program has run: the
  report, or the line that says there is none, or the report of an exception.
\<close>

definition main_report :: "state \<Rightarrow> state" where
  "main_report st =
     (let st1 = stop st
      in case output_profiles st1 of
           (Inr True, st2) \<Rightarrow> st2
         | (Inr False, st2) \<Rightarrow>
             st2\<lparr>stdout := stdout st2
                     @ [Text ''Scalene: Program did not run for long enough to profile.'']\<rparr>
         | (Inl e, st2) \<Rightarrow> st2\<lparr>stdout := stdout st2 @ [ExceptionReport e, Traceback e]\<rparr>)"

subsection \<open>Sampler: \<open>cpu_signal_handler\<close>\<close>

text \<open>\<open>round(x, 0)\<close> rounds a half to the even neighbour.\<close>

definition py_round :: "rat \<Rightarrow> rat" where
  "py_round x =
     (let f = \<lfloor>x\<rfloor>; d = x - of_int f
      in of_int (if d < 1 / 2 then f
                 else if d > 1 / 2 then f + 1
                 else if even f then f else f + 1))"

text \<open>
  The loop that keeps the frames to track. A frame without a file name is judged by the
  file name of \<open>frame.f_back\<close> (an \<open>AttributeError\<close> when there is no outer frame); an
  exception of \<open>should_trace\<close> ends the handler.
\<close>

fun retained_frames :: "string \<Rightarrow> string \<Rightarrow> frame option list \<Rightarrow> error + frame list" where
  "retained_frames wd ppath [] = Inr []"
| "retained_frames wd ppath (None # frames) = retained_frames wd ppath frames"
| "retained_frames wd ppath (Some frame # frames) =
     (let fname = co_filename (f_code frame)
      in case (if length fname = 0
               then (case f_back frame of
                       None \<Rightarrow> Inl AttributeError
                     | Some outer \<Rightarrow> Inr (co_filename (f_code outer)))
               else Inr fname) of
           Inl e \<Rightarrow> Inl e
         | Inr fname' \<Rightarrow>
             (case should_trace wd ppath fname' of
                Inl e \<Rightarrow> Inl e
              | Inr False \<Rightarrow> retained_frames wd ppath frames
              | Inr True \<Rightarrow>
                  (case retained_frames wd ppath frames of
                     Inl e \<Rightarrow> Inl e
                   | Inr new_frames \<Rightarrow> Inr (frame # new_frames))))"

text \<open>One offer to the per-line reservoir, for one known offset of the frame's line.\<close>

definition offer_growth :: "string \<Rightarrow> int \<Rightarrow> state \<Rightarrow> int \<Rightarrow> state" where
  "offer_growth fname line_no st index =
     (let growth = t3_val 0 (memory_malloc_samples st) fname line_no index
                   - t3_val 0 (memory_free_samples st) fname line_no index;
          st1 = st\<lparr>memory_malloc_samples :=
                    t3_upd 0 fname line_no index id (memory_malloc_samples st),
                  memory_free_samples :=
                    t3_upd 0 fname line_no index id (memory_free_samples st)\<rparr>;
          (r, st2) = draw st1
      in st2\<lparr>per_line_footprint_samples :=
               t2_upd (new_reservoir 10) fname line_no
                 (reservoir_add r (total_cpu_samples st2, growth))
                 (per_line_footprint_samples st2)\<rparr>)"

text \<open>The body of the loop over the retained frames; \<open>n\<close> is \<open>len(new_frames)\<close>.\<close>

definition attribute_frame :: "frame \<Rightarrow> nat \<Rightarrow> rat \<Rightarrow> rat \<Rightarrow> state \<Rightarrow> frame \<Rightarrow> state" where
  "attribute_frame this_frame n python_time c_time st frame =
     (let fname = co_filename (f_code frame);
          line_no = f_lineno frame;
          total_time = python_time + c_time;
          st1 =
            (if f_ident frame = f_ident this_frame then
               let st' = st\<lparr>cpu_samples_python :=
                              t2_upd 0 fname line_no (\<lambda>v. v + python_time / of_nat n)
                                (cpu_samples_python st)\<rparr>
               in st'\<lparr>cpu_samples_c :=
                        t2_upd 0 fname line_no (\<lambda>v. v + c_time / of_nat n) (cpu_samples_c st')\<rparr>
             else if is_call_function (f_code frame) (f_lasti frame) then
               st\<lparr>cpu_samples_c :=
                    t2_upd 0 fname line_no (\<lambda>v. v + total_time / of_nat n) (cpu_samples_c st)\<rparr>
             else
               st\<lparr>cpu_samples_python :=
                    t2_upd 0 fname line_no (\<lambda>v. v + total_time / of_nat n)
                      (cpu_samples_python st)\<rparr>);
          indices = t2_val [] (bytei_map st1) fname line_no;
          st2 = st1\<lparr>bytei_map := t2_upd [] fname line_no id (bytei_map st1)\<rparr>
      in foldl (offer_growth fname line_no) st2 indices)"

definition offer_footprint :: "rat \<Rightarrow> state \<Rightarrow> state" where
  "offer_footprint now st =
     (let (r, st1) = draw st
      in st1\<lparr>memory_footprint_samples :=
               reservoir_add r (now, current_footprint st1) (memory_footprint_samples st1)\<rparr>)"

text \<open>The handler from \<open>elapsed = now - Scalene.last_signal_time\<close> to its end.\<close>

definition cpu_attribution ::
  "rat \<Rightarrow> frame \<Rightarrow> frame option list \<Rightarrow> state \<Rightarrow> error option \<times> state" where
  "cpu_attribution now this_frame thread_frames st =
     (let elapsed = now - last_signal_time st;
          python_time = last_signal_interval st;
          c_time = elapsed - python_time;
          c_time = (if c_time < 0 then 0 else c_time);
          frames = Some this_frame # thread_frames
      in case retained_frames (cwd st) (program_path st) frames of
           Inl e \<Rightarrow> (Some e, st)
         | Inr new_frames \<Rightarrow>
             let total_time = python_time + c_time;
                 st1 = foldl (attribute_frame this_frame (length new_frames) python_time c_time)
                         st new_frames;
                 st2 = st1\<lparr>total_cpu_samples := total_cpu_samples st1 + total_time\<rparr>
             in if last_signal_interval st2 = 0 then (Some ZeroDivisionError, st2)
                else
                  let total_samples_to_record =
                        py_int (py_round (elapsed / last_signal_interval st2));
                      st3 = ((offer_footprint now) ^^ nat total_samples_to_record) st2;
                      (t, st4) = gettime st3
                  in (None, st4\<lparr>last_signal_time := t\<rparr>))"

text \<open>The periodic report at the head of the handler, when \<open>now >= Scalene.next_output_time\<close>.\<close>

definition periodic_output :: "state \<Rightarrow> error option \<times> state" where
  "periodic_output st =
     (let st1 = st\<lparr>next_output_time :=
                    (case (next_output_time st, output_profile_interval st) of
                       (Some t, Some d) \<Rightarrow> Some (t + d)
                     | _ \<Rightarrow> None)\<rparr>;
          st2 = stop st1
      in case output_profiles st2 of
           (Inl e, st3) \<Rightarrow> (Some e, st3)
         | (Inr _, st3) \<Rightarrow> (None, start st3))"

text \<open>
  \<open>this_frame\<close> is the signalled frame; \<open>thread_frames\<close> is what
  \<open>[sys._current_frames().get(t.ident, None) for t in threading.enumerate()]\<close> gives.
\<close>

definition cpu_signal_handler ::
  "frame \<Rightarrow> frame option list \<Rightarrow> state \<Rightarrow> error option \<times> state" where
  "cpu_signal_handler this_frame thread_frames st =
     (let (now, st0) = gettime st
      in case (if (case next_output_time st0 of None \<Rightarrow> False | Some t \<Rightarrow> now \<ge> t)
               then periodic_output st0 else (None, st0)) of
           (Some e, st1) \<Rightarrow> (Some e, st1)
         | (None, st1) \<Rightarrow> cpu_attribution now this_frame thread_frames st1)"

subsection \<open>Sequences of deliveries\<close>

text \<open>
  Modelled from the spec: the sampling allocator (\<open>libscalene\<close>, \<open>include/sampleheap.hpp\<close>)
  is not among the sources. Section 6: it appends lines to the bridge file of the kind,
  creating the file when it is absent, before it raises the signal.
\<close>

definition allocator_appends :: "bool \<Rightarrow> bline list \<Rightarrow> state \<Rightarrow> state" where
  "allocator_appends is_malloc ls st =
     (let filename = (if is_malloc then malloc_signal_filename st else free_signal_filename st)
      in st\<lparr>bridge_files := (bridge_files st)(filename :=
               Some ((case bridge_files st filename of None \<Rightarrow> [] | Some old \<Rightarrow> old) @ ls))\<rparr>)"

text \<open>
  What happens to the profiler between two moments at rest: the allocator writes, or one
  of the three signals is delivered and its handler runs to its end or to an exception,
  which leaves the state as the handler had it by then.
\<close>

datatype event =
    AllocatorWrites bool "bline list"
  | MallocSignal frame
  | FreeSignal frame
  | CpuSignal frame "frame option list"

fun deliver :: "state \<Rightarrow> event \<Rightarrow> state" where
  "deliver st (AllocatorWrites is_malloc ls) = allocator_appends is_malloc ls st"
| "deliver st (MallocSignal frame) =
     (case malloc_event_signal_handler frame st of Inl e \<Rightarrow> st | Inr st' \<Rightarrow> st')"
| "deliver st (FreeSignal frame) =
     (case free_event_signal_handler frame st of Inl e \<Rightarrow> st | Inr st' \<Rightarrow> st')"
| "deliver st (CpuSignal this_frame thread_frames) =
     snd (cpu_signal_handler this_frame thread_frames st)"

definition run :: "event list \<Rightarrow> state \<Rightarrow> state" where
  "run evs st = foldl deliver st evs"

text \<open>
  The class attributes as the class body sets them, with nothing around the profiler;
  \<open>last_signal_time\<close>, which \<open>enable_signals\<close> sets before the first tick, starts at 0.
\<close>

definition initial_state :: state where
  "initial_state =
     \<lparr>cpu_samples_python = [], cpu_samples_c = [],
      memory_malloc_samples = [], memory_malloc_count = [],
      memory_free_samples = [], memory_free_count = [],
      total_cpu_samples = 0, total_memory_malloc_samples = 0, total_memory_free_samples = 0,
      current_footprint = 0, max_footprint = 0,
      last_signal_interval = 1 / 100, last_signal_time = 0,
      memory_footprint_samples = new_reservoir 47, per_line_footprint_samples = [],
      original_path = [], program_path = [], output_file = Some [],
      output_profile_interval = None, next_output_time = None, elapsed_time = 0,
      bytei_map = [],
      malloc_signal_filename = ''/tmp/scalene-malloc-signal'',
      free_signal_filename = ''/tmp/scalene-free-signal'',
      bridge_files = (\<lambda>_. None), cwd = ''/'', signals_enabled = False,
      time_source = (\<lambda>_. 0), time_reads = 0, random_source = (\<lambda>_. 0), random_reads = 0,
      source_files = (\<lambda>_. None), stdout = [], written_files = (\<lambda>_. None)\<rparr>"

subsection \<open>Notions used to state the properties\<close>

text \<open>The numbers of a bridge file in megabytes, summed.\<close>

definition megabytes :: "rat list \<Rightarrow> rat" where
  "megabytes vs = sum_list (map (\<lambda>v. v / (1024 * 1024)) vs)"

text \<open>The loop of \<open>alloc_handler_helper\<close> over lines that all parse.\<close>

definition accumulate :: "string \<Rightarrow> int \<Rightarrow> int \<Rightarrow> bool \<Rightarrow> rat list \<Rightarrow> state \<Rightarrow> state" where
  "accumulate f l b m vs st = foldl (\<lambda>s v. alloc_line f l b m (v / (1024 * 1024)) s) st vs"

text \<open>
  Every counter reads the same in both states: the per-site sums and counts, the per-line
  CPU times, the totals and the footprint.
\<close>

definition counters_unchanged :: "state \<Rightarrow> state \<Rightarrow> bool" where
  "counters_unchanged st st' =
     ((\<forall>f l b. t3_val 0 (memory_malloc_samples st') f l b = t3_val 0 (memory_malloc_samples st) f l b
             \<and> t3_val 0 (memory_free_samples st') f l b = t3_val 0 (memory_free_samples st) f l b
             \<and> t3_val 0 (memory_malloc_count st') f l b = t3_val 0 (memory_malloc_count st) f l b
             \<and> t3_val 0 (memory_free_count st') f l b = t3_val 0 (memory_free_count st) f l b)
      \<and> (\<forall>f l. t2_val 0 (cpu_samples_python st') f l = t2_val 0 (cpu_samples_python st) f l
             \<and> t2_val 0 (cpu_samples_c st') f l = t2_val 0 (cpu_samples_c st) f l)
      \<and> total_cpu_samples st' = total_cpu_samples st
      \<and> total_memory_malloc_samples st' = total_memory_malloc_samples st
      \<and> total_memory_free_samples st' = total_memory_free_samples st
      \<and> current_footprint st' = current_footprint st
      \<and> max_footprint st' = max_footprint st)"

text \<open>
  The second state reads as the first on the allocation side: the totals, the footprint and
  its peak, the bridge files, the known offsets and every per-site sum and count are the
  same, and an offset that has become a key of the malloc or free table was a known
  offset of its file and line.
\<close>

definition alloc_quiet :: "state \<Rightarrow> state \<Rightarrow> bool" where
  "alloc_quiet st st' =
     (total_memory_malloc_samples st' = total_memory_malloc_samples st
      \<and> total_memory_free_samples st' = total_memory_free_samples st
      \<and> current_footprint st' = current_footprint st
      \<and> max_footprint st' = max_footprint st
      \<and> bridge_files st' = bridge_files st
      \<and> malloc_signal_filename st' = malloc_signal_filename st
      \<and> free_signal_filename st' = free_signal_filename st
      \<and> (\<forall>f l. t2_val [] (bytei_map st') f l = t2_val [] (bytei_map st) f l)
      \<and> (\<forall>f l b. t3_val 0 (memory_malloc_samples st') f l b = t3_val 0 (memory_malloc_samples st) f l b
              \<and> t3_val 0 (memory_free_samples st') f l b = t3_val 0 (memory_free_samples st) f l b
              \<and> t3_val 0 (memory_malloc_count st') f l b = t3_val 0 (memory_malloc_count st) f l b
              \<and> t3_val 0 (memory_free_count st') f l b = t3_val 0 (memory_free_count st) f l b)
      \<and> (\<forall>f l. t3_offsets (memory_malloc_samples st') f l
                  \<subseteq> t3_offsets (memory_malloc_samples st) f l \<union> set (t2_val [] (bytei_map st) f l))
      \<and> (\<forall>f l. t3_offsets (memory_free_samples st') f l
                  \<subseteq> t3_offsets (memory_free_samples st) f l \<union> set (t2_val [] (bytei_map st) f l)))"

text \<open>
  Every offset that is a key of the malloc or of the free table at a file and line is a
  known offset of that file and line.
\<close>

definition known_offsets_inv :: "state \<Rightarrow> bool" where
  "known_offsets_inv st =
     (\<forall>f l. t3_offsets (memory_malloc_samples st) f l \<union> t3_offsets (memory_free_samples st) f l
             \<subseteq> set (t2_val [] (bytei_map st) f l))"

text \<open>
  The numbers in a bridge file are byte counts: none is negative. \<open>bridge_ok\<close> says so of
  the files that exist, \<open>event_ok\<close> of what the allocator writes.
\<close>

definition byte_counts_ok :: "bline list \<Rightarrow> bool" where
  "byte_counts_ok ls = list_all (\<lambda>l. case l of Count v \<Rightarrow> 0 \<le> v | Malformed \<Rightarrow> True) ls"

definition bridge_ok :: "state \<Rightarrow> bool" where
  "bridge_ok st = (\<forall>name ls. bridge_files st name = Some ls \<longrightarrow> byte_counts_ok ls)"

definition event_ok :: "event \<Rightarrow> bool" where
  "event_ok ev = (case ev of AllocatorWrites is_malloc ls \<Rightarrow> byte_counts_ok ls | _ \<Rightarrow> True)"

text \<open>
  The values \<open>current_footprint\<close> takes over time: one after each line that the loop of
  \<open>alloc_handler_helper\<close> accumulates, in the order of the loop, of the two calls in
  \<open>allocation_handler\<close> and of the deliveries.
\<close>

fun drain_footprints :: "string \<Rightarrow> int \<Rightarrow> int \<Rightarrow> bool \<Rightarrow> bline list \<Rightarrow> state \<Rightarrow> rat list" where
  "drain_footprints fname line_no bytei is_malloc [] st = []"
| "drain_footprints fname line_no bytei is_malloc (Malformed # ls) st = []"
| "drain_footprints fname line_no bytei is_malloc (Count v # ls) st =
     (let st' = alloc_line fname line_no bytei is_malloc (v / (1024 * 1024)) st
      in current_footprint st' # drain_footprints fname line_no bytei is_malloc ls st')"

definition helper_footprints :: "string \<Rightarrow> int \<Rightarrow> int \<Rightarrow> bool \<Rightarrow> state \<Rightarrow> rat list" where
  "helper_footprints fname line_no bytei is_malloc st =
     (let filename = (if is_malloc then malloc_signal_filename st else free_signal_filename st);
          st1 = (if is_malloc
                 then st\<lparr>memory_malloc_samples :=
                          t2_upd [] fname line_no id (memory_malloc_samples st)\<rparr>
                 else st\<lparr>memory_free_samples :=
                          t2_upd [] fname line_no id (memory_free_samples st)\<rparr>)
      in case bridge_files st1 filename of
           None \<Rightarrow> []
         | Some ls \<Rightarrow> drain_footprints fname line_no bytei is_malloc ls st1)"

definition handler_footprints :: "frame \<Rightarrow> state \<Rightarrow> rat list" where
  "handler_footprints frame st =
     (let fname = co_filename (f_code frame)
      in case should_trace (cwd st) (program_path st) fname of
           Inl e \<Rightarrow> []
         | Inr False \<Rightarrow> []
         | Inr True \<Rightarrow>
             let line_no = f_lineno frame;
                 bytei = f_lasti frame;
                 st1 = st\<lparr>bytei_map :=
                          t2_upd [] fname line_no
                            (\<lambda>s. if bytei \<in> set s then s else s @ [bytei]) (bytei_map st)\<rparr>;
                 st2 = alloc_handler_helper fname line_no bytei True st1
             in helper_footprints fname line_no bytei True st1
                @ helper_footprints fname line_no bytei False st2)"

text \<open>The footprint is the difference of the two totals and does not exceed the peak.\<close>

definition fp_inv :: "state \<Rightarrow> bool" where
  "fp_inv st = (current_footprint st = total_memory_malloc_samples st - total_memory_free_samples st
                \<and> current_footprint st \<le> max_footprint st)"

fun event_footprints :: "state \<Rightarrow> event \<Rightarrow> rat list" where
  "event_footprints st (MallocSignal frame) = handler_footprints frame st"
| "event_footprints st (FreeSignal frame) = handler_footprints frame st"
| "event_footprints st (AllocatorWrites is_malloc ls) = []"
| "event_footprints st (CpuSignal this_frame thread_frames) = []"

fun run_footprints :: "event list \<Rightarrow> state \<Rightarrow> rat list" where
  "run_footprints [] st = []"
| "run_footprints (ev # evs) st = event_footprints st ev @ run_footprints evs (deliver st ev)"




text \<open>
  What a report reads of the state: the scalars, the source files, the set of instrumented
  files, and the tables through the values an index returns (the default where the key is
  missing), the sum of the values of a file in the CPU tables, and the reservoirs through
  their contents in sorted order.
\<close>

record report_view =
  rv_total_cpu :: rat
  rv_total_malloc :: rat
  rv_total_free :: rat
  rv_max_footprint :: rat
  rv_elapsed :: rat
  rv_sources :: "string \<Rightarrow> string list option"
  rv_files :: "string set"
  rv_sum_c :: "string \<Rightarrow> rat"
  rv_sum_python :: "string \<Rightarrow> rat"
  rv_cpu_c :: "string \<Rightarrow> int \<Rightarrow> rat"
  rv_cpu_python :: "string \<Rightarrow> int \<Rightarrow> rat"
  rv_offsets :: "string \<Rightarrow> int \<Rightarrow> int list"
  rv_malloc :: "string \<Rightarrow> int \<Rightarrow> int \<Rightarrow> rat"
  rv_malloc_count :: "string \<Rightarrow> int \<Rightarrow> int \<Rightarrow> int"
  rv_free :: "string \<Rightarrow> int \<Rightarrow> int \<Rightarrow> rat"
  rv_free_count :: "string \<Rightarrow> int \<Rightarrow> int \<Rightarrow> int"
  rv_line_samples :: "string \<Rightarrow> int \<Rightarrow> (rat \<times> rat) list"
  rv_footprint_samples :: "(rat \<times> rat) list"

definition view_of :: "state \<Rightarrow> report_view" where
  "view_of st =
     \<lparr>rv_total_cpu = total_cpu_samples st,
      rv_total_malloc = total_memory_malloc_samples st,
      rv_total_free = total_memory_free_samples st,
      rv_max_footprint = max_footprint st,
      rv_elapsed = elapsed_time st,
      rv_sources = source_files st,
      rv_files = set (all_instrumented_files st),
      rv_sum_c = (\<lambda>f. sum_list (dict_values (dd_val [] (cpu_samples_c st) f))),
      rv_sum_python = (\<lambda>f. sum_list (dict_values (dd_val [] (cpu_samples_python st) f))),
      rv_cpu_c = t2_val 0 (cpu_samples_c st),
      rv_cpu_python = t2_val 0 (cpu_samples_python st),
      rv_offsets = t2_val [] (bytei_map st),
      rv_malloc = t3_val 0 (memory_malloc_samples st),
      rv_malloc_count = t3_val 0 (memory_malloc_count st),
      rv_free = t3_val 0 (memory_free_samples st),
      rv_free_count = t3_val 0 (memory_free_count st),
      rv_line_samples =
        (\<lambda>f l. sort (items (t2_val (new_reservoir 10) (per_line_footprint_samples st) f l))),
      rv_footprint_samples = sort (items (memory_footprint_samples st))\<rparr>"

text \<open>Where a report goes: standard output, the files written, and the name of the output file.\<close>

definition out_channels ::
  "state \<Rightarrow> outline list \<times> (string \<Rightarrow> outline list option) \<times> string option" where
  "out_channels st = (stdout st, written_files st, output_file st)"


definition cpu_counts_unchanged :: "state \<Rightarrow> state \<Rightarrow> bool" where
  "cpu_counts_unchanged st st' =
     ((\<forall>f l. t2_val 0 (cpu_samples_python st') f l = t2_val 0 (cpu_samples_python st) f l
             \<and> t2_val 0 (cpu_samples_c st') f l = t2_val 0 (cpu_samples_c st) f l)
      \<and> total_cpu_samples st' = total_cpu_samples st)"


subsection \<open>Concrete inputs\<close>

text \<open>
  A program in \<open>/p\<close>, a code object of its file \<open>/p/a.py\<close>, a state with samples of
  a two-line file \<open>a.py\<close> whose reservoirs are not in sorted order, and the peak
  scenario of the specification (section 8, scenario 4): 100 MB allocated, 40 MB freed,
  20 MB allocated.
\<close>

definition profiled_state :: state where
  "profiled_state = initial_state\<lparr>program_path := ''/p'', cwd := ''/p''\<rparr>"

definition traced_code :: code where
  "traced_code =
     \<lparr>co_filename = ''/p/a.py'',
      co_instructions = [(0, ''LOAD_NAME''), (2, ''CALL_FUNCTION''), (4, ''POP_TOP'')]\<rparr>"

definition reported_state :: state where
  "reported_state =
     initial_state
       \<lparr>output_file := None, total_cpu_samples := 2, total_memory_malloc_samples := 3,
        max_footprint := 3,
        bytei_map := [(''a.py'', [(2, [10])])],
        memory_malloc_samples := [(''a.py'', [(2, [(10, 3)])])],
        memory_malloc_count := [(''a.py'', [(2, [(10, 2)])])],
        per_line_footprint_samples :=
          [(''a.py'', [(2, \<lparr>capacity = 10, offered = 2, items = [(2, 3), (1, 1)]\<rparr>)])],
        memory_footprint_samples := \<lparr>capacity = 47, offered = 2, items = [(2, 3), (1, 1)]\<rparr>,
        cpu_samples_python := [(''a.py'', [(2, 3 / 2)])],
        cpu_samples_c := [(''a.py'', [(1, 1 / 2)])],
        source_files := (\<lambda>_. None)(''a.py'' \<mapsto> [''x = 1  '', ''y = 2''])\<rparr>"




definition peak_scenario :: "event list" where
  "peak_scenario =
     [AllocatorWrites True [Count 104857600], MallocSignal (Frame 1 traced_code 3 10 None),
      AllocatorWrites False [Count 41943040], FreeSignal (Frame 1 traced_code 4 20 None),
      AllocatorWrites True [Count 20971520], MallocSignal (Frame 1 traced_code 5 30 None)]"

section \<open>Properties\<close>

subsection \<open>FileFilter\<close>

text \<open>
  C3 (the code departs from the claim). The claim: after the four exclusions,
  \<open>should_trace(p)\<close> is true if and only if the absolute form of \<open>p\<close> is a descendant of
  \<open>program_path\<close>; the comment in the source says the same ("anything in the program's
  directory or a child directory, but nothing else"). The code tests whether
  \<open>program_path\<close> occurs in the absolute path as a substring: with the program in
  \<open>/home/u/proj\<close>, a file of the sibling directory \<open>/home/u/proj2\<close> is traced although it
  is not a descendant of \<open>/home/u/proj\<close>.
\<close>

theorem should_trace_sibling_directory:
  "should_trace ''/home/u/proj'' ''/home/u/proj'' ''/home/u/proj2/x.py'' = Inr True
   \<and> \<not> descendant_of ''/home/u/proj'' (abspath ''/home/u/proj'' ''/home/u/proj2/x.py'')"
  by (simp add: should_trace_def descendant_of_def abspath_def normpath_def norm_step_def
        path_join_def)

subsection \<open>Sparkline\<close>

lemma bar_at_nonneg: "0 \<le> i \<Longrightarrow> bar_at (min (barcount - 1) i) = Inr (bar ! nat (min 7 i))"
  by (auto simp: bar_at_def barcount_def bar_def min_def)

lemma bar_nth_in: "0 \<le> i \<Longrightarrow> bar ! nat (min 7 i) \<in> set bar"
  by (rule nth_mem) (auto simp: bar_def min_def)

lemma spark_chars_ok:
  assumes "0 < extent" and "\<forall>n \<in> set ns. mn \<le> n"
  shows "spark_chars mn extent ns
         = Inr (map (\<lambda>n. bar ! nat (min 7 \<lfloor>(n - mn) / extent * 8\<rfloor>)) ns)"
  using assms
proof (induction ns)
  case Nil
  then show ?case by simp
next
  case (Cons n ns)
  have nn: "0 \<le> (n - mn) / extent * 8" using Cons.prems by simp
  have bc: "of_int barcount = (8::rat)" by (simp add: barcount_def bar_def)
  have "py_int ((n - mn) / extent * of_int barcount) = \<lfloor>(n - mn) / extent * 8\<rfloor>"
    using nn by (simp add: py_int_def bc)
  moreover have "0 \<le> \<lfloor>(n - mn) / extent * 8\<rfloor>" using nn by simp
  ultimately show ?case using Cons by (simp add: bar_at_nonneg)
qed

lemma fold_min_le: "fold min xs (x::rat) \<le> x \<and> (\<forall>y \<in> set xs. fold min xs x \<le> y)"
proof (induction xs arbitrary: x)
  case Nil then show ?case by simp
next
  case (Cons a xs)
  have 1: "fold min xs (min a x) \<le> min a x" using Cons by blast
  show ?case using Cons[of "min a x"] 1 by auto
qed

lemma fold_max_ge: "x \<le> fold max xs (x::rat) \<and> (\<forall>y \<in> set xs. y \<le> fold max xs x)"
proof (induction xs arbitrary: x)
  case Nil then show ?case by simp
next
  case (Cons a xs)
  have 1: "max a x \<le> fold max xs (max a x)" using Cons by blast
  show ?case using Cons[of "max a x"] 1 by auto
qed

text \<open>
  C4 (amended). With each bound equal to \<open>-1\<close> replaced by the minimum or maximum of the
  data: on the empty sequence with such a bound \<open>sparkline\<close> raises \<open>ValueError\<close>; on a
  sequence that is non-empty or has both bounds given, with \<open>min \<le> max\<close> and no element
  below \<open>min\<close>, it returns \<open>(min, max, s)\<close> where \<open>s\<close> has one character per element,
  every character is one of the eight bars, and the element \<open>n\<close> has the bar at index
  \<open>clamp(\<lfloor>(n - min)/extent \<cdot> 8\<rfloor>, 0, 7)\<close> with \<open>extent = max - min\<close>, or \<open>1\<close> when
  \<open>max = min\<close>.
\<close>

theorem sparkline_bars:
  fixes numbers :: "rat list" and fixed_min fixed_max :: rat
  defines "mn \<equiv> (if fixed_min = - 1 then fold min (tl numbers) (hd numbers) else fixed_min)"
      and "mx \<equiv> (if fixed_max = - 1 then fold max (tl numbers) (hd numbers) else fixed_max)"
  defines "extent \<equiv> (if mx = mn then 1 else mx - mn)"
  shows "(numbers = [] \<and> (fixed_min = - 1 \<or> fixed_max = - 1)
            \<longrightarrow> sparkline numbers fixed_min fixed_max = Inl ValueError)
       \<and> ((numbers \<noteq> [] \<or> (fixed_min \<noteq> - 1 \<and> fixed_max \<noteq> - 1))
            \<and> mn \<le> mx \<and> (\<forall>n \<in> set numbers. mn \<le> n)
            \<longrightarrow> (\<exists>s. sparkline numbers fixed_min fixed_max = Inr (mn, mx, s)
                  \<and> length s = length numbers
                  \<and> set s \<subseteq> set bar
                  \<and> (\<forall>i < length numbers.
                        s ! i = bar ! nat (max 0 (min 7 \<lfloor>(numbers ! i - mn) / extent * 8\<rfloor>)))))"
proof (intro conjI impI)
  assume "numbers = [] \<and> (fixed_min = - 1 \<or> fixed_max = - 1)"
  then show "sparkline numbers fixed_min fixed_max = Inl ValueError"
    by (auto simp: sparkline_def)
next
  assume a: "(numbers \<noteq> [] \<or> (fixed_min \<noteq> - 1 \<and> fixed_max \<noteq> - 1))
             \<and> mn \<le> mx \<and> (\<forall>n \<in> set numbers. mn \<le> n)"
  have pmin: "(if fixed_min = - 1 then py_min numbers else Inr fixed_min) = Inr mn"
    using a by (cases numbers) (auto simp: mn_def)
  have pmax: "(if fixed_max = - 1 then py_max numbers else Inr fixed_max) = Inr mx"
    using a by (cases numbers) (auto simp: mx_def)
  have ext: "0 < extent" using a by (auto simp: extent_def)
  have ext2: "(if mx - mn = 0 then 1 else mx - mn) = extent"
    by (simp add: extent_def)
  let ?s = "map (\<lambda>n. bar ! nat (min 7 \<lfloor>(n - mn) / extent * 8\<rfloor>)) numbers"
  have sc: "spark_chars mn extent numbers = Inr ?s"
    using spark_chars_ok[OF ext] a by blast
  have res: "sparkline numbers fixed_min fixed_max = Inr (mn, mx, ?s)"
    by (simp only: sparkline_def pmin pmax Let_def sum.case ext2 sc)
  have nonneg: "0 \<le> \<lfloor>(n - mn) / extent * 8\<rfloor>" if "n \<in> set numbers" for n
    using a ext that by simp
  have sub: "set ?s \<subseteq> set bar"
    using nonneg bar_nth_in by auto
  have idx: "\<forall>i < length numbers.
      ?s ! i = bar ! nat (max 0 (min 7 \<lfloor>(numbers ! i - mn) / extent * 8\<rfloor>))"
  proof (intro allI impI)
    fix i assume i: "i < length numbers"
    have "0 \<le> \<lfloor>(numbers ! i - mn) / extent * 8\<rfloor>" using nonneg i nth_mem by blast
    then have "max 0 (min 7 \<lfloor>(numbers ! i - mn) / extent * 8\<rfloor>) = min 7 \<lfloor>(numbers ! i - mn) / extent * 8\<rfloor>"
      by simp
    then show "?s ! i = bar ! nat (max 0 (min 7 \<lfloor>(numbers ! i - mn) / extent * 8\<rfloor>))"
      using i by simp
  qed
  show "\<exists>s. sparkline numbers fixed_min fixed_max = Inr (mn, mx, s)
                  \<and> length s = length numbers
                  \<and> set s \<subseteq> set bar
                  \<and> (\<forall>i < length numbers.
                        s ! i = bar ! nat (max 0 (min 7 \<lfloor>(numbers ! i - mn) / extent * 8\<rfloor>)))"
    using res sub idx by (intro exI[of _ ?s]) simp
qed

theorem sparkline_bars_witness:
  "sparkline [] (- 1) (- 1) = Inl ValueError
   \<and> (\<exists>s. sparkline [0, 1 / 2, 3] (- 1) 2 = Inr (0, 2, s) \<and> length s = length [0::rat, 1 / 2, 3]
          \<and> set s \<subseteq> set bar)"
proof
  show "sparkline [] (- 1) (- 1) = Inl ValueError"
    using sparkline_bars [of "[]" "- 1" "- 1"] by simp
  show "\<exists>s. sparkline [0, 1 / 2, 3] (- 1) 2 = Inr (0, 2, s) \<and> length s = length [0::rat, 1 / 2, 3]
          \<and> set s \<subseteq> set bar"
    using sparkline_bars [of "[0, 1 / 2, 3]" "- 1" 2] by simp blast
qed

text \<open>
  C4 as stated fails: the empty sequence with bounds \<open>(-1, -1)\<close> raises instead of giving
  the empty string with zero bounds; an extent strictly between 0 and 1 is kept, not
  raised to 1 (the data \<open>[0, 1/2]\<close> gets the top bar where the claim gives the fifth);
  there is no clamp at 0 (the element 0 with bounds \<open>(4, 12)\<close> has the truncated index
  \<open>-4\<close>, which Python counts from the end of \<open>bar\<close>, and with bounds \<open>(100, 101)\<close> the
  index \<open>-800\<close> raises \<open>IndexError\<close>).
\<close>

theorem sparkline_counterexample:
  "sparkline [] (- 1) (- 1) \<noteq> Inr (spec_sparkline [] (- 1) (- 1))
   \<and> sparkline [0, 1 / 2] (- 1) (- 1) = Inr (0, 1 / 2, [9601, 9608])
   \<and> spec_sparkline [0, 1 / 2] (- 1) (- 1) = (0, 1 / 2, [9601, 9605])
   \<and> sparkline [0] 4 12 = Inr (4, 12, [9605])
   \<and> spec_sparkline [0] 4 12 = (4, 12, [9601])
   \<and> sparkline [0] 100 101 = Inl IndexError"
  by (simp add: sparkline_def spec_sparkline_def spec_bar_index_def bar_at_def barcount_def
        bar_def py_int_def)

subsection \<open>Tables\<close>

lemma dd_val_dd_upd:
  "dd_val dflt (dd_upd dflt k g d) k' = (if k' = k then g (dd_val dflt d k) else dd_val dflt d k')"
  by (simp add: dd_val_def dd_upd_def update_conv')

lemma dd_upd_id_val: "dd_val dflt (dd_upd dflt k id d) k' = dd_val dflt d k'"
  by (simp add: dd_val_dd_upd)

lemma t2_val_t2_upd:
  "t2_val z (t2_upd z f l g t) f' l'
   = (if f' = f \<and> l' = l then g (t2_val z t f l) else t2_val z t f' l')"
  by (simp add: t2_val_def t2_upd_def dd_val_dd_upd)

lemma t3_val_t3_upd:
  "t3_val z (t3_upd z f l b g t) f' l' b'
   = (if f' = f \<and> l' = l \<and> b' = b then g (t3_val z t f l b) else t3_val z t f' l' b')"
  by (simp add: t3_val_def t3_upd_def dd_val_dd_upd)

lemma t3_val_touch2: "t3_val z (t2_upd [] f l id t) f' l' b' = t3_val z t f' l' b'"
  by (simp add: t3_val_def t2_upd_def dd_val_dd_upd)

text \<open>Frame facts of the loop body and of the loop.\<close>

lemma alloc_line_frame:
  "memory_malloc_count (alloc_line f l b m c st) = memory_malloc_count st"
  "memory_free_count (alloc_line f l b m c st) = memory_free_count st"
  "bridge_files (alloc_line f l b m c st) = bridge_files st"
  "stdout (alloc_line f l b m c st) = stdout st"
  "bytei_map (alloc_line f l b m c st) = bytei_map st"
  "malloc_signal_filename (alloc_line f l b m c st) = malloc_signal_filename st"
  "free_signal_filename (alloc_line f l b m c st) = free_signal_filename st"
  by (simp_all add: alloc_line_def Let_def)

lemma drain_lines_frame:
  "memory_malloc_count (snd (drain_lines f l b m ls st)) = memory_malloc_count st
   \<and> memory_free_count (snd (drain_lines f l b m ls st)) = memory_free_count st
   \<and> bridge_files (snd (drain_lines f l b m ls st)) = bridge_files st
   \<and> stdout (snd (drain_lines f l b m ls st)) = stdout st
   \<and> bytei_map (snd (drain_lines f l b m ls st)) = bytei_map st
   \<and> malloc_signal_filename (snd (drain_lines f l b m ls st)) = malloc_signal_filename st
   \<and> free_signal_filename (snd (drain_lines f l b m ls st)) = free_signal_filename st"
  by (induction f l b m ls st rule: drain_lines.induct) (simp_all add: alloc_line_frame)

lemma drain_lines_Nil: "drain_lines f l b m [] st = (None, st)"
  by simp

subsection \<open>Draining a bridge file\<close>

lemma alloc_line_malloc_vals:
  "t3_val 0 (memory_malloc_samples (alloc_line f l b True c st)) f' l' b'
     = t3_val 0 (memory_malloc_samples st) f' l' b' + (if f' = f \<and> l' = l \<and> b' = b then c else 0)"
  "memory_free_samples (alloc_line f l b True c st) = memory_free_samples st"
  "total_memory_malloc_samples (alloc_line f l b True c st) = total_memory_malloc_samples st + c"
  "total_memory_free_samples (alloc_line f l b True c st) = total_memory_free_samples st"
  "current_footprint (alloc_line f l b True c st) = current_footprint st + c"
  by (simp_all add: alloc_line_def Let_def t3_val_t3_upd)

lemma alloc_line_free_vals:
  "t3_val 0 (memory_free_samples (alloc_line f l b False c st)) f' l' b'
     = t3_val 0 (memory_free_samples st) f' l' b' + (if f' = f \<and> l' = l \<and> b' = b then c else 0)"
  "memory_malloc_samples (alloc_line f l b False c st) = memory_malloc_samples st"
  "total_memory_free_samples (alloc_line f l b False c st) = total_memory_free_samples st + c"
  "total_memory_malloc_samples (alloc_line f l b False c st) = total_memory_malloc_samples st"
  "current_footprint (alloc_line f l b False c st) = current_footprint st - c"
  "max_footprint (alloc_line f l b False c st) = max_footprint st"
  by (simp_all add: alloc_line_def Let_def t3_val_t3_upd)

lemma accumulate_simps:
  "accumulate f l b m [] st = st"
  "accumulate f l b m (v # vs) st = accumulate f l b m vs (alloc_line f l b m (v / (1024 * 1024)) st)"
  by (simp_all add: accumulate_def)

lemma drain_lines_counts:
  "drain_lines f l b m (map Count vs @ rest) st
   = drain_lines f l b m rest (accumulate f l b m vs st)"
  by (induction vs arbitrary: st) (simp_all add: accumulate_simps)

lemma fold_alloc_malloc:
  fixes st :: state and f :: string and l b :: int and vs :: "rat list"
  defines "s' \<equiv> accumulate f l b True vs st"
  shows "(\<forall>f' l' b'. t3_val 0 (memory_malloc_samples s') f' l' b'
            = t3_val 0 (memory_malloc_samples st) f' l' b'
              + (if f' = f \<and> l' = l \<and> b' = b then megabytes vs else 0))
       \<and> memory_free_samples s' = memory_free_samples st
       \<and> total_memory_malloc_samples s' = total_memory_malloc_samples st + megabytes vs
       \<and> total_memory_free_samples s' = total_memory_free_samples st
       \<and> current_footprint s' = current_footprint st + megabytes vs"
  unfolding s'_def
proof (induction vs arbitrary: st)
  case Nil
  then show ?case by (simp add: megabytes_def accumulate_simps)
next
  case (Cons v vs)
  show ?case
    using Cons[of "alloc_line f l b True (v / (1024 * 1024)) st"]
    by (simp add: alloc_line_malloc_vals megabytes_def accumulate_simps)
qed

lemma fold_alloc_free:
  fixes st :: state and f :: string and l b :: int and vs :: "rat list"
  defines "s' \<equiv> accumulate f l b False vs st"
  shows "(\<forall>f' l' b'. t3_val 0 (memory_free_samples s') f' l' b'
            = t3_val 0 (memory_free_samples st) f' l' b'
              + (if f' = f \<and> l' = l \<and> b' = b then megabytes vs else 0))
       \<and> memory_malloc_samples s' = memory_malloc_samples st
       \<and> total_memory_free_samples s' = total_memory_free_samples st + megabytes vs
       \<and> total_memory_malloc_samples s' = total_memory_malloc_samples st
       \<and> current_footprint s' = current_footprint st - megabytes vs
       \<and> max_footprint s' = max_footprint st"
  unfolding s'_def
proof (induction vs arbitrary: st)
  case Nil
  then show ?case by (simp add: megabytes_def accumulate_simps)
next
  case (Cons v vs)
  show ?case
    using Cons[of "alloc_line f l b False (v / (1024 * 1024)) st"]
    by (simp add: alloc_line_free_vals megabytes_def accumulate_simps)
qed

lemma fold_alloc_frame:
  fixes st :: state and f :: string and l b :: int and vs :: "rat list" and m :: bool
  defines "s' \<equiv> accumulate f l b m vs st"
  shows "memory_malloc_count s' = memory_malloc_count st
   \<and> memory_free_count s' = memory_free_count st
   \<and> bridge_files s' = bridge_files st
   \<and> stdout s' = stdout st
   \<and> bytei_map s' = bytei_map st
   \<and> malloc_signal_filename s' = malloc_signal_filename st
   \<and> free_signal_filename s' = free_signal_filename st"
  unfolding s'_def
  by (induction vs arbitrary: st) (simp_all add: alloc_line_frame accumulate_simps)

lemma helper_missing:
  "bridge_files st (if m then malloc_signal_filename st else free_signal_filename st) = None \<Longrightarrow>
   alloc_handler_helper f l b m st
   = (if m then st\<lparr>memory_malloc_samples := t2_upd [] f l id (memory_malloc_samples st)\<rparr>
      else st\<lparr>memory_free_samples := t2_upd [] f l id (memory_free_samples st)\<rparr>)"
  unfolding alloc_handler_helper_def by (cases m) (simp_all add: Let_def)

lemma helper_complete:
  "bridge_files st (if m then malloc_signal_filename st else free_signal_filename st) = Some (map Count vs) \<Longrightarrow>
   alloc_handler_helper f l b m st
   = (let filename = (if m then malloc_signal_filename st else free_signal_filename st);
          st1 = (if m then st\<lparr>memory_malloc_samples := t2_upd [] f l id (memory_malloc_samples st)\<rparr>
                 else st\<lparr>memory_free_samples := t2_upd [] f l id (memory_free_samples st)\<rparr>);
          st2 = accumulate f l b m vs st1;
          st3 = st2\<lparr>bridge_files := (bridge_files st2)(filename := None)\<rparr>
      in if vs = [] then st3
         else if m then st3\<lparr>memory_malloc_count := t3_upd 0 f l b (\<lambda>c. c + 1) (memory_malloc_count st3)\<rparr>
         else st3\<lparr>memory_free_count := t3_upd 0 f l b (\<lambda>c. c + 1) (memory_free_count st3)\<rparr>)"
  using drain_lines_counts[of f l b m vs "[]"]
  unfolding alloc_handler_helper_def by (cases m) (simp_all add: Let_def)

lemma helper_malformed:
  "bridge_files st (if m then malloc_signal_filename st else free_signal_filename st)
     = Some (map Count vs @ Malformed # rest) \<Longrightarrow>
   alloc_handler_helper f l b m st
   = (let st1 = (if m then st\<lparr>memory_malloc_samples := t2_upd [] f l id (memory_malloc_samples st)\<rparr>
                 else st\<lparr>memory_free_samples := t2_upd [] f l id (memory_free_samples st)\<rparr>);
          st2 = accumulate f l b m vs st1;
          st3 = st2\<lparr>stdout := stdout st2 @ [ExceptionText ValueError]\<rparr>
      in if m then st3\<lparr>memory_malloc_count := t3_upd 0 f l b (\<lambda>c. c + 1) (memory_malloc_count st3)\<rparr>
         else st3\<lparr>memory_free_count := t3_upd 0 f l b (\<lambda>c. c + 1) (memory_free_count st3)\<rparr>)"
  using drain_lines_counts[of f l b m vs "Malformed # rest"]
  unfolding alloc_handler_helper_def by (cases m) (simp_all add: Let_def)

lemma counters_unchanged_touch:
  "counters_unchanged st (st\<lparr>memory_malloc_samples := t2_upd [] f l id (memory_malloc_samples st)\<rparr>)"
  "counters_unchanged st (st\<lparr>memory_free_samples := t2_upd [] f l id (memory_free_samples st)\<rparr>)"
  by (simp_all add: counters_unchanged_def t3_val_touch2)

text \<open>
  C5 (amended). \<open>alloc_handler_helper\<close> returns a state whatever the file holds. When the
  file is missing, every counter reads as before, nothing is printed and no file changes.
  When the file holds the numbers \<open>vs\<close>, then a line \<open>float\<close> rejects, then \<open>rest\<close>, the
  drain ends at the bad line: the numbers before it are accumulated into the site's sum,
  the total and the footprint, the exception is printed, nothing of \<open>rest\<close> is read, the
  file is left in place, and the site's count still goes up by one.
\<close>

theorem drain_stops_at_malformed_line:
  fixes st :: state and is_malloc :: bool and fname :: string and line_no bytei :: int
  defines "filename \<equiv> (if is_malloc then malloc_signal_filename st else free_signal_filename st)"
      and "st' \<equiv> alloc_handler_helper fname line_no bytei is_malloc st"
  shows "(bridge_files st filename = None \<longrightarrow>
            counters_unchanged st st' \<and> stdout st' = stdout st \<and> bridge_files st' = bridge_files st)
       \<and> (\<forall>vs rest. bridge_files st filename = Some (map Count vs @ Malformed # rest) \<longrightarrow>
            bridge_files st' = bridge_files st
            \<and> stdout st' = stdout st @ [ExceptionText ValueError]
            \<and> (\<forall>f l b.
                 t3_val 0 (if is_malloc then memory_malloc_samples st' else memory_free_samples st') f l b
                 = t3_val 0 (if is_malloc then memory_malloc_samples st else memory_free_samples st) f l b
                   + (if f = fname \<and> l = line_no \<and> b = bytei then megabytes vs else 0))
            \<and> (if is_malloc then total_memory_malloc_samples st' else total_memory_free_samples st')
               = (if is_malloc then total_memory_malloc_samples st else total_memory_free_samples st)
                 + megabytes vs
            \<and> current_footprint st'
               = current_footprint st + (if is_malloc then megabytes vs else - megabytes vs)
            \<and> (\<forall>f l b.
                 t3_val 0 (if is_malloc then memory_malloc_count st' else memory_free_count st') f l b
                 = t3_val 0 (if is_malloc then memory_malloc_count st else memory_free_count st) f l b
                   + (if f = fname \<and> l = line_no \<and> b = bytei then 1 else 0)))"
proof (rule conjI)
  show "bridge_files st filename = None \<longrightarrow>
            counters_unchanged st st' \<and> stdout st' = stdout st \<and> bridge_files st' = bridge_files st"
    unfolding filename_def st'_def
    by (cases is_malloc) (auto simp: helper_missing counters_unchanged_touch)
next
  show "\<forall>vs rest. bridge_files st filename = Some (map Count vs @ Malformed # rest) \<longrightarrow>
            bridge_files st' = bridge_files st
            \<and> stdout st' = stdout st @ [ExceptionText ValueError]
            \<and> (\<forall>f l b.
                 t3_val 0 (if is_malloc then memory_malloc_samples st' else memory_free_samples st') f l b
                 = t3_val 0 (if is_malloc then memory_malloc_samples st else memory_free_samples st) f l b
                   + (if f = fname \<and> l = line_no \<and> b = bytei then megabytes vs else 0))
            \<and> (if is_malloc then total_memory_malloc_samples st' else total_memory_free_samples st')
               = (if is_malloc then total_memory_malloc_samples st else total_memory_free_samples st)
                 + megabytes vs
            \<and> current_footprint st'
               = current_footprint st + (if is_malloc then megabytes vs else - megabytes vs)
            \<and> (\<forall>f l b.
                 t3_val 0 (if is_malloc then memory_malloc_count st' else memory_free_count st') f l b
                 = t3_val 0 (if is_malloc then memory_malloc_count st else memory_free_count st) f l b
                   + (if f = fname \<and> l = line_no \<and> b = bytei then 1 else 0))"
  proof (intro allI impI)
    fix vs rest
    assume a: "bridge_files st filename = Some (map Count vs @ Malformed # rest)"
    show "bridge_files st' = bridge_files st
            \<and> stdout st' = stdout st @ [ExceptionText ValueError]
            \<and> (\<forall>f l b.
                 t3_val 0 (if is_malloc then memory_malloc_samples st' else memory_free_samples st') f l b
                 = t3_val 0 (if is_malloc then memory_malloc_samples st else memory_free_samples st) f l b
                   + (if f = fname \<and> l = line_no \<and> b = bytei then megabytes vs else 0))
            \<and> (if is_malloc then total_memory_malloc_samples st' else total_memory_free_samples st')
               = (if is_malloc then total_memory_malloc_samples st else total_memory_free_samples st)
                 + megabytes vs
            \<and> current_footprint st'
               = current_footprint st + (if is_malloc then megabytes vs else - megabytes vs)
            \<and> (\<forall>f l b.
                 t3_val 0 (if is_malloc then memory_malloc_count st' else memory_free_count st') f l b
                 = t3_val 0 (if is_malloc then memory_malloc_count st else memory_free_count st) f l b
                   + (if f = fname \<and> l = line_no \<and> b = bytei then 1 else 0))"
    proof (cases is_malloc)
      case True
      let ?st1 = "st\<lparr>memory_malloc_samples := t2_upd [] fname line_no id (memory_malloc_samples st)\<rparr>"
      note h = helper_malformed[of st True vs rest fname line_no bytei, simplified]
      note A = fold_alloc_malloc[of fname line_no bytei vs ?st1]
      note F = fold_alloc_frame[of fname line_no bytei True vs ?st1]
      show ?thesis
        using a True A F unfolding st'_def filename_def
        by (simp add: h Let_def t3_val_t3_upd t3_val_touch2)
    next
      case False
      let ?st1 = "st\<lparr>memory_free_samples := t2_upd [] fname line_no id (memory_free_samples st)\<rparr>"
      note h = helper_malformed[of st False vs rest fname line_no bytei, simplified]
      note A = fold_alloc_free[of fname line_no bytei vs ?st1]
      note F = fold_alloc_frame[of fname line_no bytei False vs ?st1]
      show ?thesis
        using a False A F unfolding st'_def filename_def
        by (simp add: h Let_def t3_val_t3_upd t3_val_touch2)
    qed
  qed
qed

theorem drain_stops_at_malformed_line_witness:
  "counters_unchanged initial_state (alloc_handler_helper ''a.py'' 3 10 True initial_state)
   \<and> total_memory_malloc_samples
        (alloc_handler_helper ''a.py'' 3 10 True
          (initial_state\<lparr>bridge_files := (\<lambda>_. None)(''/tmp/scalene-malloc-signal'' \<mapsto>
              [Count 1048576, Malformed, Count 2097152])\<rparr>)) = 1
   \<and> stdout
        (alloc_handler_helper ''a.py'' 3 10 True
          (initial_state\<lparr>bridge_files := (\<lambda>_. None)(''/tmp/scalene-malloc-signal'' \<mapsto>
              [Count 1048576, Malformed, Count 2097152])\<rparr>)) = [ExceptionText ValueError]"
proof -
  have 1: "counters_unchanged initial_state (alloc_handler_helper ''a.py'' 3 10 True initial_state)"
    using drain_stops_at_malformed_line [of initial_state True "''a.py''" 3 10]
    by (simp add: initial_state_def)
  have 2: "total_memory_malloc_samples
        (alloc_handler_helper ''a.py'' 3 10 True
          (initial_state\<lparr>bridge_files := (\<lambda>_. None)(''/tmp/scalene-malloc-signal'' \<mapsto>
              [Count 1048576, Malformed, Count 2097152])\<rparr>)) = 1
     \<and> stdout
        (alloc_handler_helper ''a.py'' 3 10 True
          (initial_state\<lparr>bridge_files := (\<lambda>_. None)(''/tmp/scalene-malloc-signal'' \<mapsto>
              [Count 1048576, Malformed, Count 2097152])\<rparr>)) = [ExceptionText ValueError]"
    using drain_stops_at_malformed_line [of "initial_state\<lparr>bridge_files := (\<lambda>_. None)(''/tmp/scalene-malloc-signal'' \<mapsto>
              [Count 1048576, Malformed, Count 2097152])\<rparr>" True "''a.py''" 3 10,
          THEN conjunct2, rule_format, of "[1048576]" "[Count 2097152]"]
    by (simp add: initial_state_def megabytes_def)
  show ?thesis using 1 2 by (rule conjI)
qed

text \<open>
  C5 as stated fails: with the lines 1048576, a malformed line, 2097152 in the malloc
  file, the claim has both numbers accumulated (3 MB) and the file unlinked; the code
  accumulates 1 MB and leaves the file where it is.
\<close>

theorem drain_malformed_line_counterexample:
  "total_memory_malloc_samples
        (alloc_handler_helper ''a.py'' 3 10 True
          (initial_state\<lparr>bridge_files := (\<lambda>_. None)(''/tmp/scalene-malloc-signal'' \<mapsto>
              [Count 1048576, Malformed, Count 2097152])\<rparr>)) = 1
   \<and> t3_val 0 (memory_malloc_samples
        (alloc_handler_helper ''a.py'' 3 10 True
          (initial_state\<lparr>bridge_files := (\<lambda>_. None)(''/tmp/scalene-malloc-signal'' \<mapsto>
              [Count 1048576, Malformed, Count 2097152])\<rparr>))) ''a.py'' 3 10 = 1
   \<and> bridge_files
        (alloc_handler_helper ''a.py'' 3 10 True
          (initial_state\<lparr>bridge_files := (\<lambda>_. None)(''/tmp/scalene-malloc-signal'' \<mapsto>
              [Count 1048576, Malformed, Count 2097152])\<rparr>)) ''/tmp/scalene-malloc-signal''
     = Some [Count 1048576, Malformed, Count 2097152]"
  by (simp add: alloc_handler_helper_def initial_state_def alloc_line_def Let_def
        t3_upd_def t2_upd_def dd_upd_def dd_val_def t3_val_def)

text \<open>
  C6. One call of \<open>alloc_handler_helper\<close> on a bridge file that holds at least one line adds
  exactly one to the count of its kind at the signalled file, line and offset, whatever the
  number of lines, and changes no other count; on a file that exists and holds no line it
  leaves every counter reading as before and removes the file.
\<close>

theorem drain_bumps_count_once:
  fixes st :: state and is_malloc :: bool and fname :: string and line_no bytei :: int
  defines "filename \<equiv> (if is_malloc then malloc_signal_filename st else free_signal_filename st)"
      and "st' \<equiv> alloc_handler_helper fname line_no bytei is_malloc st"
  shows "(\<forall>ls. bridge_files st filename = Some ls \<and> ls \<noteq> [] \<longrightarrow>
            (\<forall>f l b.
               t3_val 0 (if is_malloc then memory_malloc_count st' else memory_free_count st') f l b
               = t3_val 0 (if is_malloc then memory_malloc_count st else memory_free_count st) f l b
                 + (if f = fname \<and> l = line_no \<and> b = bytei then 1 else 0))
            \<and> (if is_malloc then memory_free_count st' else memory_malloc_count st')
               = (if is_malloc then memory_free_count st else memory_malloc_count st))
       \<and> (bridge_files st filename = Some [] \<longrightarrow>
            bridge_files st' filename = None \<and> counters_unchanged st st')"
proof (rule conjI)
  show "\<forall>ls. bridge_files st filename = Some ls \<and> ls \<noteq> [] \<longrightarrow>
            (\<forall>f l b.
               t3_val 0 (if is_malloc then memory_malloc_count st' else memory_free_count st') f l b
               = t3_val 0 (if is_malloc then memory_malloc_count st else memory_free_count st) f l b
                 + (if f = fname \<and> l = line_no \<and> b = bytei then 1 else 0))
            \<and> (if is_malloc then memory_free_count st' else memory_malloc_count st')
               = (if is_malloc then memory_free_count st else memory_malloc_count st)"
  proof (intro allI impI)
    fix ls
    assume a: "bridge_files st filename = Some ls \<and> ls \<noteq> []"
    let ?st1 = "(if is_malloc
         then st\<lparr>memory_malloc_samples := t2_upd [] fname line_no id (memory_malloc_samples st)\<rparr>
         else st\<lparr>memory_free_samples := t2_upd [] fname line_no id (memory_free_samples st)\<rparr>)"
    obtain r s2 where d: "drain_lines fname line_no bytei is_malloc ls ?st1 = (r, s2)"
      by (cases "drain_lines fname line_no bytei is_malloc ls ?st1")
    have fr: "memory_malloc_count s2 = memory_malloc_count st"
             "memory_free_count s2 = memory_free_count st"
      using drain_lines_frame[of fname line_no bytei is_malloc ls ?st1]
      by (simp_all add: d split: if_splits)
    have cnt: "(if is_malloc then memory_malloc_count st' else memory_free_count st')
        = t3_upd 0 fname line_no bytei (\<lambda>c. c + 1)
            (if is_malloc then memory_malloc_count st else memory_free_count st)"
      using a d fr unfolding st'_def alloc_handler_helper_def filename_def
      by (auto simp: Let_def split: option.splits)
    have 1: "\<forall>f l b. t3_val 0 (if is_malloc then memory_malloc_count st' else memory_free_count st') f l b
               = t3_val 0 (if is_malloc then memory_malloc_count st else memory_free_count st) f l b
                 + (if f = fname \<and> l = line_no \<and> b = bytei then 1 else 0)"
      unfolding cnt by (simp add: t3_val_t3_upd)
    have 2: "(if is_malloc then memory_free_count st' else memory_malloc_count st')
               = (if is_malloc then memory_free_count st else memory_malloc_count st)"
      using a d fr unfolding st'_def alloc_handler_helper_def filename_def
      by (auto simp: Let_def split: option.splits)
    show "(\<forall>f l b.
               t3_val 0 (if is_malloc then memory_malloc_count st' else memory_free_count st') f l b
               = t3_val 0 (if is_malloc then memory_malloc_count st else memory_free_count st) f l b
                 + (if f = fname \<and> l = line_no \<and> b = bytei then 1 else 0))
            \<and> (if is_malloc then memory_free_count st' else memory_malloc_count st')
               = (if is_malloc then memory_free_count st else memory_malloc_count st)"
      using 1 2 by (rule conjI)
  qed
next
  show "bridge_files st filename = Some [] \<longrightarrow>
            bridge_files st' filename = None \<and> counters_unchanged st st'"
  proof
    assume a: "bridge_files st filename = Some []"
    have eq: "st' = (if is_malloc
         then st\<lparr>memory_malloc_samples := t2_upd [] fname line_no id (memory_malloc_samples st),
                 bridge_files := (bridge_files st)(filename := None)\<rparr>
         else st\<lparr>memory_free_samples := t2_upd [] fname line_no id (memory_free_samples st),
                 bridge_files := (bridge_files st)(filename := None)\<rparr>)"
      using a unfolding st'_def alloc_handler_helper_def filename_def
      by (cases is_malloc) (simp_all add: Let_def)
    show "bridge_files st' filename = None \<and> counters_unchanged st st'"
      by (simp add: eq counters_unchanged_def t3_val_touch2)
  qed
qed

theorem drain_bumps_count_once_witness:
  "t3_val 0 (memory_malloc_count
        (alloc_handler_helper ''a.py'' 3 10 True
          (initial_state\<lparr>bridge_files := (\<lambda>_. None)(''/tmp/scalene-malloc-signal'' \<mapsto>
              [Count 1048576, Count 2097152])\<rparr>))) ''a.py'' 3 10 = 1
   \<and> bridge_files
        (alloc_handler_helper ''a.py'' 3 10 False
          (initial_state\<lparr>bridge_files := (\<lambda>_. None)(''/tmp/scalene-free-signal'' \<mapsto> [])\<rparr>))
        ''/tmp/scalene-free-signal'' = None"
proof
  show "t3_val 0 (memory_malloc_count
        (alloc_handler_helper ''a.py'' 3 10 True
          (initial_state\<lparr>bridge_files := (\<lambda>_. None)(''/tmp/scalene-malloc-signal'' \<mapsto>
              [Count 1048576, Count 2097152])\<rparr>))) ''a.py'' 3 10 = 1"
    using drain_bumps_count_once [of "initial_state\<lparr>bridge_files := (\<lambda>_. None)(''/tmp/scalene-malloc-signal'' \<mapsto>
              [Count 1048576, Count 2097152])\<rparr>" True "''a.py''" 3 10,
          THEN conjunct1, rule_format, of "[Count 1048576, Count 2097152]",
          THEN conjunct1, rule_format, of "''a.py''" 3 10]
    by (simp add: initial_state_def t3_val_def dd_val_def)
  show "bridge_files
        (alloc_handler_helper ''a.py'' 3 10 False
          (initial_state\<lparr>bridge_files := (\<lambda>_. None)(''/tmp/scalene-free-signal'' \<mapsto> [])\<rparr>))
        ''/tmp/scalene-free-signal'' = None"
    using drain_bumps_count_once [of "initial_state\<lparr>bridge_files := (\<lambda>_. None)(''/tmp/scalene-free-signal'' \<mapsto> [])\<rparr>" False
          "''a.py''" 3 10]
    by (simp add: initial_state_def)
qed

subsection \<open>Reporter: a run too short to sample\<close>

lemma stop_frame:
  "total_cpu_samples (stop st) = total_cpu_samples st"
  "total_memory_malloc_samples (stop st) = total_memory_malloc_samples st"
  "total_memory_free_samples (stop st) = total_memory_free_samples st"
  "stdout (stop st) = stdout st"
  "written_files (stop st) = written_files st"
  by (simp_all add: stop_def disable_signals_def gettime_def chdir_def Let_def)

text \<open>
  C8 (amended). When \<open>total_cpu_samples\<close>, \<open>total_memory_malloc_samples\<close> and
  \<open>total_memory_free_samples\<close> are all zero, \<open>output_profiles\<close> returns \<open>False\<close> and leaves
  the state as it is (nothing is printed, no file is written), and the end of \<open>main\<close>
  prints one line to standard output, which reads
  \<open>Scalene: Program did not run for long enough to profile.\<close>
\<close>

theorem short_run_diagnostic:
  assumes "total_cpu_samples st = 0" and "total_memory_malloc_samples st = 0"
      and "total_memory_free_samples st = 0"
  shows "output_profiles st = (Inr False, st)
       \<and> stdout (main_report st)
         = stdout st @ [Text ''Scalene: Program did not run for long enough to profile.'']
       \<and> written_files (main_report st) = written_files st"
  using assms by (simp add: output_profiles_def main_report_def stop_frame Let_def)

theorem short_run_diagnostic_witness:
  "total_cpu_samples initial_state = 0 \<and> total_memory_malloc_samples initial_state = 0
   \<and> total_memory_free_samples initial_state = 0
   \<and> output_profiles initial_state = (Inr False, initial_state)
   \<and> stdout (main_report initial_state)
     = [Text ''Scalene: Program did not run for long enough to profile.'']"
  using short_run_diagnostic [of initial_state] by (simp add: initial_state_def)

text \<open>
  C8 as stated fails in the text of the line: what is printed starts with \<open>Scalene: \<close>,
  so it is not the line \<open>Program did not run for long enough to profile.\<close> that the claim
  quotes.
\<close>

theorem short_run_diagnostic_counterexample:
  "total_cpu_samples initial_state = 0 \<and> total_memory_malloc_samples initial_state = 0
   \<and> total_memory_free_samples initial_state = 0
   \<and> stdout (main_report initial_state)
     \<noteq> [Text ''Program did not run for long enough to profile.'']"
  by (simp add: output_profiles_def main_report_def stop_frame Let_def initial_state_def)

subsection \<open>The empty file name\<close>

text \<open>
  C10. \<open>should_trace\<close> returns a boolean on every non-empty string and raises
  \<open>IndexError\<close> on the empty string. \<open>allocation_handler\<close> hands the file name of the
  signalled frame to it as it is, so a frame without a file name makes the handler raise;
  the loop of \<open>cpu_signal_handler\<close> replaces an empty file name by that of the outer frame
  before it asks.
\<close>

theorem should_trace_empty_filename:
  "should_trace wd ppath [] = Inl IndexError
   \<and> (\<exists>b. should_trace wd ppath (c # cs) = Inr b)
   \<and> allocation_handler (Frame i (co\<lparr>co_filename := []\<rparr>) line_no bytei back) st = Inl IndexError
   \<and> retained_frames wd ppath [Some (Frame i (co\<lparr>co_filename := []\<rparr>) line_no bytei (Some outer))]
     = (case should_trace wd ppath (co_filename (f_code outer)) of
          Inl e \<Rightarrow> Inl e
        | Inr False \<Rightarrow> Inr []
        | Inr True \<Rightarrow> Inr [Frame i (co\<lparr>co_filename := []\<rparr>) line_no bytei (Some outer)])"
proof (intro conjI)
  show "should_trace wd ppath [] = Inl IndexError"
    by (simp add: should_trace_def)
  show "\<exists>b. should_trace wd ppath (c # cs) = Inr b"
    by (auto simp: should_trace_def simp del: py_in.simps starts_with.simps)
  show "allocation_handler (Frame i (co\<lparr>co_filename := []\<rparr>) line_no bytei back) st = Inl IndexError"
    by (simp add: allocation_handler_def should_trace_def)
  show "retained_frames wd ppath [Some (Frame i (co\<lparr>co_filename := []\<rparr>) line_no bytei (Some outer))]
     = (case should_trace wd ppath (co_filename (f_code outer)) of
          Inl e \<Rightarrow> Inl e
        | Inr False \<Rightarrow> Inr []
        | Inr True \<Rightarrow> Inr [Frame i (co\<lparr>co_filename := []\<rparr>) line_no bytei (Some outer)])"
    by (simp split: sum.splits bool.splits)
qed

subsection \<open>What the sampler and the reporter leave alone\<close>

lemma dict_keys_dd_upd: "set (dict_keys (dd_upd dflt k g d)) = insert k (set (dict_keys d))"
  by (simp add: dict_keys_def dd_upd_def dom_update)

lemma t3_offsets_t3_upd:
  "t3_offsets (t3_upd z f l b g t) f' l'
   = (if f' = f \<and> l' = l then insert b (t3_offsets t f l) else t3_offsets t f' l')"
  by (simp add: t3_offsets_def t3_upd_def dd_val_dd_upd dict_keys_dd_upd)

lemma t3_offsets_touch2: "t3_offsets (t2_upd [] f l id t) f' l' = t3_offsets t f' l'"
  by (simp add: t3_offsets_def t2_upd_def dd_val_dd_upd)

lemma t2_val_touch: "t2_val z (t2_upd z f l id t) f' l' = t2_val z t f' l'"
  by (simp add: t2_val_t2_upd)

lemma t3_val_touch3: "t3_val z (t3_upd z f l b id t) f' l' b' = t3_val z t f' l' b'"
  by (simp add: t3_val_t3_upd)

lemma alloc_quiet_refl: "alloc_quiet st st"
  by (simp add: alloc_quiet_def)

lemma alloc_quiet_trans:
  assumes "alloc_quiet a b" and "alloc_quiet b c"
  shows "alloc_quiet a c"
proof -
  have m: "t3_offsets (memory_malloc_samples c) f l
        \<subseteq> t3_offsets (memory_malloc_samples a) f l \<union> set (t2_val [] (bytei_map a) f l)" for f l
  proof -
    have "t3_offsets (memory_malloc_samples c) f l
        \<subseteq> t3_offsets (memory_malloc_samples b) f l \<union> set (t2_val [] (bytei_map b) f l)"
      using assms(2) by (simp add: alloc_quiet_def)
    moreover have "t3_offsets (memory_malloc_samples b) f l
        \<subseteq> t3_offsets (memory_malloc_samples a) f l \<union> set (t2_val [] (bytei_map a) f l)"
      using assms(1) by (simp add: alloc_quiet_def)
    moreover have "t2_val [] (bytei_map b) f l = t2_val [] (bytei_map a) f l"
      using assms(1) by (simp add: alloc_quiet_def)
    ultimately show ?thesis by auto
  qed
  have fr: "t3_offsets (memory_free_samples c) f l
        \<subseteq> t3_offsets (memory_free_samples a) f l \<union> set (t2_val [] (bytei_map a) f l)" for f l
  proof -
    have "t3_offsets (memory_free_samples c) f l
        \<subseteq> t3_offsets (memory_free_samples b) f l \<union> set (t2_val [] (bytei_map b) f l)"
      using assms(2) by (simp add: alloc_quiet_def)
    moreover have "t3_offsets (memory_free_samples b) f l
        \<subseteq> t3_offsets (memory_free_samples a) f l \<union> set (t2_val [] (bytei_map a) f l)"
      using assms(1) by (simp add: alloc_quiet_def)
    moreover have "t2_val [] (bytei_map b) f l = t2_val [] (bytei_map a) f l"
      using assms(1) by (simp add: alloc_quiet_def)
    ultimately show ?thesis by auto
  qed
  have rest: "total_memory_malloc_samples c = total_memory_malloc_samples a
      \<and> total_memory_free_samples c = total_memory_free_samples a
      \<and> current_footprint c = current_footprint a
      \<and> max_footprint c = max_footprint a
      \<and> bridge_files c = bridge_files a
      \<and> malloc_signal_filename c = malloc_signal_filename a
      \<and> free_signal_filename c = free_signal_filename a
      \<and> (\<forall>f l. t2_val [] (bytei_map c) f l = t2_val [] (bytei_map a) f l)
      \<and> (\<forall>f l b. t3_val 0 (memory_malloc_samples c) f l b = t3_val 0 (memory_malloc_samples a) f l b
              \<and> t3_val 0 (memory_free_samples c) f l b = t3_val 0 (memory_free_samples a) f l b
              \<and> t3_val 0 (memory_malloc_count c) f l b = t3_val 0 (memory_malloc_count a) f l b
              \<and> t3_val 0 (memory_free_count c) f l b = t3_val 0 (memory_free_count a) f l b)"
    using assms by (simp add: alloc_quiet_def)
  show ?thesis
    unfolding alloc_quiet_def using rest m fr by blast
qed

text \<open>A step that writes none of the fields of the allocation side.\<close>

lemma alloc_quiet_fields:
  assumes "total_memory_malloc_samples st' = total_memory_malloc_samples st"
      and "total_memory_free_samples st' = total_memory_free_samples st"
      and "current_footprint st' = current_footprint st"
      and "max_footprint st' = max_footprint st"
      and "bridge_files st' = bridge_files st"
      and "malloc_signal_filename st' = malloc_signal_filename st"
      and "free_signal_filename st' = free_signal_filename st"
      and "bytei_map st' = bytei_map st"
      and "memory_malloc_samples st' = memory_malloc_samples st"
      and "memory_free_samples st' = memory_free_samples st"
      and "memory_malloc_count st' = memory_malloc_count st"
      and "memory_free_count st' = memory_free_count st"
  shows "alloc_quiet st st'"
  using assms by (simp add: alloc_quiet_def)

lemma report_index_quiet:
  assumes "index \<in> set (t2_val [] (bytei_map st) fname line_no)"
  shows "alloc_quiet st (snd (report_index fname line_no (acc, st) index))"
  using assms
  by (auto simp: report_index_def Let_def alloc_quiet_def t3_val_touch3 t3_offsets_t3_upd)

lemma foldl_report_index_quiet:
  assumes "set indices \<subseteq> set (t2_val [] (bytei_map st) fname line_no)"
  shows "alloc_quiet st (snd (foldl (report_index fname line_no) (acc, st) indices))"
proof -
  have "alloc_quiet st s \<Longrightarrow>
        alloc_quiet st (snd (foldl (report_index fname line_no) (a, s) indices))" for a s
    using assms
  proof (induction indices arbitrary: a s)
    case Nil
    then show ?case by simp
  next
    case (Cons i indices)
    obtain a' s' where r: "report_index fname line_no (a, s) i = (a', s')"
      by (cases "report_index fname line_no (a, s) i")
    have "i \<in> set (t2_val [] (bytei_map s) fname line_no)"
      using Cons.prems by (simp add: alloc_quiet_def)
    then have "alloc_quiet s s'"
      using report_index_quiet[of i s fname line_no a] r by simp
    then have "alloc_quiet st s'"
      using Cons.prems(1) alloc_quiet_trans by blast
    then show ?case
      using Cons.IH[of s' a'] Cons.prems(2) r by simp
  qed
  then show ?thesis using alloc_quiet_refl by blast
qed

lemma line_cpu_percent_quiet:
  "alloc_quiet st (snd (snd (line_cpu_percent fname line_no st)))"
  by (simp add: line_cpu_percent_def Let_def alloc_quiet_def)

lemma line_memory_stats_quiet:
  "alloc_quiet st (snd (line_memory_stats fname line_no st))"
proof -
  let ?st1 = "st\<lparr>bytei_map := t2_upd [] fname line_no id (bytei_map st)\<rparr>"
  let ?indices = "t2_val [] (bytei_map st) fname line_no"
  have q1: "alloc_quiet st ?st1"
    by (simp add: alloc_quiet_def t2_val_touch)
  have "set ?indices \<subseteq> set (t2_val [] (bytei_map ?st1) fname line_no)"
    by (simp add: t2_val_touch)
  then have "alloc_quiet ?st1 (snd (foldl (report_index fname line_no)
           (\<lparr>n_malloc_mb = 0, n_free_mb = 0, n_avg_malloc_mb = 0,
             n_avg_free_mb = 0, n_malloc_count = 0, n_free_count = 0\<rparr>, ?st1) ?indices))"
    by (rule foldl_report_index_quiet)
  then have "alloc_quiet st (snd (foldl (report_index fname line_no)
           (\<lparr>n_malloc_mb = 0, n_free_mb = 0, n_avg_malloc_mb = 0,
             n_avg_free_mb = 0, n_malloc_count = 0, n_free_count = 0\<rparr>, ?st1) ?indices))"
    using q1 alloc_quiet_trans by blast
  then show ?thesis
    by (simp add: line_memory_stats_def Let_def)
qed

lemma line_spark_string_quiet:
  "alloc_quiet st (snd (line_spark_string fname line_no st))"
  by (simp add: line_spark_string_def Let_def alloc_quiet_def split: prod.splits sum.splits)

lemma report_line_quiet:
  "alloc_quiet st (snd (snd (report_line did fname line_no line0 st)))"
proof -
  obtain p c st1 where a: "line_cpu_percent fname line_no st = (p, c, st1)"
    by (cases "line_cpu_percent fname line_no st")
  obtain acc st2 where b: "line_memory_stats fname line_no st1 = (acc, st2)"
    by (cases "line_memory_stats fname line_no st1")
  obtain r st3 where d: "line_spark_string fname line_no st2 = (r, st3)"
    by (cases "line_spark_string fname line_no st2")
  have q1: "alloc_quiet st st1" using line_cpu_percent_quiet[of st fname line_no] a by simp
  have q2: "alloc_quiet st1 st2" using line_memory_stats_quiet[of st1 fname line_no] b by simp
  have q3: "alloc_quiet st2 st3" using line_spark_string_quiet[of st2 fname line_no] d by simp
  have q12: "alloc_quiet st st2" using q1 q2 by (rule alloc_quiet_trans)
  have q13: "alloc_quiet st st3" using q12 q3 by (rule alloc_quiet_trans)
  show ?thesis
    using q12 q13 by (simp add: report_line_def Let_def a b d split: sum.splits)
qed

lemma report_lines_quiet:
  "alloc_quiet st (snd (snd (report_lines did fname line_no lines st)))"
proof (induction lines arbitrary: st line_no)
  case Nil
  then show ?case by (simp add: alloc_quiet_refl)
next
  case (Cons line lines)
  obtain r out st' where a: "report_line did fname line_no line st = (r, out, st')"
    by (cases "report_line did fname line_no line st")
  have q: "alloc_quiet st st'"
    using report_line_quiet[of st did fname line_no line] a by simp
  show ?case
  proof (cases r)
    case None
    obtain r2 out2 st2 where b: "report_lines did fname (line_no + 1) lines st' = (r2, out2, st2)"
      by (cases "report_lines did fname (line_no + 1) lines st'")
    have "alloc_quiet st' st2" using Cons.IH[of st' "line_no + 1"] b by simp
    then show ?thesis using q a b None alloc_quiet_trans by auto
  next
    case (Some e)
    then show ?thesis using q a by simp
  qed
qed

lemma report_file_quiet:
  "alloc_quiet st (snd (snd (report_file did fname st)))"
proof -
  let ?st2 = "st\<lparr>cpu_samples_c := dd_upd [] fname id (cpu_samples_c st),
                  cpu_samples_python := dd_upd [] fname id (cpu_samples_python st)\<rparr>"
  have q1: "alloc_quiet st ?st2" by (simp add: alloc_quiet_def)
  show ?thesis
  proof (cases "source_files st fname")
    case None
    then show ?thesis using q1 by (simp add: report_file_def Let_def)
  next
    case (Some lines)
    obtain r out st3 where b: "report_lines did fname 1 lines ?st2 = (r, out, st3)"
      by (cases "report_lines did fname 1 lines ?st2")
    have "alloc_quiet ?st2 st3" using report_lines_quiet[of ?st2 did fname 1 lines] b by simp
    then have "alloc_quiet st st3" using q1 alloc_quiet_trans by blast
    then show ?thesis using Some b
      by (cases r) (simp_all add: report_file_def Let_def)
  qed
qed

lemma report_files_quiet:
  "alloc_quiet st (snd (snd (report_files did fnames st)))"
proof (induction fnames arbitrary: st)
  case Nil
  then show ?case by (simp add: alloc_quiet_refl)
next
  case (Cons fname fnames)
  obtain r out st' where a: "report_file did fname st = (r, out, st')"
    by (cases "report_file did fname st")
  have q: "alloc_quiet st st'"
    using report_file_quiet[of st did fname] a by simp
  show ?case
  proof (cases r)
    case None
    obtain r2 out2 st2 where b: "report_files did fnames st' = (r2, out2, st2)"
      by (cases "report_files did fnames st'")
    have "alloc_quiet st' st2" using Cons.IH[of st'] b by simp
    then show ?thesis using q a b None alloc_quiet_trans by auto
  next
    case (Some e)
    then show ?thesis using q a by simp
  qed
qed

lemma report_memory_usage_quiet:
  "alloc_quiet st (snd (snd (report_memory_usage did st)))"
  by (simp add: report_memory_usage_def Let_def alloc_quiet_def split: prod.splits sum.splits)

lemma report_body_quiet:
  "alloc_quiet st (snd (snd (report_body st)))"
proof -
  let ?did = "total_memory_free_samples st + total_memory_malloc_samples st > 0"
  obtain r out st1 where a: "report_memory_usage ?did st = (r, out, st1)"
    by (cases "report_memory_usage ?did st")
  have q: "alloc_quiet st st1" using report_memory_usage_quiet[of st ?did] a by simp
  show ?thesis
  proof (cases r)
    case None
    obtain r2 out2 st2 where b:
      "report_files ?did (sort (all_instrumented_files st)) st1 = (r2, out2, st2)"
      by (cases "report_files ?did (sort (all_instrumented_files st)) st1")
    have "alloc_quiet st1 st2"
      using report_files_quiet[of st1 ?did "sort (all_instrumented_files st)"] b by simp
    then have "alloc_quiet st st2" using q alloc_quiet_trans by blast
    then show ?thesis using a b None by (simp add: report_body_def Let_def)
  next
    case (Some e)
    then show ?thesis using q a by (simp add: report_body_def Let_def)
  qed
qed

lemma output_profiles_quiet:
  "alloc_quiet st (snd (output_profiles st))"
proof -
  obtain r out st1 where a: "report_body st = (r, out, st1)"
    by (cases "report_body st")
  have q: "alloc_quiet st st1" using report_body_quiet[of st] a by simp
  have q1: "alloc_quiet st1 (st1\<lparr>stdout := stdout st1 @ out\<rparr>)"
    by (simp add: alloc_quiet_def)
  have q2: "alloc_quiet st1 (st1\<lparr>written_files := (written_files st1)(n := Some out)\<rparr>)" for n
    by (simp add: alloc_quiet_def)
  show ?thesis
    using a q q1 q2 alloc_quiet_trans alloc_quiet_refl
    by (auto simp: output_profiles_def split: option.splits)
qed

lemma stop_quiet: "alloc_quiet st (stop st)"
  by (simp add: stop_def disable_signals_def gettime_def chdir_def Let_def alloc_quiet_def)

lemma start_quiet: "alloc_quiet st (start st)"
  by (simp add: start_def enable_signals_def gettime_def chdir_def Let_def alloc_quiet_def)

lemma periodic_output_quiet: "alloc_quiet st (snd (periodic_output st))"
proof -
  let ?st1 = "st\<lparr>next_output_time :=
                    (case (next_output_time st, output_profile_interval st) of
                       (Some t, Some d) \<Rightarrow> Some (t + d)
                     | _ \<Rightarrow> None)\<rparr>"
  have q1: "alloc_quiet st ?st1" by (simp add: alloc_quiet_def)
  have q2: "alloc_quiet ?st1 (stop ?st1)" by (rule stop_quiet)
  obtain r st3 where a: "output_profiles (stop ?st1) = (r, st3)"
    by (cases "output_profiles (stop ?st1)")
  have q3: "alloc_quiet (stop ?st1) st3"
    using output_profiles_quiet[of "stop ?st1"] a by simp
  have q4: "alloc_quiet st st3"
    using q1 q2 q3 alloc_quiet_trans by blast
  have q5: "alloc_quiet st (start st3)"
    using q4 start_quiet alloc_quiet_trans by blast
  show ?thesis
    using a q4 q5 by (cases r) (simp_all add: periodic_output_def Let_def)
qed

lemma offer_growth_quiet:
  assumes "index \<in> set (t2_val [] (bytei_map st) fname line_no)"
  shows "alloc_quiet st (offer_growth fname line_no st index)"
  using assms
  by (auto simp: offer_growth_def draw_def Let_def alloc_quiet_def t3_val_touch3 t3_offsets_t3_upd)

lemma foldl_offer_growth_quiet:
  assumes "set indices \<subseteq> set (t2_val [] (bytei_map st) fname line_no)"
  shows "alloc_quiet st (foldl (offer_growth fname line_no) st indices)"
proof -
  have "alloc_quiet st s \<Longrightarrow> alloc_quiet st (foldl (offer_growth fname line_no) s indices)" for s
    using assms
  proof (induction indices arbitrary: s)
    case Nil
    then show ?case by simp
  next
    case (Cons i indices)
    have "i \<in> set (t2_val [] (bytei_map s) fname line_no)"
      using Cons.prems by (simp add: alloc_quiet_def)
    then have "alloc_quiet s (offer_growth fname line_no s i)"
      by (rule offer_growth_quiet)
    then have "alloc_quiet st (offer_growth fname line_no s i)"
      using Cons.prems(1) alloc_quiet_trans by blast
    then show ?case
      using Cons.IH[of "offer_growth fname line_no s i"] Cons.prems(2) by simp
  qed
  then show ?thesis using alloc_quiet_refl by blast
qed

lemma attribute_tail_quiet:
  "alloc_quiet s1 (foldl (offer_growth f l) (s1\<lparr>bytei_map := t2_upd [] f l id (bytei_map s1)\<rparr>)
                     (t2_val [] (bytei_map s1) f l))"
proof -
  let ?s2 = "s1\<lparr>bytei_map := t2_upd [] f l id (bytei_map s1)\<rparr>"
  have q1: "alloc_quiet s1 ?s2"
    by (simp add: alloc_quiet_def t2_val_touch)
  have "set (t2_val [] (bytei_map s1) f l) \<subseteq> set (t2_val [] (bytei_map ?s2) f l)"
    by (simp add: t2_val_touch)
  then have q2: "alloc_quiet ?s2 (foldl (offer_growth f l) ?s2 (t2_val [] (bytei_map s1) f l))"
    by (rule foldl_offer_growth_quiet)
  show ?thesis using q1 q2 by (rule alloc_quiet_trans)
qed

lemma attribute_frame_quiet:
  "alloc_quiet st (attribute_frame this_frame n python_time c_time st frame)"
proof -
  define s1 where "s1 =
            (if f_ident frame = f_ident this_frame then
               let st' = st\<lparr>cpu_samples_python :=
                              t2_upd 0 (co_filename (f_code frame)) (f_lineno frame)
                                (\<lambda>v. v + python_time / of_nat n) (cpu_samples_python st)\<rparr>
               in st'\<lparr>cpu_samples_c :=
                        t2_upd 0 (co_filename (f_code frame)) (f_lineno frame)
                          (\<lambda>v. v + c_time / of_nat n) (cpu_samples_c st')\<rparr>
             else if is_call_function (f_code frame) (f_lasti frame) then
               st\<lparr>cpu_samples_c :=
                    t2_upd 0 (co_filename (f_code frame)) (f_lineno frame)
                      (\<lambda>v. v + (python_time + c_time) / of_nat n) (cpu_samples_c st)\<rparr>
             else
               st\<lparr>cpu_samples_python :=
                    t2_upd 0 (co_filename (f_code frame)) (f_lineno frame)
                      (\<lambda>v. v + (python_time + c_time) / of_nat n) (cpu_samples_python st)\<rparr>)"
  have eq: "attribute_frame this_frame n python_time c_time st frame
        = foldl (offer_growth (co_filename (f_code frame)) (f_lineno frame))
            (s1\<lparr>bytei_map := t2_upd [] (co_filename (f_code frame)) (f_lineno frame) id (bytei_map s1)\<rparr>)
            (t2_val [] (bytei_map s1) (co_filename (f_code frame)) (f_lineno frame))"
    unfolding attribute_frame_def s1_def by (simp only: Let_def)
  have q1: "alloc_quiet st s1"
    unfolding s1_def by (simp add: alloc_quiet_def Let_def)
  show ?thesis
    unfolding eq using q1 attribute_tail_quiet by (rule alloc_quiet_trans)
qed

lemma foldl_attribute_frame_quiet:
  "alloc_quiet st (foldl (attribute_frame this_frame n python_time c_time) st frames)"
proof -
  have "alloc_quiet st s \<Longrightarrow>
        alloc_quiet st (foldl (attribute_frame this_frame n python_time c_time) s frames)" for s
  proof (induction frames arbitrary: s)
    case Nil
    then show ?case by simp
  next
    case (Cons fr frames)
    have "alloc_quiet st (attribute_frame this_frame n python_time c_time s fr)"
      using Cons.prems attribute_frame_quiet alloc_quiet_trans by blast
    then show ?case using Cons.IH by simp
  qed
  then show ?thesis using alloc_quiet_refl by blast
qed

lemma offer_footprint_quiet: "alloc_quiet st (offer_footprint now st)"
  by (simp add: offer_footprint_def draw_def Let_def alloc_quiet_def)

lemma funpow_offer_footprint_quiet: "alloc_quiet st ((offer_footprint now ^^ k) st)"
proof (induction k)
  case 0
  then show ?case by (simp add: alloc_quiet_refl)
next
  case (Suc k)
  have "alloc_quiet ((offer_footprint now ^^ k) st) (offer_footprint now ((offer_footprint now ^^ k) st))"
    by (rule offer_footprint_quiet)
  then have "alloc_quiet st (offer_footprint now ((offer_footprint now ^^ k) st))"
    using Suc alloc_quiet_trans by blast
  then show ?case by simp
qed

lemma cpu_tail_quiet:
  "alloc_quiet s
     (snd (if last_signal_interval s = 0 then (Some ZeroDivisionError, s)
           else
             let total_samples_to_record = py_int (py_round (e / last_signal_interval s));
                 st3 = ((offer_footprint now) ^^ nat total_samples_to_record) s;
                 (t, st4) = gettime st3
             in (None, st4\<lparr>last_signal_time := t\<rparr>)))"
proof (cases "last_signal_interval s = 0")
  case True
  then show ?thesis by (simp add: alloc_quiet_refl)
next
  case False
  define k where "k = nat (py_int (py_round (e / last_signal_interval s)))"
  define s3 where "s3 = ((offer_footprint now) ^^ k) s"
  have q: "alloc_quiet s s3" unfolding s3_def by (rule funpow_offer_footprint_quiet)
  have q': "alloc_quiet s3 (s3\<lparr>time_reads := time_reads s3 + 1, last_signal_time := t\<rparr>)" for t
    by (simp add: alloc_quiet_def)
  have "snd (if last_signal_interval s = 0 then (Some ZeroDivisionError, s)
           else
             let total_samples_to_record = py_int (py_round (e / last_signal_interval s));
                 st3 = ((offer_footprint now) ^^ nat total_samples_to_record) s;
                 (t, st4) = gettime st3
             in (None, st4\<lparr>last_signal_time := t\<rparr>))
        = s3\<lparr>time_reads := time_reads s3 + 1, last_signal_time := time_source s3 (time_reads s3)\<rparr>"
    using False by (simp add: Let_def gettime_def s3_def k_def)
  then show ?thesis using q q' alloc_quiet_trans by metis
qed

lemma cpu_attribution_quiet:
  "alloc_quiet st (snd (cpu_attribution now this_frame thread_frames st))"
proof (cases "retained_frames (cwd st) (program_path st) (Some this_frame # thread_frames)")
  case (Inl e)
  then show ?thesis by (simp add: cpu_attribution_def Let_def alloc_quiet_refl)
next
  case (Inr new_frames)
  define c_time where "c_time = (if now - last_signal_time st - last_signal_interval st < 0 then 0
                                 else now - last_signal_time st - last_signal_interval st)"
  define st1 where "st1 = foldl (attribute_frame this_frame (length new_frames)
                                   (last_signal_interval st) c_time) st new_frames"
  define st2 where "st2 = st1\<lparr>total_cpu_samples := total_cpu_samples st1
                                 + (last_signal_interval st + c_time)\<rparr>"
  have q1: "alloc_quiet st st1" unfolding st1_def by (rule foldl_attribute_frame_quiet)
  have q2: "alloc_quiet st1 st2" by (simp add: st2_def alloc_quiet_def)
  have q12: "alloc_quiet st st2" using q1 q2 alloc_quiet_trans by blast
  have eq: "cpu_attribution now this_frame thread_frames st
        = (if last_signal_interval st2 = 0 then (Some ZeroDivisionError, st2)
           else
             let total_samples_to_record =
                   py_int (py_round ((now - last_signal_time st) / last_signal_interval st2));
                 st3 = ((offer_footprint now) ^^ nat total_samples_to_record) st2;
                 (t, st4) = gettime st3
             in (None, st4\<lparr>last_signal_time := t\<rparr>))"
    unfolding cpu_attribution_def st2_def st1_def c_time_def
    by (simp only: Let_def Inr sum.case)
  show ?thesis
    unfolding eq using q12 cpu_tail_quiet alloc_quiet_trans by blast
qed

lemma cpu_signal_handler_quiet:
  "alloc_quiet st (snd (cpu_signal_handler this_frame thread_frames st))"
proof -
  obtain now st0 where g: "gettime st = (now, st0)" by (cases "gettime st")
  have q0: "alloc_quiet st st0" using g by (auto simp: gettime_def alloc_quiet_def)
  let ?c = "(case next_output_time st0 of None \<Rightarrow> False | Some t \<Rightarrow> now \<ge> t)"
  obtain r st1 where p: "(if ?c then periodic_output st0 else (None, st0)) = (r, st1)"
    by (cases "(if ?c then periodic_output st0 else (None, st0))")
  have q1: "alloc_quiet st0 st1"
    using p periodic_output_quiet[of st0] alloc_quiet_refl[of st0]
    by (auto split: if_splits)
  have q01: "alloc_quiet st st1" using q0 q1 alloc_quiet_trans by blast
  have q2: "alloc_quiet st (snd (cpu_attribution now this_frame thread_frames st1))"
    using q01 cpu_attribution_quiet alloc_quiet_trans by blast
  show ?thesis
    using g p q01 q2 by (cases r) (simp_all add: cpu_signal_handler_def)
qed

subsection \<open>Footprint and peak\<close>

lemma alloc_line_fp:
  assumes "fp_inv st" and "is_malloc \<or> 0 \<le> c"
  shows "fp_inv (alloc_line f l b is_malloc c st)
       \<and> max_footprint (alloc_line f l b is_malloc c st)
         = max (max_footprint st) (current_footprint (alloc_line f l b is_malloc c st))"
  using assms by (cases is_malloc) (auto simp: fp_inv_def alloc_line_def Let_def)

lemma drain_lines_fp:
  assumes "fp_inv st" and "byte_counts_ok ls"
  shows "fp_inv (snd (drain_lines f l b m ls st))
       \<and> max_footprint (snd (drain_lines f l b m ls st))
         = fold max (drain_footprints f l b m ls st) (max_footprint st)"
  using assms
proof (induction f l b m ls st rule: drain_lines.induct)
  case (1 fname line_no bytei is_malloc st)
  then show ?case by simp
next
  case (2 fname line_no bytei is_malloc ls st)
  then show ?case by simp
next
  case (3 fname line_no bytei is_malloc v ls st)
  let ?st' = "alloc_line fname line_no bytei is_malloc (v / (1024 * 1024)) st"
  have v: "0 \<le> v / (1024 * 1024)" and ok: "byte_counts_ok ls"
    using "3.prems"(2) by (simp_all add: byte_counts_ok_def)
  have a: "fp_inv ?st'"
    "max_footprint ?st' = max (max_footprint st) (current_footprint ?st')"
    using alloc_line_fp[OF "3.prems"(1), of is_malloc "v / (1024 * 1024)" fname line_no bytei] v
    by simp_all
  have ih: "fp_inv (snd (drain_lines fname line_no bytei is_malloc ls ?st'))
       \<and> max_footprint (snd (drain_lines fname line_no bytei is_malloc ls ?st'))
         = fold max (drain_footprints fname line_no bytei is_malloc ls ?st') (max_footprint ?st')"
    using "3.IH"[OF a(1) ok] .
  show ?case using ih a(2) by (simp add: Let_def max.commute)
qed

lemma fp_inv_cong:
  assumes "fp_inv st"
      and "current_footprint st' = current_footprint st"
      and "max_footprint st' = max_footprint st"
      and "total_memory_malloc_samples st' = total_memory_malloc_samples st"
      and "total_memory_free_samples st' = total_memory_free_samples st"
  shows "fp_inv st'"
  using assms by (simp add: fp_inv_def)

lemma helper_fp:
  assumes "fp_inv st" and "bridge_ok st"
  shows "fp_inv (alloc_handler_helper f l b m st)
       \<and> max_footprint (alloc_handler_helper f l b m st)
         = fold max (helper_footprints f l b m st) (max_footprint st)
       \<and> bridge_ok (alloc_handler_helper f l b m st)"
proof -
  let ?filename = "(if m then malloc_signal_filename st else free_signal_filename st)"
  let ?st1 = "(if m then st\<lparr>memory_malloc_samples := t2_upd [] f l id (memory_malloc_samples st)\<rparr>
               else st\<lparr>memory_free_samples := t2_upd [] f l id (memory_free_samples st)\<rparr>)"
  have i1: "fp_inv ?st1" using assms(1) by (simp add: fp_inv_def)
  have b1: "bridge_files ?st1 = bridge_files st" "max_footprint ?st1 = max_footprint st" by simp_all
  show ?thesis
  proof (cases "bridge_files st ?filename")
    case None
    then have e: "alloc_handler_helper f l b m st = ?st1"
      using helper_missing[of st m f l b] by simp
    have h: "helper_footprints f l b m st = []"
      using None by (cases m) (simp_all add: helper_footprints_def Let_def)
    have "bridge_ok ?st1" using assms(2) by (simp add: bridge_ok_def)
    then show ?thesis using i1 by (simp add: e h)
  next
    case (Some ls)
    have ok: "byte_counts_ok ls" using assms(2) Some by (simp add: bridge_ok_def)
    obtain r s2 where d: "drain_lines f l b m ls ?st1 = (r, s2)"
      by (cases "drain_lines f l b m ls ?st1")
    have fp2: "fp_inv s2" "max_footprint s2 = fold max (drain_footprints f l b m ls ?st1) (max_footprint st)"
      using drain_lines_fp[OF i1 ok, of f l b m] d by simp_all
    have fr2: "bridge_files s2 = bridge_files st"
      using drain_lines_frame[of f l b m ls ?st1] d by simp
    have h: "helper_footprints f l b m st = drain_footprints f l b m ls ?st1"
      using Some by (cases m) (simp_all add: helper_footprints_def Let_def)
    let ?res = "alloc_handler_helper f l b m st"
    have sc: "current_footprint ?res = current_footprint s2"
         "max_footprint ?res = max_footprint s2"
         "total_memory_malloc_samples ?res = total_memory_malloc_samples s2"
         "total_memory_free_samples ?res = total_memory_free_samples s2"
      using Some d unfolding alloc_handler_helper_def
      by (cases m; cases r; simp add: Let_def)+
    have bf: "bridge_files ?res = bridge_files st
              \<or> bridge_files ?res = (bridge_files st)(?filename := None)"
      using Some d fr2 unfolding alloc_handler_helper_def
      by (cases m; cases r; simp add: Let_def)
    have bo: "bridge_ok ?res"
      using bf assms(2) by (auto simp: bridge_ok_def split: if_splits)
    show ?thesis
      using fp_inv_cong[OF fp2(1) sc] sc(2) fp2(2) h bo by simp
  qed
qed

lemma allocation_handler_fp:
  assumes "fp_inv st" and "bridge_ok st" and "allocation_handler frame st = Inr st'"
  shows "fp_inv st'
       \<and> max_footprint st' = fold max (handler_footprints frame st) (max_footprint st)
       \<and> bridge_ok st'"
proof (cases "should_trace (cwd st) (program_path st) (co_filename (f_code frame))")
  case (Inl e)
  then show ?thesis using assms(3) by (simp add: allocation_handler_def)
next
  case (Inr tr)
  show ?thesis
  proof (cases tr)
    case False
    then show ?thesis
      using Inr assms by (simp add: allocation_handler_def handler_footprints_def)
  next
    case True
    let ?f = "co_filename (f_code frame)"
    let ?l = "f_lineno frame"
    let ?b = "f_lasti frame"
    let ?st1 = "st\<lparr>bytei_map := t2_upd [] ?f ?l (\<lambda>s. if ?b \<in> set s then s else s @ [?b]) (bytei_map st)\<rparr>"
    let ?st2 = "alloc_handler_helper ?f ?l ?b True ?st1"
    have i1: "fp_inv ?st1" "bridge_ok ?st1" "max_footprint ?st1 = max_footprint st"
      using assms(1,2) by (simp_all add: fp_inv_def bridge_ok_def)
    note h1 = helper_fp[OF i1(1) i1(2), of ?f ?l ?b True]
    have i2: "fp_inv ?st2" "bridge_ok ?st2" using h1 by simp_all
    note h2 = helper_fp[OF i2, of ?f ?l ?b False]
    have e: "st' = alloc_handler_helper ?f ?l ?b False ?st2"
      using assms(3) Inr True by (simp add: allocation_handler_def Let_def)
    have hf: "handler_footprints frame st
          = helper_footprints ?f ?l ?b True ?st1 @ helper_footprints ?f ?l ?b False ?st2"
      using Inr True by (simp add: handler_footprints_def Let_def)
    show ?thesis
      unfolding e hf using h1 h2 i1(3) by simp
  qed
qed

lemma alloc_quiet_fp:
  assumes "alloc_quiet st st'" and "fp_inv st" and "bridge_ok st"
  shows "fp_inv st' \<and> max_footprint st' = max_footprint st \<and> bridge_ok st'"
  using assms by (simp add: alloc_quiet_def fp_inv_def bridge_ok_def)

lemma byte_counts_ok_append:
  "byte_counts_ok (xs @ ys) = (byte_counts_ok xs \<and> byte_counts_ok ys)"
  by (simp add: byte_counts_ok_def)

lemma allocator_appends_fp:
  assumes "fp_inv st" and "bridge_ok st" and "byte_counts_ok ls"
  shows "fp_inv (allocator_appends m ls st)
       \<and> max_footprint (allocator_appends m ls st) = max_footprint st
       \<and> bridge_ok (allocator_appends m ls st)"
  using assms
  by (auto simp: allocator_appends_def Let_def fp_inv_def bridge_ok_def byte_counts_ok_append
           byte_counts_ok_def split: option.splits)

lemma deliver_fp:
  assumes "fp_inv st" and "bridge_ok st" and "event_ok ev"
  shows "fp_inv (deliver st ev)
       \<and> max_footprint (deliver st ev) = fold max (event_footprints st ev) (max_footprint st)
       \<and> bridge_ok (deliver st ev)"
proof (cases ev)
  case (AllocatorWrites m ls)
  then show ?thesis
    using allocator_appends_fp[OF assms(1,2), of ls m] assms(3) by (simp add: event_ok_def)
next
  case (MallocSignal frame)
  show ?thesis
  proof (cases "allocation_handler frame st")
    case (Inl e)
    then have "handler_footprints frame st = []"
      by (auto simp: allocation_handler_def handler_footprints_def Let_def
               split: sum.splits bool.splits)
    then show ?thesis using Inl MallocSignal assms
      by (simp add: malloc_event_signal_handler_def)
  next
    case (Inr st')
    then show ?thesis
      using allocation_handler_fp[OF assms(1,2) Inr] MallocSignal
      by (simp add: malloc_event_signal_handler_def)
  qed
next
  case (FreeSignal frame)
  show ?thesis
  proof (cases "allocation_handler frame st")
    case (Inl e)
    then have "handler_footprints frame st = []"
      by (auto simp: allocation_handler_def handler_footprints_def Let_def
               split: sum.splits bool.splits)
    then show ?thesis using Inl FreeSignal assms
      by (simp add: free_event_signal_handler_def)
  next
    case (Inr st')
    then show ?thesis
      using allocation_handler_fp[OF assms(1,2) Inr] FreeSignal
      by (simp add: free_event_signal_handler_def)
  qed
next
  case (CpuSignal this_frame thread_frames)
  then show ?thesis
    using alloc_quiet_fp[OF cpu_signal_handler_quiet assms(1,2), of this_frame thread_frames]
    by simp
qed

lemma run_fp:
  assumes "fp_inv st" and "bridge_ok st" and "\<forall>ev \<in> set evs. event_ok ev"
  shows "fp_inv (run evs st)
       \<and> max_footprint (run evs st) = fold max (run_footprints evs st) (max_footprint st)"
  using assms
proof (induction evs arbitrary: st)
  case Nil
  then show ?case by (simp add: run_def)
next
  case (Cons ev evs)
  have d: "fp_inv (deliver st ev)" "bridge_ok (deliver st ev)"
     "max_footprint (deliver st ev) = fold max (event_footprints st ev) (max_footprint st)"
    using deliver_fp[OF Cons.prems(1,2), of ev] Cons.prems(3) by simp_all
  have "fp_inv (run evs (deliver st ev))
       \<and> max_footprint (run evs (deliver st ev))
         = fold max (run_footprints evs (deliver st ev)) (max_footprint (deliver st ev))"
    using Cons.IH[OF d(1,2)] Cons.prems(3) by simp
  then show ?case using d(3) by (simp add: run_def)
qed

text \<open>
  C2. Start at rest with the footprint equal to the difference of the two totals and not
  above the peak (as in the initial state, where all are zero), and let the allocator
  write byte counts (numbers that are not negative). After any sequence of deliveries, of
  the malloc and free signals and of the CPU signal, \<open>current_footprint\<close> equals
  \<open>total_memory_malloc_samples - total_memory_free_samples\<close>, and \<open>max_footprint\<close> is
  the maximum of its initial value and of every value the footprint has taken since; in
  particular it is not below the footprint.
\<close>

theorem footprint_is_difference_and_peak:
  assumes "current_footprint st = total_memory_malloc_samples st - total_memory_free_samples st"
      and "current_footprint st \<le> max_footprint st"
      and "bridge_ok st"
      and "\<forall>ev \<in> set evs. event_ok ev"
  shows "current_footprint (run evs st)
         = total_memory_malloc_samples (run evs st) - total_memory_free_samples (run evs st)
       \<and> max_footprint (run evs st) = Max (set (max_footprint st # run_footprints evs st))
       \<and> current_footprint (run evs st) \<le> max_footprint (run evs st)"
proof -
  have "fp_inv st" using assms(1,2) by (simp add: fp_inv_def)
  then have r: "fp_inv (run evs st)"
     "max_footprint (run evs st) = fold max (run_footprints evs st) (max_footprint st)"
    using run_fp[OF _ assms(3,4)] by simp_all
  have "fold max (run_footprints evs st) (max_footprint st)
        = Max (set (max_footprint st # run_footprints evs st))"
    by (simp only: Max.set_eq_fold)
  then show ?thesis using r by (simp add: fp_inv_def)
qed

theorem footprint_is_difference_and_peak_witness:
  "current_footprint (run peak_scenario profiled_state) = 80
   \<and> total_memory_malloc_samples (run peak_scenario profiled_state)
     - total_memory_free_samples (run peak_scenario profiled_state) = 80
   \<and> max_footprint (run peak_scenario profiled_state) = 100
   \<and> Max (set (max_footprint profiled_state # run_footprints peak_scenario profiled_state)) = 100"
proof -
  have h1: "current_footprint profiled_state
            = total_memory_malloc_samples profiled_state - total_memory_free_samples profiled_state"
    by (simp add: profiled_state_def initial_state_def)
  have h2: "current_footprint profiled_state \<le> max_footprint profiled_state"
    by (simp add: profiled_state_def initial_state_def)
  have h3: "bridge_ok profiled_state"
    by (simp add: bridge_ok_def profiled_state_def initial_state_def)
  have h4: "\<forall>ev \<in> set peak_scenario. event_ok ev"
    by (simp add: peak_scenario_def event_ok_def byte_counts_ok_def)
  have v: "current_footprint (run peak_scenario profiled_state) = 80"
          "max_footprint (run peak_scenario profiled_state) = 100"
    by code_simp+
  show ?thesis
    using footprint_is_difference_and_peak [OF h1 h2 h3 h4] v by simp
qed

subsection \<open>Known offsets\<close>

lemma alloc_line_offsets:
  "bytei_map (alloc_line f l b m c st) = bytei_map st
   \<and> t3_offsets (memory_malloc_samples (alloc_line f l b m c st)) f' l'
       \<subseteq> t3_offsets (memory_malloc_samples st) f' l' \<union> (if f' = f \<and> l' = l then {b} else {})
   \<and> t3_offsets (memory_free_samples (alloc_line f l b m c st)) f' l'
       \<subseteq> t3_offsets (memory_free_samples st) f' l' \<union> (if f' = f \<and> l' = l then {b} else {})"
  by (cases m) (auto simp: alloc_line_def Let_def t3_offsets_t3_upd)

lemma drain_lines_offsets:
  "bytei_map (snd (drain_lines f l b m ls st)) = bytei_map st
   \<and> t3_offsets (memory_malloc_samples (snd (drain_lines f l b m ls st))) f' l'
       \<subseteq> t3_offsets (memory_malloc_samples st) f' l' \<union> (if f' = f \<and> l' = l then {b} else {})
   \<and> t3_offsets (memory_free_samples (snd (drain_lines f l b m ls st))) f' l'
       \<subseteq> t3_offsets (memory_free_samples st) f' l' \<union> (if f' = f \<and> l' = l then {b} else {})"
proof (induction f l b m ls st rule: drain_lines.induct)
  case (1 fname line_no bytei is_malloc st)
  then show ?case by simp
next
  case (2 fname line_no bytei is_malloc ls st)
  then show ?case by simp
next
  case (3 fname line_no bytei is_malloc v ls st)
  let ?st' = "alloc_line fname line_no bytei is_malloc (v / (1024 * 1024)) st"
  note a = alloc_line_offsets[of fname line_no bytei is_malloc "v / (1024 * 1024)" st f' l']
  show ?case using "3.IH" a by (simp split: if_splits) blast+
qed

lemma helper_offsets:
  "bytei_map (alloc_handler_helper f l b m st) = bytei_map st
   \<and> t3_offsets (memory_malloc_samples (alloc_handler_helper f l b m st)) f' l'
       \<subseteq> t3_offsets (memory_malloc_samples st) f' l' \<union> (if f' = f \<and> l' = l then {b} else {})
   \<and> t3_offsets (memory_free_samples (alloc_handler_helper f l b m st)) f' l'
       \<subseteq> t3_offsets (memory_free_samples st) f' l' \<union> (if f' = f \<and> l' = l then {b} else {})"
proof -
  let ?filename = "(if m then malloc_signal_filename st else free_signal_filename st)"
  let ?st1 = "(if m then st\<lparr>memory_malloc_samples := t2_upd [] f l id (memory_malloc_samples st)\<rparr>
               else st\<lparr>memory_free_samples := t2_upd [] f l id (memory_free_samples st)\<rparr>)"
  have o1: "bytei_map ?st1 = bytei_map st"
     "t3_offsets (memory_malloc_samples ?st1) f' l' = t3_offsets (memory_malloc_samples st) f' l'"
     "t3_offsets (memory_free_samples ?st1) f' l' = t3_offsets (memory_free_samples st) f' l'"
    by (simp_all add: t3_offsets_touch2)
  show ?thesis
  proof (cases "bridge_files st ?filename")
    case None
    then have e: "alloc_handler_helper f l b m st = ?st1"
      using helper_missing[of st m f l b] by simp
    show ?thesis unfolding e using o1 by simp
  next
    case (Some ls)
    obtain r s2 where d: "drain_lines f l b m ls ?st1 = (r, s2)"
      by (cases "drain_lines f l b m ls ?st1")
    note dl = drain_lines_offsets[of f l b m ls ?st1 f' l']
    let ?res = "alloc_handler_helper f l b m st"
    have sc: "bytei_map ?res = bytei_map s2"
         "memory_malloc_samples ?res = memory_malloc_samples s2"
         "memory_free_samples ?res = memory_free_samples s2"
      using Some d unfolding alloc_handler_helper_def
      by (cases m; cases r; simp add: Let_def)+
    show ?thesis
      unfolding sc using dl d o1 by simp
  qed
qed

lemma allocation_handler_known_offsets:
  assumes "known_offsets_inv st" and "allocation_handler frame st = Inr st'"
  shows "known_offsets_inv st'"
proof (cases "should_trace (cwd st) (program_path st) (co_filename (f_code frame))")
  case (Inl e)
  then show ?thesis using assms(2) by (simp add: allocation_handler_def)
next
  case (Inr tr)
  show ?thesis
  proof (cases tr)
    case False
    then show ?thesis using Inr assms by (simp add: allocation_handler_def)
  next
    case True
    let ?f = "co_filename (f_code frame)"
    let ?l = "f_lineno frame"
    let ?b = "f_lasti frame"
    let ?st1 = "st\<lparr>bytei_map := t2_upd [] ?f ?l (\<lambda>s. if ?b \<in> set s then s else s @ [?b]) (bytei_map st)\<rparr>"
    let ?st2 = "alloc_handler_helper ?f ?l ?b True ?st1"
    have e: "st' = alloc_handler_helper ?f ?l ?b False ?st2"
      using assms(2) Inr True by (simp add: allocation_handler_def Let_def)
    have bm: "set (t2_val [] (bytei_map ?st1) f l)
              = set (t2_val [] (bytei_map st) f l) \<union> (if f = ?f \<and> l = ?l then {?b} else {})" for f l
      by (auto simp: t2_val_t2_upd)
    show ?thesis
      unfolding known_offsets_inv_def
    proof (intro allI)
      fix f l
      note h1 = helper_offsets[of ?f ?l ?b True ?st1 f l]
      note h2 = helper_offsets[of ?f ?l ?b False ?st2 f l]
      have i: "t3_offsets (memory_malloc_samples st) f l \<union> t3_offsets (memory_free_samples st) f l
               \<subseteq> set (t2_val [] (bytei_map st) f l)"
        using assms(1) by (simp add: known_offsets_inv_def)
      have m: "t3_offsets (memory_malloc_samples st') f l
               \<subseteq> t3_offsets (memory_malloc_samples st) f l \<union> (if f = ?f \<and> l = ?l then {?b} else {})"
        unfolding e using h1 h2 by (simp split: if_splits) blast+
      have fr: "t3_offsets (memory_free_samples st') f l
               \<subseteq> t3_offsets (memory_free_samples st) f l \<union> (if f = ?f \<and> l = ?l then {?b} else {})"
        unfolding e using h1 h2 by (simp split: if_splits) blast+
      have b': "bytei_map st' = bytei_map ?st1"
        unfolding e using h1 h2 by simp
      show "t3_offsets (memory_malloc_samples st') f l \<union> t3_offsets (memory_free_samples st') f l
            \<subseteq> set (t2_val [] (bytei_map st') f l)"
        unfolding b' bm using m fr i by (simp split: if_splits) blast+
    qed
  qed
qed

lemma alloc_quiet_known_offsets:
  assumes "alloc_quiet st st'" and "known_offsets_inv st"
  shows "known_offsets_inv st'"
  unfolding known_offsets_inv_def
proof (intro allI)
  fix f l
  have "t3_offsets (memory_malloc_samples st') f l
        \<subseteq> t3_offsets (memory_malloc_samples st) f l \<union> set (t2_val [] (bytei_map st) f l)"
       "t3_offsets (memory_free_samples st') f l
        \<subseteq> t3_offsets (memory_free_samples st) f l \<union> set (t2_val [] (bytei_map st) f l)"
       "t2_val [] (bytei_map st') f l = t2_val [] (bytei_map st) f l"
    using assms(1) by (simp_all add: alloc_quiet_def)
  moreover have "t3_offsets (memory_malloc_samples st) f l \<union> t3_offsets (memory_free_samples st) f l
               \<subseteq> set (t2_val [] (bytei_map st) f l)"
    using assms(2) by (simp add: known_offsets_inv_def)
  ultimately show "t3_offsets (memory_malloc_samples st') f l \<union> t3_offsets (memory_free_samples st') f l
            \<subseteq> set (t2_val [] (bytei_map st') f l)"
    by auto
qed

lemma deliver_known_offsets:
  assumes "known_offsets_inv st"
  shows "known_offsets_inv (deliver st ev)"
proof (cases ev)
  case (AllocatorWrites m ls)
  then show ?thesis using assms
    by (simp add: allocator_appends_def Let_def known_offsets_inv_def)
next
  case (MallocSignal frame)
  then show ?thesis
    using assms allocation_handler_known_offsets[OF assms, of frame]
    by (cases "allocation_handler frame st") (simp_all add: malloc_event_signal_handler_def)
next
  case (FreeSignal frame)
  then show ?thesis
    using assms allocation_handler_known_offsets[OF assms, of frame]
    by (cases "allocation_handler frame st") (simp_all add: free_event_signal_handler_def)
next
  case (CpuSignal this_frame thread_frames)
  then show ?thesis
    using alloc_quiet_known_offsets[OF cpu_signal_handler_quiet assms, of this_frame thread_frames]
    by simp
qed

lemma run_known_offsets:
  assumes "known_offsets_inv st"
  shows "known_offsets_inv (run evs st)"
  using assms
proof (induction evs arbitrary: st)
  case Nil
  then show ?case by (simp add: run_def)
next
  case (Cons ev evs)
  have "known_offsets_inv (run evs (deliver st ev))"
    using Cons.IH deliver_known_offsets[OF Cons.prems] by blast
  then show ?case by (simp add: run_def)
qed

text \<open>
  C7. Start from a state in which every offset that is a key of the malloc or free table
  is a known offset of its file and line (the initial state, where the tables are empty).
  After any sequence of deliveries, of the malloc, free and CPU signals with the reports
  the CPU handler prints, every offset that is a key under the malloc-samples or the
  free-samples table at a file and line is in \<open>bytei_map\<close> at that file and line.
\<close>

theorem table_offsets_are_known:
  assumes "known_offsets_inv st"
  shows "\<forall>f l b. b \<in> t3_offsets (memory_malloc_samples (run evs st)) f l
                    \<union> t3_offsets (memory_free_samples (run evs st)) f l
                \<longrightarrow> b \<in> set (t2_val [] (bytei_map (run evs st)) f l)"
  using run_known_offsets[OF assms, of evs] by (auto simp: known_offsets_inv_def)

theorem table_offsets_are_known_witness:
  "known_offsets_inv profiled_state
   \<and> 10 \<in> t3_offsets (memory_malloc_samples (run peak_scenario profiled_state)) ''/p/a.py'' 3
   \<and> 10 \<in> set (t2_val [] (bytei_map (run peak_scenario profiled_state)) ''/p/a.py'' 3)"
proof -
  have h: "known_offsets_inv profiled_state"
    by (simp add: known_offsets_inv_def profiled_state_def initial_state_def t3_offsets_def
          dict_keys_def dd_val_def)
  have k: "10 \<in> t3_offsets (memory_malloc_samples (run peak_scenario profiled_state)) ''/p/a.py'' 3"
    by code_simp
  show ?thesis
    using table_offsets_are_known [OF h, of peak_scenario] h k by blast
qed

subsection \<open>Sampler: the shares of a tick\<close>

lemma cpu_signal_handler_no_report:
  assumes "next_output_time st = None"
  shows "cpu_signal_handler this_frame thread_frames st
         = cpu_attribution (time_source st (time_reads st)) this_frame thread_frames
             (st\<lparr>time_reads := time_reads st + 1\<rparr>)"
  using assms by (simp add: cpu_signal_handler_def gettime_def)









subsection \<open>Reporter: what a report reads and what it leaves behind\<close>

lemma view_eqD:
  assumes "view_of st' = view_of st"
  shows "total_cpu_samples st' = total_cpu_samples st"
    and "total_memory_malloc_samples st' = total_memory_malloc_samples st"
    and "total_memory_free_samples st' = total_memory_free_samples st"
    and "max_footprint st' = max_footprint st"
    and "elapsed_time st' = elapsed_time st"
    and "source_files st' = source_files st"
    and "set (all_instrumented_files st') = set (all_instrumented_files st)"
    and "sum_list (dict_values (dd_val [] (cpu_samples_c st') f))
         = sum_list (dict_values (dd_val [] (cpu_samples_c st) f))"
    and "sum_list (dict_values (dd_val [] (cpu_samples_python st') f))
         = sum_list (dict_values (dd_val [] (cpu_samples_python st) f))"
    and "t2_val 0 (cpu_samples_c st') f l = t2_val 0 (cpu_samples_c st) f l"
    and "t2_val 0 (cpu_samples_python st') f l = t2_val 0 (cpu_samples_python st) f l"
    and "t2_val [] (bytei_map st') f l = t2_val [] (bytei_map st) f l"
    and "t3_val 0 (memory_malloc_samples st') f l b = t3_val 0 (memory_malloc_samples st) f l b"
    and "t3_val 0 (memory_malloc_count st') f l b = t3_val 0 (memory_malloc_count st) f l b"
    and "t3_val 0 (memory_free_samples st') f l b = t3_val 0 (memory_free_samples st) f l b"
    and "t3_val 0 (memory_free_count st') f l b = t3_val 0 (memory_free_count st) f l b"
    and "sort (items (t2_val (new_reservoir 10) (per_line_footprint_samples st') f l))
         = sort (items (t2_val (new_reservoir 10) (per_line_footprint_samples st) f l))"
    and "sort (items (memory_footprint_samples st')) = sort (items (memory_footprint_samples st))"
proof -
  have a: "sel (view_of st') = sel (view_of st)" for sel :: "report_view \<Rightarrow> 'x"
    using assms by simp
  show "total_cpu_samples st' = total_cpu_samples st"
    using a[of rv_total_cpu] by (simp add: view_of_def)
  show "total_memory_malloc_samples st' = total_memory_malloc_samples st"
    using a[of rv_total_malloc] by (simp add: view_of_def)
  show "total_memory_free_samples st' = total_memory_free_samples st"
    using a[of rv_total_free] by (simp add: view_of_def)
  show "max_footprint st' = max_footprint st"
    using a[of rv_max_footprint] by (simp add: view_of_def)
  show "elapsed_time st' = elapsed_time st"
    using a[of rv_elapsed] by (simp add: view_of_def)
  show "source_files st' = source_files st"
    using a[of rv_sources] by (simp add: view_of_def)
  show "set (all_instrumented_files st') = set (all_instrumented_files st)"
    using a[of rv_files] by (simp add: view_of_def)
  show "sum_list (dict_values (dd_val [] (cpu_samples_c st') f))
         = sum_list (dict_values (dd_val [] (cpu_samples_c st) f))"
    using a[of rv_sum_c] by (simp add: view_of_def fun_eq_iff)
  show "sum_list (dict_values (dd_val [] (cpu_samples_python st') f))
         = sum_list (dict_values (dd_val [] (cpu_samples_python st) f))"
    using a[of rv_sum_python] by (simp add: view_of_def fun_eq_iff)
  show "t2_val 0 (cpu_samples_c st') f l = t2_val 0 (cpu_samples_c st) f l"
    using a[of rv_cpu_c] by (simp add: view_of_def)
  show "t2_val 0 (cpu_samples_python st') f l = t2_val 0 (cpu_samples_python st) f l"
    using a[of rv_cpu_python] by (simp add: view_of_def)
  show "t2_val [] (bytei_map st') f l = t2_val [] (bytei_map st) f l"
    using a[of rv_offsets] by (simp add: view_of_def)
  show "t3_val 0 (memory_malloc_samples st') f l b = t3_val 0 (memory_malloc_samples st) f l b"
    using a[of rv_malloc] by (simp add: view_of_def)
  show "t3_val 0 (memory_malloc_count st') f l b = t3_val 0 (memory_malloc_count st) f l b"
    using a[of rv_malloc_count] by (simp add: view_of_def)
  show "t3_val 0 (memory_free_samples st') f l b = t3_val 0 (memory_free_samples st) f l b"
    using a[of rv_free] by (simp add: view_of_def)
  show "t3_val 0 (memory_free_count st') f l b = t3_val 0 (memory_free_count st) f l b"
    using a[of rv_free_count] by (simp add: view_of_def)
  show "sort (items (t2_val (new_reservoir 10) (per_line_footprint_samples st') f l))
         = sort (items (t2_val (new_reservoir 10) (per_line_footprint_samples st) f l))"
    using a[of rv_line_samples] by (simp add: view_of_def fun_eq_iff)
  show "sort (items (memory_footprint_samples st')) = sort (items (memory_footprint_samples st))"
    using a[of rv_footprint_samples] by (simp add: view_of_def)
qed

text \<open>Touching a table leaves the view of it as it was.\<close>

lemma update_same_value:
  "AList.update k (case map_of d k of None \<Rightarrow> dflt | Some v \<Rightarrow> v) d
   = (if k \<in> fst ` set d then d else d @ [(k, dflt)])"
proof (induction d)
  case Nil
  then show ?case by simp
next
  case (Cons p d)
  then show ?case by (cases p) auto
qed

lemma dd_upd_id_cases:
  "dd_upd dflt k id d = (if k \<in> set (dict_keys d) then d else d @ [(k, dflt)])"
  using update_same_value[where k = k and d = d and dflt = dflt] by (simp add: dd_upd_def dd_val_def dict_keys_def)

lemma sum_values_touch:
  "sum_list (dict_values (dd_upd (0::rat) k id d)) = sum_list (dict_values d)"
  by (simp add: dd_upd_id_cases dict_values_def)

lemma sum_values_t2_touch:
  "sum_list (dict_values (dd_val [] (t2_upd (0::rat) f l id t) f'))
   = sum_list (dict_values (dd_val [] t f'))"
  by (simp add: t2_upd_def dd_val_dd_upd sum_values_touch)

lemma keys_t2_upd: "set (dict_keys (t2_upd z f l g t)) = insert f (set (dict_keys t))"
  by (simp add: t2_upd_def dict_keys_dd_upd)

lemma keys_t3_upd: "set (dict_keys (t3_upd z f l b g t)) = insert f (set (dict_keys t))"
  by (simp add: t3_upd_def dict_keys_dd_upd)

lemma all_files_set:
  "set (all_instrumented_files st)
   = set (dict_keys (cpu_samples_python st)) \<union> set (dict_keys (cpu_samples_c st))
     \<union> set (dict_keys (memory_free_samples st)) \<union> set (dict_keys (memory_malloc_samples st))"
  by (auto simp: all_instrumented_files_def)

lemma report_index_view:
  assumes "fname \<in> set (all_instrumented_files st)"
  shows "view_of (snd (report_index fname l (acc, st) i)) = view_of st"
  using assms
  by (auto simp: report_index_def Let_def view_of_def t3_val_touch3 all_files_set keys_t3_upd
           fun_eq_iff)

lemma report_index_cong:
  assumes "view_of st' = view_of st"
  shows "fst (report_index fname l (acc, st') i) = fst (report_index fname l (acc, st) i)"
  using view_eqD(13-16)[OF assms]
  by (simp add: report_index_def Let_def t3_val_touch3)

lemma foldl_report_index_view:
  assumes "fname \<in> set (all_instrumented_files st)"
  shows "view_of (snd (foldl (report_index fname l) (acc, st) is)) = view_of st"
  using assms
proof (induction "is" arbitrary: acc st)
  case Nil
  then show ?case by simp
next
  case (Cons i "is")
  obtain a' s' where r: "report_index fname l (acc, st) i = (a', s')"
    by (cases "report_index fname l (acc, st) i")
  have v: "view_of s' = view_of st"
    using report_index_view[OF Cons.prems, of l acc i] r by simp
  then have "fname \<in> set (all_instrumented_files s')"
    using Cons.prems view_eqD(7)[OF v] by simp
  then show ?case using Cons.IH[of s' a'] r v by simp
qed

lemma foldl_report_index_cong:
  assumes "view_of st' = view_of st" and "fname \<in> set (all_instrumented_files st)"
  shows "fst (foldl (report_index fname l) (acc, st') is)
         = fst (foldl (report_index fname l) (acc, st) is)"
  using assms
proof (induction "is" arbitrary: acc st st')
  case Nil
  then show ?case by simp
next
  case (Cons i "is")
  obtain a1 s1 where r: "report_index fname l (acc, st) i = (a1, s1)"
    by (cases "report_index fname l (acc, st) i")
  obtain a2 s2 where r': "report_index fname l (acc, st') i = (a2, s2)"
    by (cases "report_index fname l (acc, st') i")
  have a: "a2 = a1" using report_index_cong[OF Cons.prems(1), of fname l acc i] r r' by simp
  have m': "fname \<in> set (all_instrumented_files st')"
    using Cons.prems view_eqD(7)[OF Cons.prems(1)] by simp
  have v1: "view_of s1 = view_of st"
    using report_index_view[OF Cons.prems(2), of l acc i] r by simp
  have v2: "view_of s2 = view_of st'"
    using report_index_view[OF m', of l acc i] r' by simp
  have v: "view_of s2 = view_of s1" using v1 v2 Cons.prems(1) by simp
  have m1: "fname \<in> set (all_instrumented_files s1)"
    using Cons.prems(2) view_eqD(7)[OF v1] by simp
  show ?case using Cons.IH[OF v m1, of a1] r r' a by simp
qed

lemma line_memory_stats_view:
  assumes "fname \<in> set (all_instrumented_files st)"
  shows "view_of (snd (line_memory_stats fname l st)) = view_of st"
proof -
  let ?st1 = "st\<lparr>bytei_map := t2_upd [] fname l id (bytei_map st)\<rparr>"
  have v1: "view_of ?st1 = view_of st"
    by (simp add: view_of_def t2_val_touch fun_eq_iff all_files_set)
  have m1: "fname \<in> set (all_instrumented_files ?st1)"
    using assms view_eqD(7)[OF v1] by simp
  show ?thesis
    using foldl_report_index_view[OF m1] v1 by (simp add: line_memory_stats_def Let_def)
qed

lemma line_memory_stats_cong:
  assumes "view_of st' = view_of st" and "fname \<in> set (all_instrumented_files st)"
  shows "fst (line_memory_stats fname l st') = fst (line_memory_stats fname l st)"
proof -
  let ?st1 = "st\<lparr>bytei_map := t2_upd [] fname l id (bytei_map st)\<rparr>"
  let ?st1' = "st'\<lparr>bytei_map := t2_upd [] fname l id (bytei_map st')\<rparr>"
  have v1: "view_of ?st1 = view_of st"
    by (simp add: view_of_def t2_val_touch fun_eq_iff all_files_set)
  have v1': "view_of ?st1' = view_of st'"
    by (simp add: view_of_def t2_val_touch fun_eq_iff all_files_set)
  have v: "view_of ?st1' = view_of ?st1" using v1 v1' assms(1) by simp
  have m1: "fname \<in> set (all_instrumented_files ?st1)"
    using assms(2) view_eqD(7)[OF v1] by simp
  have i: "t2_val [] (bytei_map st') fname l = t2_val [] (bytei_map st) fname l"
    using view_eqD(12)[OF assms(1)] .
  show ?thesis
    using foldl_report_index_cong[OF v m1] by (simp add: line_memory_stats_def Let_def i)
qed

lemma line_cpu_percent_view:
  assumes "fname \<in> set (all_instrumented_files st)"
  shows "view_of (snd (snd (line_cpu_percent fname l st))) = view_of st"
  using assms
  by (auto simp: line_cpu_percent_def Let_def view_of_def t2_val_touch all_files_set keys_t2_upd
           sum_values_t2_touch fun_eq_iff)

lemma line_cpu_percent_cong:
  assumes "view_of st' = view_of st"
  shows "fst (line_cpu_percent fname l st') = fst (line_cpu_percent fname l st)
       \<and> fst (snd (line_cpu_percent fname l st')) = fst (snd (line_cpu_percent fname l st))"
  using view_eqD(1,10,11)[OF assms]
  by (simp add: line_cpu_percent_def Let_def)

lemma sort_sort: "sort (sort xs) = sort xs"
  by (simp add: sorted_sort_id)

lemma sort_eq_Nil_iff: "(sort xs = []) = (xs = [])"
proof
  assume "sort xs = []"
  then have "length (sort xs) = 0" by simp
  then show "xs = []" by simp
next
  assume "xs = []"
  then show "sort xs = []" by simp
qed

lemma generate_sparkline_sorted:
  "generate_sparkline xs a b
   = (sort xs, sparkline (map (\<lambda>(t, i). if i > 0 then i else 0) (sort xs)) a b)"
  by (simp add: generate_sparkline_def Let_def)

lemma line_spark_string_fst:
  "fst (line_spark_string f l st)
   = (if sort (items (t2_val (new_reservoir 10) (per_line_footprint_samples st) f l)) = []
      then Inr []
      else (case sparkline (map (\<lambda>(t, i). if i > 0 then i else 0)
                  (sort (items (t2_val (new_reservoir 10) (per_line_footprint_samples st) f l))))
                  0 (max_footprint st) of
              Inl e \<Rightarrow> Inl e
            | Inr (mn, mx, s) \<Rightarrow> Inr s))"
  by (simp add: line_spark_string_def Let_def generate_sparkline_sorted reservoir_get_def
        sort_eq_Nil_iff split: sum.splits)

lemma line_spark_string_cong:
  assumes "view_of st' = view_of st"
  shows "fst (line_spark_string f l st') = fst (line_spark_string f l st)"
  unfolding line_spark_string_fst
  using view_eqD(4,17)[OF assms] by simp

lemma line_spark_string_view:
  "view_of (snd (line_spark_string f l st)) = view_of st"
proof -
  have a: "sort (items (t2_val (new_reservoir 10)
             (per_line_footprint_samples (snd (line_spark_string f l st))) f' l'))
        = sort (items (t2_val (new_reservoir 10) (per_line_footprint_samples st) f' l'))" for f' l'
    by (simp add: line_spark_string_def Let_def generate_sparkline_sorted reservoir_get_def
          t2_val_t2_upd sort_sort split: sum.splits)
  have b: "total_cpu_samples (snd (line_spark_string f l st)) = total_cpu_samples st"
    "total_memory_malloc_samples (snd (line_spark_string f l st)) = total_memory_malloc_samples st"
    "total_memory_free_samples (snd (line_spark_string f l st)) = total_memory_free_samples st"
    "max_footprint (snd (line_spark_string f l st)) = max_footprint st"
    "elapsed_time (snd (line_spark_string f l st)) = elapsed_time st"
    "source_files (snd (line_spark_string f l st)) = source_files st"
    "cpu_samples_c (snd (line_spark_string f l st)) = cpu_samples_c st"
    "cpu_samples_python (snd (line_spark_string f l st)) = cpu_samples_python st"
    "bytei_map (snd (line_spark_string f l st)) = bytei_map st"
    "memory_malloc_samples (snd (line_spark_string f l st)) = memory_malloc_samples st"
    "memory_malloc_count (snd (line_spark_string f l st)) = memory_malloc_count st"
    "memory_free_samples (snd (line_spark_string f l st)) = memory_free_samples st"
    "memory_free_count (snd (line_spark_string f l st)) = memory_free_count st"
    "memory_footprint_samples (snd (line_spark_string f l st)) = memory_footprint_samples st"
    by (simp_all add: line_spark_string_def Let_def split: prod.splits sum.splits)
  show ?thesis
    by (simp add: view_of_def a b all_instrumented_files_def)
qed

lemma report_line_view:
  assumes "fname \<in> set (all_instrumented_files st)"
  shows "view_of (snd (snd (report_line did fname l line0 st))) = view_of st"
proof -
  obtain p c st1 where a: "line_cpu_percent fname l st = (p, c, st1)"
    by (cases "line_cpu_percent fname l st")
  obtain acc st2 where b: "line_memory_stats fname l st1 = (acc, st2)"
    by (cases "line_memory_stats fname l st1")
  obtain r st3 where d: "line_spark_string fname l st2 = (r, st3)"
    by (cases "line_spark_string fname l st2")
  have v1: "view_of st1 = view_of st" using line_cpu_percent_view[OF assms, of l] a by simp
  have m1: "fname \<in> set (all_instrumented_files st1)" using assms view_eqD(7)[OF v1] by simp
  have v2: "view_of st2 = view_of st" using line_memory_stats_view[OF m1, of l] b v1 by simp
  have v3: "view_of st3 = view_of st" using line_spark_string_view[of fname l st2] d v2 by simp
  show ?thesis
    using v2 v3 by (simp add: report_line_def Let_def a b d split: sum.splits)
qed

lemma report_line_cong:
  assumes "view_of st' = view_of st" and "fname \<in> set (all_instrumented_files st)"
  shows "fst (report_line did fname l line0 st') = fst (report_line did fname l line0 st)
       \<and> fst (snd (report_line did fname l line0 st')) = fst (snd (report_line did fname l line0 st))"
proof -
  obtain p c st1 where a: "line_cpu_percent fname l st = (p, c, st1)"
    by (cases "line_cpu_percent fname l st")
  obtain acc st2 where b: "line_memory_stats fname l st1 = (acc, st2)"
    by (cases "line_memory_stats fname l st1")
  obtain r st3 where d: "line_spark_string fname l st2 = (r, st3)"
    by (cases "line_spark_string fname l st2")
  obtain p' c' st1' where a': "line_cpu_percent fname l st' = (p', c', st1')"
    by (cases "line_cpu_percent fname l st'")
  obtain acc' st2' where b': "line_memory_stats fname l st1' = (acc', st2')"
    by (cases "line_memory_stats fname l st1'")
  obtain r' st3' where d': "line_spark_string fname l st2' = (r', st3')"
    by (cases "line_spark_string fname l st2'")
  have m': "fname \<in> set (all_instrumented_files st')" using assms view_eqD(7)[OF assms(1)] by simp
  have pc: "p' = p" "c' = c" using line_cpu_percent_cong[OF assms(1), of fname l] a a' by simp_all
  have v1: "view_of st1 = view_of st" using line_cpu_percent_view[OF assms(2), of l] a by simp
  have v1': "view_of st1' = view_of st'" using line_cpu_percent_view[OF m', of l] a' by simp
  have w1: "view_of st1' = view_of st1" using v1 v1' assms(1) by simp
  have m1: "fname \<in> set (all_instrumented_files st1)" using assms(2) view_eqD(7)[OF v1] by simp
  have m1': "fname \<in> set (all_instrumented_files st1')" using m1 view_eqD(7)[OF w1] by simp
  have ac: "acc' = acc" using line_memory_stats_cong[OF w1 m1, of l] b b' by simp
  have v2: "view_of st2 = view_of st1" using line_memory_stats_view[OF m1, of l] b by simp
  have v2': "view_of st2' = view_of st1'" using line_memory_stats_view[OF m1', of l] b' by simp
  have w2: "view_of st2' = view_of st2" using v2 v2' w1 by simp
  have rr: "r' = r" using line_spark_string_cong[OF w2, of fname l] d d' by simp
  have tm: "total_memory_malloc_samples st2' = total_memory_malloc_samples st2"
    using view_eqD(2)[OF w2] .
  have L: "report_line did fname l line0 st
      = (let line = rstrip line0;
          n_growth_mb = n_avg_malloc_mb acc - n_avg_free_mb acc;
          n_growth_mb = (if n_growth_mb < 0 \<and> n_growth_mb > - 1 then 0 else n_growth_mb);
          n_usage_mb = (if total_memory_malloc_samples st2 = 0 then 0
                        else n_malloc_mb acc / total_memory_malloc_samples st2);
          n_cpu_percent_c_str = (if c = 0 then None else Some c);
          n_cpu_percent_python_str = (if p = 0 then None else Some p);
          n_growth_mb_str = (if n_growth_mb = 0 \<and> n_usage_mb = 0 then None else Some n_growth_mb)
      in if did then
           (case (r, st3) of
              (Inl e, st3) \<Rightarrow> (Some e, [], st3)
            | (Inr spark_string, st3) \<Rightarrow>
                (None, [MemRow l n_cpu_percent_python_str n_cpu_percent_c_str
                          n_growth_mb_str spark_string line], st3))
         else (None, [CpuRow l n_cpu_percent_python_str n_cpu_percent_c_str line], st2))"
    by (simp only: report_line_def Let_def a b d prod.case)
  have L': "report_line did fname l line0 st'
      = (let line = rstrip line0;
          n_growth_mb = n_avg_malloc_mb acc - n_avg_free_mb acc;
          n_growth_mb = (if n_growth_mb < 0 \<and> n_growth_mb > - 1 then 0 else n_growth_mb);
          n_usage_mb = (if total_memory_malloc_samples st2 = 0 then 0
                        else n_malloc_mb acc / total_memory_malloc_samples st2);
          n_cpu_percent_c_str = (if c = 0 then None else Some c);
          n_cpu_percent_python_str = (if p = 0 then None else Some p);
          n_growth_mb_str = (if n_growth_mb = 0 \<and> n_usage_mb = 0 then None else Some n_growth_mb)
      in if did then
           (case (r, st3') of
              (Inl e, st3) \<Rightarrow> (Some e, [], st3)
            | (Inr spark_string, st3) \<Rightarrow>
                (None, [MemRow l n_cpu_percent_python_str n_cpu_percent_c_str
                          n_growth_mb_str spark_string line], st3))
         else (None, [CpuRow l n_cpu_percent_python_str n_cpu_percent_c_str line], st2'))"
    using pc ac rr tm by (simp only: report_line_def Let_def a' b' d' prod.case)
  show ?thesis
    unfolding L L' by (cases did; cases r) (simp_all add: Let_def)
qed

lemma report_lines_view:
  assumes "fname \<in> set (all_instrumented_files st)"
  shows "view_of (snd (snd (report_lines did fname n ls st))) = view_of st"
  using assms
proof (induction ls arbitrary: st n)
  case Nil
  then show ?case by simp
next
  case (Cons line ls)
  obtain r out st1 where a: "report_line did fname n line st = (r, out, st1)"
    by (cases "report_line did fname n line st")
  have v1: "view_of st1 = view_of st"
    using report_line_view[OF Cons.prems, of did n line] a by simp
  show ?case
  proof (cases r)
    case (Some e)
    then show ?thesis using a v1 by simp
  next
    case None
    have m1: "fname \<in> set (all_instrumented_files st1)"
      using Cons.prems view_eqD(7)[OF v1] by simp
    obtain r2 out2 st2 where b: "report_lines did fname (n + 1) ls st1 = (r2, out2, st2)"
      by (cases "report_lines did fname (n + 1) ls st1")
    have "view_of st2 = view_of st1" using Cons.IH[OF m1, of "n + 1"] b by simp
    then show ?thesis using a b None v1 by simp
  qed
qed

lemma report_lines_cong:
  assumes "view_of st' = view_of st" and "fname \<in> set (all_instrumented_files st)"
  shows "fst (report_lines did fname n ls st') = fst (report_lines did fname n ls st)
       \<and> fst (snd (report_lines did fname n ls st')) = fst (snd (report_lines did fname n ls st))"
  using assms
proof (induction ls arbitrary: st st' n)
  case Nil
  then show ?case by simp
next
  case (Cons line ls)
  obtain r out st1 where a: "report_line did fname n line st = (r, out, st1)"
    by (cases "report_line did fname n line st")
  obtain r' out' st1' where a': "report_line did fname n line st' = (r', out', st1')"
    by (cases "report_line did fname n line st'")
  have m': "fname \<in> set (all_instrumented_files st')"
    using Cons.prems view_eqD(7)[OF Cons.prems(1)] by simp
  have e: "r' = r" "out' = out"
    using report_line_cong[OF Cons.prems, of did n line] a a' by simp_all
  have v1: "view_of st1 = view_of st"
    using report_line_view[OF Cons.prems(2), of did n line] a by simp
  have v1': "view_of st1' = view_of st'"
    using report_line_view[OF m', of did n line] a' by simp
  have w: "view_of st1' = view_of st1" using v1 v1' Cons.prems(1) by simp
  have m1: "fname \<in> set (all_instrumented_files st1)"
    using Cons.prems(2) view_eqD(7)[OF v1] by simp
  show ?case
  proof (cases r)
    case (Some x)
    then show ?thesis using a a' e by simp
  next
    case None
    obtain r2 out2 st2 where b: "report_lines did fname (n + 1) ls st1 = (r2, out2, st2)"
      by (cases "report_lines did fname (n + 1) ls st1")
    obtain r2' out2' st2' where b': "report_lines did fname (n + 1) ls st1' = (r2', out2', st2')"
      by (cases "report_lines did fname (n + 1) ls st1'")
    have "r2' = r2 \<and> out2' = out2"
      using Cons.IH[OF w m1, of "n + 1"] b b' by simp
    then show ?thesis using a a' e b b' None by simp
  qed
qed

lemma t2_val_touch1: "t2_val z (dd_upd [] f id t) f' l' = t2_val z t f' l'"
  by (simp add: t2_val_def dd_upd_id_val)

lemma file_touch_view:
  assumes "fname \<in> set (all_instrumented_files st)"
  shows "view_of (st\<lparr>cpu_samples_c := dd_upd [] fname id (cpu_samples_c st),
                     cpu_samples_python := dd_upd [] fname id (cpu_samples_python st)\<rparr>)
         = view_of st"
  using assms
  by (auto simp: view_of_def t2_val_touch1 dd_upd_id_val all_files_set dict_keys_dd_upd fun_eq_iff)

lemma report_file_view:
  assumes "fname \<in> set (all_instrumented_files st)"
  shows "view_of (snd (snd (report_file did fname st))) = view_of st"
proof -
  let ?st2 = "st\<lparr>cpu_samples_c := dd_upd [] fname id (cpu_samples_c st),
                  cpu_samples_python := dd_upd [] fname id (cpu_samples_python st)\<rparr>"
  have v: "view_of ?st2 = view_of st" using file_touch_view[OF assms] .
  have m: "fname \<in> set (all_instrumented_files ?st2)" using assms view_eqD(7)[OF v] by simp
  show ?thesis
  proof (cases "source_files st fname")
    case None
    then show ?thesis using v by (simp add: report_file_def Let_def)
  next
    case (Some lines)
    obtain r out st3 where b: "report_lines did fname 1 lines ?st2 = (r, out, st3)"
      by (cases "report_lines did fname 1 lines ?st2")
    have "view_of st3 = view_of ?st2" using report_lines_view[OF m, of did 1 lines] b by simp
    then have "view_of st3 = view_of st" using v by simp
    then show ?thesis using Some b by (cases r) (simp_all add: report_file_def Let_def)
  qed
qed

lemma report_file_cong:
  assumes "view_of st' = view_of st" and "fname \<in> set (all_instrumented_files st)"
  shows "fst (report_file did fname st') = fst (report_file did fname st)
       \<and> fst (snd (report_file did fname st')) = fst (snd (report_file did fname st))"
proof -
  let ?st2 = "st\<lparr>cpu_samples_c := dd_upd [] fname id (cpu_samples_c st),
                  cpu_samples_python := dd_upd [] fname id (cpu_samples_python st)\<rparr>"
  let ?st2' = "st'\<lparr>cpu_samples_c := dd_upd [] fname id (cpu_samples_c st'),
                  cpu_samples_python := dd_upd [] fname id (cpu_samples_python st')\<rparr>"
  have m': "fname \<in> set (all_instrumented_files st')"
    using assms view_eqD(7)[OF assms(1)] by simp
  have v: "view_of ?st2 = view_of st" using file_touch_view[OF assms(2)] .
  have v': "view_of ?st2' = view_of st'" using file_touch_view[OF m'] .
  have w: "view_of ?st2' = view_of ?st2" using v v' assms(1) by simp
  have m: "fname \<in> set (all_instrumented_files ?st2)" using assms(2) view_eqD(7)[OF v] by simp
  note e = view_eqD(1,5,6,8,9)[OF assms(1)]
  show ?thesis
  proof (cases "source_files st fname")
    case None
    then show ?thesis using e by (simp add: report_file_def Let_def)
  next
    case (Some lines)
    obtain r out st3 where b: "report_lines did fname 1 lines ?st2 = (r, out, st3)"
      by (cases "report_lines did fname 1 lines ?st2")
    obtain r' out' st3' where b': "report_lines did fname 1 lines ?st2' = (r', out', st3')"
      by (cases "report_lines did fname 1 lines ?st2'")
    have "r' = r \<and> out' = out"
      using report_lines_cong[OF w m, of did 1 lines] b b' by simp
    then show ?thesis
      using Some b b' e by (cases r) (simp_all add: report_file_def Let_def)
  qed
qed

lemma report_files_view:
  assumes "set fnames \<subseteq> set (all_instrumented_files st)"
  shows "view_of (snd (snd (report_files did fnames st))) = view_of st"
  using assms
proof (induction fnames arbitrary: st)
  case Nil
  then show ?case by simp
next
  case (Cons fname fnames)
  obtain r out st1 where a: "report_file did fname st = (r, out, st1)"
    by (cases "report_file did fname st")
  have m: "fname \<in> set (all_instrumented_files st)" using Cons.prems by simp
  have v1: "view_of st1 = view_of st" using report_file_view[OF m, of did] a by simp
  show ?case
  proof (cases r)
    case (Some e)
    then show ?thesis using a v1 by simp
  next
    case None
    have s1: "set fnames \<subseteq> set (all_instrumented_files st1)"
      using Cons.prems view_eqD(7)[OF v1] by simp
    obtain r2 out2 st2 where b: "report_files did fnames st1 = (r2, out2, st2)"
      by (cases "report_files did fnames st1")
    have "view_of st2 = view_of st1" using Cons.IH[OF s1] b by simp
    then show ?thesis using a b None v1 by simp
  qed
qed

lemma report_files_cong:
  assumes "view_of st' = view_of st" and "set fnames \<subseteq> set (all_instrumented_files st)"
  shows "fst (report_files did fnames st') = fst (report_files did fnames st)
       \<and> fst (snd (report_files did fnames st')) = fst (snd (report_files did fnames st))"
  using assms
proof (induction fnames arbitrary: st st')
  case Nil
  then show ?case by simp
next
  case (Cons fname fnames)
  obtain r out st1 where a: "report_file did fname st = (r, out, st1)"
    by (cases "report_file did fname st")
  obtain r' out' st1' where a': "report_file did fname st' = (r', out', st1')"
    by (cases "report_file did fname st'")
  have m: "fname \<in> set (all_instrumented_files st)" using Cons.prems by simp
  have m': "fname \<in> set (all_instrumented_files st')"
    using m view_eqD(7)[OF Cons.prems(1)] by simp
  have e: "r' = r" "out' = out"
    using report_file_cong[OF Cons.prems(1) m, of did] a a' by simp_all
  have v1: "view_of st1 = view_of st" using report_file_view[OF m, of did] a by simp
  have v1': "view_of st1' = view_of st'" using report_file_view[OF m', of did] a' by simp
  have w: "view_of st1' = view_of st1" using v1 v1' Cons.prems(1) by simp
  have s1: "set fnames \<subseteq> set (all_instrumented_files st1)"
    using Cons.prems(2) view_eqD(7)[OF v1] by simp
  show ?case
  proof (cases r)
    case (Some x)
    then show ?thesis using a a' e by simp
  next
    case None
    obtain r2 out2 st2 where b: "report_files did fnames st1 = (r2, out2, st2)"
      by (cases "report_files did fnames st1")
    obtain r2' out2' st2' where b': "report_files did fnames st1' = (r2', out2', st2')"
      by (cases "report_files did fnames st1'")
    have "r2' = r2 \<and> out2' = out2" using Cons.IH[OF w s1] b b' by simp
    then show ?thesis using a a' e b b' None by simp
  qed
qed

lemma report_memory_usage_fst:
  "(fst (report_memory_usage did st), fst (snd (report_memory_usage did st)))
   = (if did \<and> sort (items (memory_footprint_samples st)) \<noteq> [] then
        (case sparkline (map (\<lambda>(t, i). if i > 0 then i else 0)
                 (sort (items (memory_footprint_samples st)))) 0 (max_footprint st) of
           Inl e \<Rightarrow> (Some e, [])
         | Inr (mn, mx, sp) \<Rightarrow> (None, [MemoryUsage sp mx]))
      else (None, []))"
  by (simp add: report_memory_usage_def Let_def generate_sparkline_sorted reservoir_get_def
        sort_eq_Nil_iff split: sum.splits)

lemma report_memory_usage_cong:
  assumes "view_of st' = view_of st"
  shows "fst (report_memory_usage did st') = fst (report_memory_usage did st)
       \<and> fst (snd (report_memory_usage did st')) = fst (snd (report_memory_usage did st))"
proof -
  have "(fst (report_memory_usage did st'), fst (snd (report_memory_usage did st')))
      = (fst (report_memory_usage did st), fst (snd (report_memory_usage did st)))"
    unfolding report_memory_usage_fst using view_eqD(4,18)[OF assms] by simp
  then show ?thesis by simp
qed

lemma report_memory_usage_view:
  "view_of (snd (snd (report_memory_usage did st))) = view_of st"
  by (simp add: report_memory_usage_def Let_def generate_sparkline_sorted reservoir_get_def
        view_of_def sort_sort all_instrumented_files_def split: sum.splits)

lemma sort_files_eq:
  assumes "view_of st' = view_of st"
  shows "sort (all_instrumented_files st') = sort (all_instrumented_files st)"
proof -
  have "sort (all_instrumented_files s) = sorted_list_of_set (set (all_instrumented_files s))" for s
  proof -
    have "distinct (all_instrumented_files s)"
      by (simp add: all_instrumented_files_def)
    then have "remdups (all_instrumented_files s) = all_instrumented_files s"
      by (rule distinct_remdups_id)
    then show ?thesis
      using sorted_list_of_set_sort_remdups[of "all_instrumented_files s"] by (simp only:)
  qed
  then show ?thesis using view_eqD(7)[OF assms] by simp
qed

lemma report_body_view:
  "view_of (snd (snd (report_body st))) = view_of st"
proof -
  let ?did = "total_memory_free_samples st + total_memory_malloc_samples st > 0"
  obtain r out st1 where a: "report_memory_usage ?did st = (r, out, st1)"
    by (cases "report_memory_usage ?did st")
  have v1: "view_of st1 = view_of st" using report_memory_usage_view[of ?did st] a by simp
  show ?thesis
  proof (cases r)
    case (Some e)
    then show ?thesis using a v1 by (simp add: report_body_def Let_def)
  next
    case None
    obtain r2 out2 st2 where b:
      "report_files ?did (sort (all_instrumented_files st)) st1 = (r2, out2, st2)"
      by (cases "report_files ?did (sort (all_instrumented_files st)) st1")
    have "set (sort (all_instrumented_files st)) \<subseteq> set (all_instrumented_files st1)"
      using view_eqD(7)[OF v1] by simp
    then have "view_of st2 = view_of st1"
      using report_files_view[of "sort (all_instrumented_files st)" st1 ?did] b by simp
    then show ?thesis using a b None v1 by (simp add: report_body_def Let_def)
  qed
qed

lemma report_body_cong:
  assumes "view_of st' = view_of st"
  shows "fst (report_body st') = fst (report_body st)
       \<and> fst (snd (report_body st')) = fst (snd (report_body st))"
proof -
  let ?did = "total_memory_free_samples st + total_memory_malloc_samples st > 0"
  have did: "(total_memory_free_samples st' + total_memory_malloc_samples st' > 0) = ?did"
    using view_eqD(2,3)[OF assms] by simp
  note fl = sort_files_eq[OF assms]
  obtain r out st1 where a: "report_memory_usage ?did st = (r, out, st1)"
    by (cases "report_memory_usage ?did st")
  obtain r' out' st1' where a': "report_memory_usage ?did st' = (r', out', st1')"
    by (cases "report_memory_usage ?did st'")
  have e: "r' = r" "out' = out"
    using report_memory_usage_cong[OF assms, of ?did] a a' by simp_all
  have v1: "view_of st1 = view_of st" using report_memory_usage_view[of ?did st] a by simp
  have v1': "view_of st1' = view_of st'" using report_memory_usage_view[of ?did st'] a' by simp
  have w: "view_of st1' = view_of st1" using v1 v1' assms by simp
  show ?thesis
  proof (cases r)
    case (Some x)
    then show ?thesis using a a' e did by (simp add: report_body_def Let_def)
  next
    case None
    let ?files = "sort (all_instrumented_files st)"
    obtain r2 out2 st2 where b: "report_files ?did ?files st1 = (r2, out2, st2)"
      by (cases "report_files ?did ?files st1")
    obtain r2' out2' st2' where b': "report_files ?did ?files st1' = (r2', out2', st2')"
      by (cases "report_files ?did ?files st1'")
    have s: "set ?files \<subseteq> set (all_instrumented_files st1)"
      using view_eqD(7)[OF v1] by simp
    have "r2' = r2 \<and> out2' = out2"
      using report_files_cong[OF w s, of ?did] b b' by simp
    then show ?thesis
      using a a' e b b' None did fl by (simp add: report_body_def Let_def)
  qed
qed

lemma report_index_out:
  "out_channels (snd (report_index f l (acc, st) i)) = out_channels st"
  by (simp add: report_index_def Let_def out_channels_def)

lemma foldl_report_index_out:
  "out_channels (snd (foldl (report_index f l) (acc, st) is)) = out_channels st"
proof (induction "is" arbitrary: acc st)
  case Nil
  then show ?case by simp
next
  case (Cons i "is")
  obtain a' s' where r: "report_index f l (acc, st) i = (a', s')"
    by (cases "report_index f l (acc, st) i")
  have "out_channels s' = out_channels st" using report_index_out[of f l acc st i] r by simp
  then show ?case using Cons.IH[of a' s'] r by simp
qed

lemma line_memory_stats_out:
  "out_channels (snd (line_memory_stats f l st)) = out_channels st"
  using foldl_report_index_out[of f l _ "st\<lparr>bytei_map := t2_upd [] f l id (bytei_map st)\<rparr>"]
  by (simp add: line_memory_stats_def Let_def out_channels_def)

lemma line_cpu_percent_out:
  "out_channels (snd (snd (line_cpu_percent f l st))) = out_channels st"
  by (simp add: line_cpu_percent_def Let_def out_channels_def)

lemma line_spark_string_out:
  "out_channels (snd (line_spark_string f l st)) = out_channels st"
  by (simp add: line_spark_string_def Let_def out_channels_def split: prod.splits sum.splits)

lemma report_line_out:
  "out_channels (snd (snd (report_line did f l line0 st))) = out_channels st"
proof -
  obtain p c st1 where a: "line_cpu_percent f l st = (p, c, st1)"
    by (cases "line_cpu_percent f l st")
  obtain acc st2 where b: "line_memory_stats f l st1 = (acc, st2)"
    by (cases "line_memory_stats f l st1")
  obtain r st3 where d: "line_spark_string f l st2 = (r, st3)"
    by (cases "line_spark_string f l st2")
  have o1: "out_channels st1 = out_channels st" using line_cpu_percent_out[of f l st] a by simp
  have o2: "out_channels st2 = out_channels st" using line_memory_stats_out[of f l st1] b o1 by simp
  have o3: "out_channels st3 = out_channels st" using line_spark_string_out[of f l st2] d o2 by simp
  show ?thesis
    using o2 o3 by (simp add: report_line_def Let_def a b d split: sum.splits)
qed

lemma report_lines_out:
  "out_channels (snd (snd (report_lines did f n ls st))) = out_channels st"
proof (induction ls arbitrary: st n)
  case Nil
  then show ?case by simp
next
  case (Cons line ls)
  obtain r out st1 where a: "report_line did f n line st = (r, out, st1)"
    by (cases "report_line did f n line st")
  have o1: "out_channels st1 = out_channels st" using report_line_out[of did f n line st] a by simp
  show ?case
  proof (cases r)
    case (Some e)
    then show ?thesis using a o1 by simp
  next
    case None
    obtain r2 out2 st2 where b: "report_lines did f (n + 1) ls st1 = (r2, out2, st2)"
      by (cases "report_lines did f (n + 1) ls st1")
    have "out_channels st2 = out_channels st1" using Cons.IH[of "n + 1" st1] b by simp
    then show ?thesis using a b None o1 by simp
  qed
qed

lemma report_file_out:
  "out_channels (snd (snd (report_file did f st))) = out_channels st"
proof -
  let ?st2 = "st\<lparr>cpu_samples_c := dd_upd [] f id (cpu_samples_c st),
                  cpu_samples_python := dd_upd [] f id (cpu_samples_python st)\<rparr>"
  have o: "out_channels ?st2 = out_channels st" by (simp add: out_channels_def)
  show ?thesis
  proof (cases "source_files st f")
    case None
    then show ?thesis using o by (simp add: report_file_def Let_def)
  next
    case (Some lines)
    obtain r out st3 where b: "report_lines did f 1 lines ?st2 = (r, out, st3)"
      by (cases "report_lines did f 1 lines ?st2")
    have "out_channels st3 = out_channels st" using report_lines_out[of did f 1 lines ?st2] b o by simp
    then show ?thesis using Some b by (cases r) (simp_all add: report_file_def Let_def)
  qed
qed

lemma report_files_out:
  "out_channels (snd (snd (report_files did fnames st))) = out_channels st"
proof (induction fnames arbitrary: st)
  case Nil
  then show ?case by simp
next
  case (Cons f fnames)
  obtain r out st1 where a: "report_file did f st = (r, out, st1)"
    by (cases "report_file did f st")
  have o1: "out_channels st1 = out_channels st" using report_file_out[of did f st] a by simp
  show ?case
  proof (cases r)
    case (Some e)
    then show ?thesis using a o1 by simp
  next
    case None
    obtain r2 out2 st2 where b: "report_files did fnames st1 = (r2, out2, st2)"
      by (cases "report_files did fnames st1")
    have "out_channels st2 = out_channels st1" using Cons.IH[of st1] b by simp
    then show ?thesis using a b None o1 by simp
  qed
qed

lemma report_memory_usage_out:
  "out_channels (snd (snd (report_memory_usage did st))) = out_channels st"
  by (simp add: report_memory_usage_def Let_def out_channels_def split: prod.splits sum.splits)

lemma report_body_out:
  "out_channels (snd (snd (report_body st))) = out_channels st"
proof -
  let ?did = "total_memory_free_samples st + total_memory_malloc_samples st > 0"
  obtain r out st1 where a: "report_memory_usage ?did st = (r, out, st1)"
    by (cases "report_memory_usage ?did st")
  have o1: "out_channels st1 = out_channels st" using report_memory_usage_out[of ?did st] a by simp
  show ?thesis
  proof (cases r)
    case (Some e)
    then show ?thesis using a o1 by (simp add: report_body_def Let_def)
  next
    case None
    obtain r2 out2 st2 where b:
      "report_files ?did (sort (all_instrumented_files st)) st1 = (r2, out2, st2)"
      by (cases "report_files ?did (sort (all_instrumented_files st)) st1")
    have "out_channels st2 = out_channels st1"
      using report_files_out[of ?did "sort (all_instrumented_files st)" st1] b by simp
    then show ?thesis using a b None o1 by (simp add: report_body_def Let_def)
  qed
qed

lemma view_of_out_update:
  "view_of (s\<lparr>stdout := x\<rparr>) = view_of s"
  "view_of (s\<lparr>written_files := y\<rparr>) = view_of s"
  by (simp_all add: view_of_def all_instrumented_files_def)

text \<open>
  C9. Call \<open>output_profiles\<close> twice in a row, with nothing in between (the source files
  are those of the state). The second call returns or raises as the first did, and prints
  what the first printed: on standard output the lines of the first call appear once more
  after them, and a named output file holds after the second call what it held after the
  first. The keys that the first call stores in the \<open>defaultdict\<close> tables and the
  reservoirs that it sorts in place change nothing that the second call reads.
\<close>

theorem report_twice_identical:
  fixes st :: state
  defines "st1 \<equiv> snd (output_profiles st)"
  defines "st2 \<equiv> snd (output_profiles st1)"
  shows "fst (output_profiles st1) = fst (output_profiles st)
       \<and> stdout st2 = stdout st1 @ drop (length (stdout st)) (stdout st1)
       \<and> written_files st2 = written_files st1"
proof (cases "total_cpu_samples st = 0 \<and> total_memory_malloc_samples st = 0
              \<and> total_memory_free_samples st = 0")
  case True
  then have e: "output_profiles st = (Inr False, st)" by (simp add: output_profiles_def)
  then have "st1 = st" "st2 = st" by (simp_all add: st1_def st2_def)
  then show ?thesis by simp
next
  case False
  obtain r out sb where b: "report_body st = (r, out, sb)" by (cases "report_body st")
  have ob: "stdout sb = stdout st" "written_files sb = written_files st"
           "output_file sb = output_file st"
    using report_body_out[of st] b by (simp_all add: out_channels_def)
  have vb: "view_of sb = view_of st" using report_body_view[of st] b by simp
  show ?thesis
  proof (cases "output_file st")
    case None
    have e1: "output_profiles st
              = (case r of Some e \<Rightarrow> Inl e | None \<Rightarrow> Inr True, sb\<lparr>stdout := stdout sb @ out\<rparr>)"
      using False None b by (auto simp: output_profiles_def)
    then have s1: "st1 = sb\<lparr>stdout := stdout sb @ out\<rparr>" by (simp add: st1_def)
    have v1: "view_of st1 = view_of st" using vb by (simp add: s1 view_of_out_update)
    have o1: "output_file st1 = None" "stdout st1 = stdout st @ out"
             "written_files st1 = written_files st"
      using ob None by (simp_all add: s1)
    have F1: "\<not> (total_cpu_samples st1 = 0 \<and> total_memory_malloc_samples st1 = 0
              \<and> total_memory_free_samples st1 = 0)"
      using False view_eqD(1,2,3)[OF v1] by simp
    obtain r' out' sb' where b': "report_body st1 = (r', out', sb')" by (cases "report_body st1")
    have c: "r' = r" "out' = out" using report_body_cong[OF v1] b b' by simp_all
    have ob': "stdout sb' = stdout st1" "written_files sb' = written_files st1"
      using report_body_out[of st1] b' by (simp_all add: out_channels_def)
    have e2: "output_profiles st1
              = (case r of Some e \<Rightarrow> Inl e | None \<Rightarrow> Inr True, sb'\<lparr>stdout := stdout sb' @ out\<rparr>)"
      using F1 o1(1) b' c by (auto simp: output_profiles_def)
    then have s2: "st2 = sb'\<lparr>stdout := stdout sb' @ out\<rparr>" by (simp add: st2_def)
    show ?thesis
      unfolding e1 e2 s2 using ob' o1 by simp
  next
    case (Some name)
    show ?thesis
    proof (cases "name = []")
      case True
      then have e: "output_profiles st = (Inl FileNotFoundError, st)"
        using False Some by (auto simp: output_profiles_def)
      then have "st1 = st" "st2 = st" by (simp_all add: st1_def st2_def)
      then show ?thesis by simp
    next
      case nonempty: False
      have e1: "output_profiles st
                = (case r of Some e \<Rightarrow> Inl e | None \<Rightarrow> Inr True,
                   sb\<lparr>written_files := (written_files sb)(name := Some out)\<rparr>)"
        using False Some nonempty b by (auto simp: output_profiles_def)
      then have s1: "st1 = sb\<lparr>written_files := (written_files sb)(name := Some out)\<rparr>"
        by (simp add: st1_def)
      have v1: "view_of st1 = view_of st" using vb by (simp add: s1 view_of_out_update)
      have o1: "output_file st1 = Some name" "stdout st1 = stdout st"
               "written_files st1 = (written_files st)(name := Some out)"
        using ob Some by (simp_all add: s1)
      have F1: "\<not> (total_cpu_samples st1 = 0 \<and> total_memory_malloc_samples st1 = 0
                \<and> total_memory_free_samples st1 = 0)"
        using False view_eqD(1,2,3)[OF v1] by simp
      obtain r' out' sb' where b': "report_body st1 = (r', out', sb')"
        by (cases "report_body st1")
      have c: "r' = r" "out' = out" using report_body_cong[OF v1] b b' by simp_all
      have ob': "stdout sb' = stdout st1" "written_files sb' = written_files st1"
        using report_body_out[of st1] b' by (simp_all add: out_channels_def)
      have e2: "output_profiles st1
                = (case r of Some e \<Rightarrow> Inl e | None \<Rightarrow> Inr True,
                   sb'\<lparr>written_files := (written_files sb')(name := Some out)\<rparr>)"
        using F1 o1(1) nonempty b' c by (auto simp: output_profiles_def)
      then have s2: "st2 = sb'\<lparr>written_files := (written_files sb')(name := Some out)\<rparr>"
        by (simp add: st2_def)
      show ?thesis
        unfolding e1 e2 s2 using ob' o1 by simp
    qed
  qed
qed

subsection \<open>The CPU tick as a whole\<close>
















lemma cpu_counts_unchanged_fields:
  assumes "cpu_samples_python st' = cpu_samples_python st"
      and "cpu_samples_c st' = cpu_samples_c st"
      and "total_cpu_samples st' = total_cpu_samples st"
  shows "cpu_counts_unchanged st st'"
  using assms by (simp add: cpu_counts_unchanged_def)











end
